(* ===== verification/Prelude.thy ===== *)
theory Prelude
  imports Main "HOL-Library.Word" "HOL-Library.Signed_Division"
begin

unbundle bit_operations_syntax

text \<open>
  Shared vocabulary of the development: the C integer types as words of their width, the faults
  a C program can run into (the cases the C standard leaves undefined, kept as values), the
  result type \<open>'a res\<close> of every operation that dereferences memory or divides, bounded array
  access, and the generic runner of event-driven components with its invariant rule.
\<close>

section \<open>Machine integers\<close>

type_synonym u8 = "8 word"
type_synonym u16 = "16 word"
type_synonym u32 = "32 word"
type_synonym u64 = "64 word"
type_synonym s32 = "32 word"
type_synonym s64 = "64 word"

text \<open>
  A signed 32-bit value is the same word read with \<open>sint\<close>. The kernel is compiled with
  wrapping signed arithmetic, so signed addition and multiplication are those of the word;
  signed division truncates towards zero.
\<close>

definition s32_div :: "s32 \<Rightarrow> s32 \<Rightarrow> s32" where
  "s32_div a b = word_of_int (sint a sdiv sint b)"

text \<open>
  A plain \<open>char\<close> converted to \<open>u32\<close>: sign-extended where \<open>char\<close> is signed,
  zero-extended where it is not (the choice is the compiler's and is a parameter).
\<close>

definition char_to_u32 :: "bool \<Rightarrow> u8 \<Rightarrow> u32" where
  "char_to_u32 char_signed b = (if char_signed then scast b else ucast b)"

lemma char_to_u32_small: "b < 128 \<Longrightarrow> char_to_u32 cs b = ucast b"
proof -
  assume "b < 128"
  then have "uint b < 128" by (simp add: word_less_def)
  then have "sint b = uint b"
    by (simp add: sint_uint signed_take_bit_int_eq_self_iff order_trans [OF _ uint_ge_0])
  then show ?thesis
    by (simp add: char_to_u32_def scast_eq word_of_int_uint)
qed

section \<open>Faults and results\<close>

datatype fault =
    Out_Of_Bounds
  | Null_Deref
  | Use_After_Free
  | Div_By_Zero
  | Diverges

type_synonym 'a res = "fault + 'a"

fun rbind :: "'a res \<Rightarrow> ('a \<Rightarrow> 'b res) \<Rightarrow> 'b res" where
  "rbind (Inl e) f = Inl e"
| "rbind (Inr x) f = f x"

lemma rbind_eq_Inr: "rbind m f = Inr y \<longleftrightarrow> (\<exists>x. m = Inr x \<and> f x = Inr y)"
  by (cases m) auto

lemma rbind_eq_Inl: "rbind m f = Inl e \<longleftrightarrow> m = Inl e \<or> (\<exists>x. m = Inr x \<and> f x = Inl e)"
  by (cases m) auto

lemma rbind_assoc: "rbind (rbind m f) g = rbind m (\<lambda>x. rbind (f x) g)"
  by (cases m) auto

lemma rbind_cong [fundef_cong]:
  "m = m' \<Longrightarrow> (\<And>x. m' = Inr x \<Longrightarrow> f x = f' x) \<Longrightarrow> rbind m f = rbind m' f'"
  by (cases m') auto

definition is_ok :: "'a res \<Rightarrow> bool" where
  "is_ok r \<longleftrightarrow> (case r of Inl _ \<Rightarrow> False | Inr _ \<Rightarrow> True)"

lemma is_ok_simps [simp]: "is_ok (Inr x)" "\<not> is_ok (Inl e)"
  by (simp_all add: is_ok_def)

lemma is_ok_iff: "is_ok r \<longleftrightarrow> (\<exists>x. r = Inr x)"
  by (cases r) auto

text \<open>Dereferencing a pointer that may be NULL, and calling a function pointer that may be.\<close>

definition deref :: "'a option \<Rightarrow> 'a res" where
  "deref p = (case p of None \<Rightarrow> Inl Null_Deref | Some x \<Rightarrow> Inr x)"

lemma deref_simps [simp]: "deref None = Inl Null_Deref" "deref (Some x) = Inr x"
  by (simp_all add: deref_def)

lemma deref_eq_Inr [simp]: "deref p = Inr x \<longleftrightarrow> p = Some x"
  by (cases p) auto

section \<open>Arrays\<close>

definition array_get :: "'a list \<Rightarrow> nat \<Rightarrow> 'a res" where
  "array_get xs i = (if i < length xs then Inr (xs ! i) else Inl Out_Of_Bounds)"

definition array_set :: "'a list \<Rightarrow> nat \<Rightarrow> 'a \<Rightarrow> 'a list res" where
  "array_set xs i x = (if i < length xs then Inr (xs[i := x]) else Inl Out_Of_Bounds)"

lemma array_get_ok [simp]: "i < length xs \<Longrightarrow> array_get xs i = Inr (xs ! i)"
  by (simp add: array_get_def)

lemma array_get_oob [simp]: "length xs \<le> i \<Longrightarrow> array_get xs i = Inl Out_Of_Bounds"
  by (simp add: array_get_def)

lemma array_get_eq_Inr: "array_get xs i = Inr x \<longleftrightarrow> i < length xs \<and> xs ! i = x"
  by (simp add: array_get_def)

lemma array_set_ok [simp]: "i < length xs \<Longrightarrow> array_set xs i x = Inr (xs[i := x])"
  by (simp add: array_set_def)

lemma array_set_oob [simp]: "length xs \<le> i \<Longrightarrow> array_set xs i x = Inl Out_Of_Bounds"
  by (simp add: array_set_def)

lemma array_set_eq_Inr: "array_set xs i x = Inr ys \<longleftrightarrow> i < length xs \<and> ys = xs[i := x]"
  by (auto simp: array_set_def)

text \<open>\<open>memcpy\<close> of \<open>src\<close> to offset \<open>off\<close> of a buffer, and of \<open>n\<close> bytes from one.\<close>

definition memcpy_to :: "u8 list \<Rightarrow> nat \<Rightarrow> u8 list \<Rightarrow> u8 list res" where
  "memcpy_to buf off src =
     (if off + length src \<le> length buf
      then Inr (take off buf @ src @ drop (off + length src) buf)
      else Inl Out_Of_Bounds)"

definition memcpy_from :: "u8 list \<Rightarrow> nat \<Rightarrow> nat \<Rightarrow> u8 list res" where
  "memcpy_from buf off n =
     (if off + n \<le> length buf then Inr (take n (drop off buf)) else Inl Out_Of_Bounds)"

lemma memcpy_to_ok:
  "off + length src \<le> length buf \<Longrightarrow>
   memcpy_to buf off src = Inr (take off buf @ src @ drop (off + length src) buf)"
  by (simp add: memcpy_to_def)

lemma memcpy_from_ok: "off + n \<le> length buf \<Longrightarrow> memcpy_from buf off n = Inr (take n (drop off buf))"
  by (simp add: memcpy_from_def)

section \<open>Automation collections\<close>

text \<open>
  \<open>c_consts\<close> collects the values of the source's macros, so that a proof about sizes or
  codes unfolds them together; \<open>unat_arith_simps\<close> what moves a word comparison to \<open>nat\<close>.
\<close>

named_theorems c_consts

lemmas unat_cmp = word_less_nat_alt word_le_nat_alt

lemma unat_ucast_up:
  "LENGTH('a::len) \<le> LENGTH('b::len) \<Longrightarrow> unat (ucast (w :: 'a word) :: 'b word) = unat w"
  by (simp add: unsigned_ucast_eq take_bit_nat_eq_self_iff order_less_le_trans [OF unsigned_less])

lemma unat_word_of_nat_small:
  "m < 2 ^ LENGTH('a::len) \<Longrightarrow> unat (word_of_nat m :: 'a word) = m"
  by (simp add: unsigned_of_nat take_bit_nat_eq_self_iff)

lemma unat_add_exact:
  "unat a + unat b < 2 ^ LENGTH('a::len) \<Longrightarrow> unat (a + b :: 'a word) = unat a + unat b"
  by (simp add: unat_word_ariths)

lemma ucast_up_down: "ucast (ucast (w :: u32) :: u64) = w"
  by (rule bit_word_eqI) (simp add: bit_simps)

lemma ucast_of_nat_small:
  "m < 2 ^ LENGTH('a::len) \<Longrightarrow> m < 2 ^ LENGTH('b::len) \<Longrightarrow>
   ucast (word_of_nat m :: 'a word) = (word_of_nat m :: 'b word)"
proof -
  assume "m < 2 ^ LENGTH('a)" and "m < 2 ^ LENGTH('b)"
  then have "unat (ucast (word_of_nat m :: 'a word) :: 'b word) = unat (word_of_nat m :: 'b word)"
    by (simp add: unsigned_ucast_eq unat_word_of_nat_small take_bit_nat_eq_self_iff)
  then show ?thesis by (simp only: word_unat_eq_iff)
qed

lemma uint_word_of_int_small:
  "0 \<le> k \<Longrightarrow> k < 2 ^ LENGTH('a::len) \<Longrightarrow> uint (word_of_int k :: 'a word) = k"
  by (simp add: uint_word_of_int)

lemma sint_word_of_int_small:
  "0 \<le> k \<Longrightarrow> k < 2 ^ (LENGTH('a::len) - 1) \<Longrightarrow> sint (word_of_int k :: 'a word) = k"
proof -
  assume "0 \<le> k" and "k < 2 ^ (LENGTH('a) - 1)"
  moreover have "- (2 ^ (LENGTH('a) - 1)) \<le> (0 :: int)" by simp
  ultimately show ?thesis
    by (simp add: signed_of_int signed_take_bit_int_eq_self_iff order_trans)
qed

lemma sint_s32_of_int: "- (2 ^ 31) \<le> k \<Longrightarrow> k < 2 ^ 31 \<Longrightarrow> sint (word_of_int k :: s32) = k"
  by (subst signed_of_int) (simp add: signed_take_bit_int_eq_self_iff)

lemma sint_word_of_nat_small:
  "k < 2 ^ (LENGTH('a::len) - 1) \<Longrightarrow> sint (word_of_nat k :: 'a word) = int k"
proof -
  assume "k < 2 ^ (LENGTH('a) - 1)"
  then have "int k < 2 ^ (LENGTH('a) - 1)" by (simp only: of_nat_less_numeral_power_cancel_iff flip: of_nat_less_iff)
  from sint_word_of_int_small [OF _ this] show ?thesis by simp
qed

lemma sdiv_nonneg: "0 \<le> a \<Longrightarrow> 0 \<le> b \<Longrightarrow> a sdiv b = a div (b :: int)"
  by (simp add: signed_divide_int_def sgn_if)

lemma unat_max: "unat (max a b) = max (unat a) (unat b)"
  by (simp add: max_def word_le_nat_alt)

lemma unat_min: "unat (min a b) = min (unat a) (unat b)"
  by (simp add: min_def word_le_nat_alt)

lemma unat_mult_exact:
  "unat a * unat b < 2 ^ LENGTH('a::len) \<Longrightarrow> unat (a * b :: 'a word) = unat a * unat b"
  by (simp add: unat_word_ariths)

section \<open>Event-driven components\<close>

text \<open>
  A congestion-control module is driven by the TCP stack: the stack calls one handler after
  another on the same state. A run stops at the first fault.
\<close>

fun run :: "('ev \<Rightarrow> 's \<Rightarrow> 's res) \<Rightarrow> 'ev list \<Rightarrow> 's \<Rightarrow> 's res" where
  "run step [] s = Inr s"
| "run step (e # es) s = rbind (step e s) (run step es)"

lemma run_append: "run step (xs @ ys) s = rbind (run step xs s) (run step ys)"
proof (induction xs arbitrary: s)
  case (Cons x xs)
  then show ?case by (cases "step x s") simp_all
qed simp

locale machine =
  fixes step :: "'ev \<Rightarrow> 's \<Rightarrow> 's res"
    and inv :: "'s \<Rightarrow> bool"
    and allowed :: "'ev \<Rightarrow> bool"
  assumes step_safe: "inv s \<Longrightarrow> allowed e \<Longrightarrow> \<exists>s'. step e s = Inr s' \<and> inv s'"
begin

lemma run_safe: "inv s \<Longrightarrow> list_all allowed es \<Longrightarrow> \<exists>s'. run step es s = Inr s' \<and> inv s'"
proof (induction es arbitrary: s)
  case Nil
  then show ?case by simp
next
  case (Cons e es)
  then obtain s' where "step e s = Inr s'" "inv s'"
    using step_safe by force
  with Cons show ?case by simp
qed

lemma run_no_fault: "inv s \<Longrightarrow> list_all allowed es \<Longrightarrow> run step es s \<noteq> Inl f"
  using run_safe by fastforce

lemma run_inv: "inv s \<Longrightarrow> list_all allowed es \<Longrightarrow> run step es s = Inr s' \<Longrightarrow> inv s'"
  using run_safe by fastforce

end

end
