(* ===== verification/Wire.thy ===== *)
theory Wire
  imports Prelude
begin

text \<open>
  The little-endian memory image of integers and the interface of a fixed-size codec: what
  \<open>memcpy\<close> of a packed struct reads and writes on the wire. The image of every struct of
  serialize.h is built from these in theory \<open>Serialize\<close>.
\<close>

section \<open>Integers in memory\<close>

fun to_le :: "nat \<Rightarrow> 'a::len word \<Rightarrow> u8 list" where
  "to_le 0 w = []"
| "to_le (Suc n) w = ucast w # to_le n (drop_bit 8 w)"

fun of_le :: "u8 list \<Rightarrow> 'a::len word" where
  "of_le [] = 0"
| "of_le (b # bs) = ucast b OR push_bit 8 (of_le bs)"

lemma length_to_le [simp]: "length (to_le n w) = n"
  by (induction n arbitrary: w) simp_all

lemma of_le_to_le_take: "of_le (to_le n w) = take_bit (8 * n) w"
proof (induction n arbitrary: w)
  case 0
  show ?case by simp
next
  case (Suc n)
  show ?case
    by (rule bit_word_eqI) (auto simp: Suc bit_simps)
qed

lemma of_le_to_le: "LENGTH('a::len) \<le> 8 * n \<Longrightarrow> of_le (to_le n w) = (w :: 'a word)"
  by (simp add: of_le_to_le_take take_bit_word_eq_self)

lemma to_le_of_le:
  "8 * length bs \<le> LENGTH('a::len) \<Longrightarrow> to_le (length bs) (of_le bs :: 'a word) = bs"
proof (induction bs)
  case Nil
  show ?case by simp
next
  case (Cons b bs)
  have low: "ucast (ucast b OR push_bit 8 (of_le bs) :: 'a word) = b"
    using Cons.prems by (intro bit_word_eqI) (auto simp: bit_simps dest: bit_imp_le_length)
  have "drop_bit 8 (ucast b OR push_bit 8 (of_le bs) :: 'a word) =
        take_bit (LENGTH('a) - 8) (of_le bs)"
    using Cons.prems by (intro bit_word_eqI) (auto simp: bit_simps dest: bit_imp_le_length)
  moreover have "take_bit (LENGTH('a) - 8) (of_le bs :: 'a word) = of_le bs"
  proof -
    have "(of_le bs :: 'a word) = of_le (to_le (length bs) (of_le bs :: 'a word))"
      using Cons by simp
    also have "\<dots> = take_bit (8 * length bs) (of_le bs)"
      by (rule of_le_to_le_take)
    finally have eq: "(of_le bs :: 'a word) = take_bit (8 * length bs) (of_le bs)" .
    have "8 * length bs \<le> LENGTH('a) - 8" using Cons.prems by simp
    then have "take_bit (LENGTH('a) - 8) (take_bit (8 * length bs) (of_le bs :: 'a word)) =
        take_bit (8 * length bs) (of_le bs)"
      by (simp add: min_absorb2)
    with eq show ?thesis by simp
  qed
  ultimately show ?case using Cons low by simp
qed

section \<open>Fixed-size codecs\<close>

locale codec =
  fixes enc :: "'a \<Rightarrow> u8 list"
    and dec :: "u8 list \<Rightarrow> 'a"
    and sz :: nat
    and valid :: "'a \<Rightarrow> bool"
  assumes enc_len: "valid x \<Longrightarrow> length (enc x) = sz"
    and dec_enc: "valid x \<Longrightarrow> dec (enc x) = x"
begin

lemma enc_inj: "valid x \<Longrightarrow> valid y \<Longrightarrow> enc x = enc y \<Longrightarrow> x = y"
  using dec_enc by metis

lemma dec_prefix: "valid x \<Longrightarrow> dec (take sz (enc x @ rest)) = x"
  by (simp add: enc_len dec_enc)

lemma drop_enc: "valid x \<Longrightarrow> drop sz (enc x @ rest) = rest"
  by (simp add: enc_len)

lemma length_encs: "list_all valid xs \<Longrightarrow> length (concat (map enc xs)) = length xs * sz"
  by (induction xs) (auto simp: enc_len)

lemma element_at:
  "list_all valid xs \<Longrightarrow> i < length xs \<Longrightarrow>
   dec (take sz (drop (i * sz) (concat (map enc xs) @ rest))) = xs ! i"
proof (induction xs arbitrary: i)
  case Nil
  then show ?case by simp
next
  case (Cons x xs)
  show ?case
  proof (cases i)
    case 0
    with Cons show ?thesis by (simp add: enc_len dec_enc)
  next
    case (Suc j)
    with Cons have "dec (take sz (drop (j * sz) (concat (map enc xs) @ rest))) = xs ! j"
      by simp
    moreover have "drop (i * sz) (concat (map enc (x # xs)) @ rest) =
        drop (j * sz) (concat (map enc xs) @ rest)"
      using Cons.prems by (simp add: Suc enc_len)
    ultimately show ?thesis
      using Suc by simp
  qed
qed

end

interpretation u16_codec: codec "to_le 2 :: u16 \<Rightarrow> u8 list" of_le 2 "\<lambda>_. True"
  by unfold_locales (simp_all add: of_le_to_le)

interpretation u32_codec: codec "to_le 4 :: u32 \<Rightarrow> u8 list" of_le 4 "\<lambda>_. True"
  by unfold_locales (simp_all add: of_le_to_le)

interpretation u64_codec: codec "to_le 8 :: u64 \<Rightarrow> u8 list" of_le 8 "\<lambda>_. True"
  by unfold_locales (simp_all add: of_le_to_le)

end
