(* ===== verification/Serialize.thy ===== *)
theory Serialize
  imports Wire
begin

text \<open>
  Messages between the kernel and the user-space controller: the structs of serialize.h with
  their memory images, the error codes of spine_err.h and serialize.h, and every function of
  serialize.c. A buffer is a byte list and a write returns the buffer after it. The memory image
  is that of the packed structs on a little-endian host. Logging is left out.
\<close>

section \<open>Return codes (spine_err.h, serialize.h)\<close>

definition SPINE_OK :: int where [c_consts]: "SPINE_OK = 1"
definition SPINE_MISSING_ARG :: int where [c_consts]: "SPINE_MISSING_ARG = -11"
definition SPINE_NULL_ARG :: int where [c_consts]: "SPINE_NULL_ARG = -12"
definition SPINE_BUFSIZE_NEGATIVE :: int where [c_consts]: "SPINE_BUFSIZE_NEGATIVE = -21"
definition SPINE_BUFSIZE_TOO_SMALL :: int where [c_consts]: "SPINE_BUFSIZE_TOO_SMALL = -22"
definition SPINE_MSG_TOO_LONG :: int where [c_consts]: "SPINE_MSG_TOO_LONG = -23"
definition SPINE_UPDATE_INVALID_REG_TYPE :: int where
  [c_consts]: "SPINE_UPDATE_INVALID_REG_TYPE = -53"
definition SPINE_UNKNOWN_CONNECTION :: int where [c_consts]: "SPINE_UNKNOWN_CONNECTION = -71"
definition SPINE_CREATE_PENDING :: int where [c_consts]: "SPINE_CREATE_PENDING = -72"
definition SPINE_CONNECTION_NOT_INITIALIZED :: int where
  [c_consts]: "SPINE_CONNECTION_NOT_INITIALIZED = -73"
definition LIBCCP_BUFSIZE_TOO_SMALL :: int where [c_consts]: "LIBCCP_BUFSIZE_TOO_SMALL = -1"
definition LIBCCP_BUFSIZE_NEGATIVE :: int where [c_consts]: "LIBCCP_BUFSIZE_NEGATIVE = -1"
definition LIBCCP_UPDATE_TOO_MANY :: int where [c_consts]: "LIBCCP_UPDATE_TOO_MANY = -1"
definition LIBCCP_UPDATE_TYPE_MISMATCH :: int where [c_consts]: "LIBCCP_UPDATE_TYPE_MISMATCH = -1"

section \<open>Message types and sizes (serialize.h)\<close>

definition CREATE :: u16 where [c_consts]: "CREATE = 0"
definition MEASURE :: u16 where [c_consts]: "MEASURE = 1"
definition UPDATE_FIELDS :: u16 where [c_consts]: "UPDATE_FIELDS = 3"
definition READY :: u16 where [c_consts]: "READY = 5"
definition STATE :: u16 where [c_consts]: "STATE = 6"
definition PARAM :: u16 where [c_consts]: "PARAM = 7"
definition RELEASE :: u16 where [c_consts]: "RELEASE = 9"

definition BIGGEST_MSG_SIZE :: nat where [c_consts]: "BIGGEST_MSG_SIZE = 32678"
definition CREATE_MSG_SIZE :: nat where [c_consts]: "CREATE_MSG_SIZE = 96"
definition REPORT_MSG_SIZE :: nat where [c_consts]: "REPORT_MSG_SIZE = 900"
definition READY_MSG_SIZE :: nat where [c_consts]: "READY_MSG_SIZE = 12"
definition RELEASE_MSG_SIZE :: nat where [c_consts]: "RELEASE_MSG_SIZE = 12"
definition MAX_REPORT_REG :: nat where [c_consts]: "MAX_REPORT_REG = 110"
definition MAX_CONTROL_REG :: nat where [c_consts]: "MAX_CONTROL_REG = 20"
definition MAX_MUTABLE_REG :: u32 where [c_consts]: "MAX_MUTABLE_REG = 222"
definition MAX_MEASUREMENT_FIELDS :: nat where [c_consts]: "MAX_MEASUREMENT_FIELDS = 16"
definition MAX_CONG_ALG_SIZE :: nat where [c_consts]: "MAX_CONG_ALG_SIZE = 64"

text \<open>\<open>sizeof\<close> of the packed structs.\<close>

definition sizeof_header :: nat where [c_consts]: "sizeof_header = 8"
definition sizeof_UpdateField :: nat where [c_consts]: "sizeof_UpdateField = 13"

section \<open>Structs and their memory images\<close>

record SpineMsgHeader =
  hdr_Type :: u16
  hdr_Len :: u16
  hdr_SocketId :: u32

record CreateMsg =
  cr_init_cwnd :: u32
  cr_mss :: u32
  cr_src_ip :: u32
  cr_src_port :: u32
  cr_dst_ip :: u32
  cr_dst_port :: u32
  cr_congAlg :: "u8 list"

record MeasureMsg =
  ms_program_uid :: u32
  ms_num_fields :: u32
  ms_fields :: "u64 list"

record UpdateField =
  uf_reg_type :: u8
  uf_reg_index :: u32
  uf_new_value :: u64

definition header_bytes :: "SpineMsgHeader \<Rightarrow> u8 list" where
  "header_bytes h = to_le 2 (hdr_Type h) @ to_le 2 (hdr_Len h) @ to_le 4 (hdr_SocketId h)"

definition header_of_bytes :: "u8 list \<Rightarrow> SpineMsgHeader" where
  "header_of_bytes bs = \<lparr>hdr_Type = of_le (take 2 bs), hdr_Len = of_le (take 2 (drop 2 bs)),
     hdr_SocketId = of_le (take 4 (drop 4 bs))\<rparr>"

definition create_bytes :: "CreateMsg \<Rightarrow> u8 list" where
  "create_bytes c = to_le 4 (cr_init_cwnd c) @ to_le 4 (cr_mss c) @ to_le 4 (cr_src_ip c) @
     to_le 4 (cr_src_port c) @ to_le 4 (cr_dst_ip c) @ to_le 4 (cr_dst_port c) @ cr_congAlg c"

definition create_of_bytes :: "u8 list \<Rightarrow> CreateMsg" where
  "create_of_bytes bs = \<lparr>cr_init_cwnd = of_le (take 4 bs), cr_mss = of_le (take 4 (drop 4 bs)),
     cr_src_ip = of_le (take 4 (drop 8 bs)), cr_src_port = of_le (take 4 (drop 12 bs)),
     cr_dst_ip = of_le (take 4 (drop 16 bs)), cr_dst_port = of_le (take 4 (drop 20 bs)),
     cr_congAlg = take 64 (drop 24 bs)\<rparr>"

definition measure_bytes :: "MeasureMsg \<Rightarrow> u8 list" where
  "measure_bytes m = to_le 4 (ms_program_uid m) @ to_le 4 (ms_num_fields m) @
     concat (map (to_le 8) (ms_fields m))"

definition update_field_bytes :: "UpdateField \<Rightarrow> u8 list" where
  "update_field_bytes f = to_le 1 (uf_reg_type f) @ to_le 4 (uf_reg_index f) @
     to_le 8 (uf_new_value f)"

definition update_field_of_bytes :: "u8 list \<Rightarrow> UpdateField" where
  "update_field_of_bytes bs = \<lparr>uf_reg_type = of_le (take 1 bs),
     uf_reg_index = of_le (take 4 (drop 1 bs)), uf_new_value = of_le (take 8 (drop 5 bs))\<rparr>"

lemma length_header_bytes [simp]: "length (header_bytes h) = 8"
  by (simp add: header_bytes_def)

lemma length_update_field_bytes [simp]: "length (update_field_bytes f) = 13"
  by (simp add: update_field_bytes_def)

interpretation header_codec: codec header_bytes header_of_bytes 8 "\<lambda>_. True"
  by unfold_locales (simp_all add: header_bytes_def header_of_bytes_def of_le_to_le)

interpretation create_codec: codec create_bytes create_of_bytes 88 "\<lambda>c. length (cr_congAlg c) = 64"
  by unfold_locales (simp_all add: create_bytes_def create_of_bytes_def of_le_to_le)

interpretation update_codec: codec update_field_bytes update_field_of_bytes 13 "\<lambda>_. True"
  by unfold_locales
    (simp_all add: update_field_bytes_def update_field_of_bytes_def of_le_to_le)

section \<open>Headers\<close>

definition read_header :: "u8 list \<Rightarrow> (int \<times> SpineMsgHeader) res" where
  "read_header buf = rbind (memcpy_from buf 0 sizeof_header) (\<lambda>bs.
     let hdr = header_of_bytes bs; t = hdr_Type hdr in
     if t = STATE then Inr (int sizeof_header, hdr)
     else if t = PARAM then Inr (int sizeof_header, hdr)
     else if t = UPDATE_FIELDS then Inr (int sizeof_header, hdr)
     else if t = MEASURE then Inr (int sizeof_header, hdr)
     else Inr (-1, hdr))"

definition serialize_header :: "u8 list \<Rightarrow> int \<Rightarrow> SpineMsgHeader \<Rightarrow> (int \<times> u8 list) res" where
  "serialize_header buf bufsize hdr =
     (let t = hdr_Type hdr in
      if t = CREATE \<or> t = STATE \<or> t = MEASURE \<or> t = READY \<or> t = RELEASE then
        if bufsize < int sizeof_header then Inr (LIBCCP_BUFSIZE_TOO_SMALL, buf)
        else rbind (memcpy_to buf 0 (header_bytes hdr)) (\<lambda>buf'. Inr (int sizeof_header, buf'))
      else Inr (-1, buf))"

section \<open>Messages to user space\<close>

definition write_ready_msg :: "u8 list \<Rightarrow> int \<Rightarrow> u32 \<Rightarrow> (int \<times> u8 list) res" where
  "write_ready_msg buf bufsize ident =
     (let msg_len = word_of_nat (sizeof_header + 4);
          hdr = \<lparr>hdr_Type = READY, hdr_Len = msg_len, hdr_SocketId = 0\<rparr> in
      if bufsize < 0 then Inr (LIBCCP_BUFSIZE_NEGATIVE, buf)
      else if (word_of_int bufsize :: u32) < ucast (hdr_Len hdr)
      then Inr (LIBCCP_BUFSIZE_TOO_SMALL, buf)
      else rbind (serialize_header buf bufsize hdr) (\<lambda>(ret, buf1).
        if ret < 0 then Inr (ret, buf1)
        else rbind (memcpy_to buf1 (nat ret) (to_le 4 ident)) (\<lambda>buf2.
          Inr (int (unat (hdr_Len hdr)), buf2))))"

definition write_release_msg :: "u8 list \<Rightarrow> int \<Rightarrow> u32 \<Rightarrow> (int \<times> u8 list) res" where
  "write_release_msg buf bufsize ident =
     (let msg_len = word_of_nat (sizeof_header + 4);
          hdr = \<lparr>hdr_Type = RELEASE, hdr_Len = msg_len, hdr_SocketId = 0\<rparr> in
      if bufsize < 0 then Inr (LIBCCP_BUFSIZE_NEGATIVE, buf)
      else if (word_of_int bufsize :: u32) < ucast (hdr_Len hdr)
      then Inr (LIBCCP_BUFSIZE_TOO_SMALL, buf)
      else rbind (serialize_header buf bufsize hdr) (\<lambda>(ret, buf1).
        if ret < 0 then Inr (ret, buf1)
        else rbind (memcpy_to buf1 (nat ret) (to_le 4 ident)) (\<lambda>buf2.
          Inr (int (unat (hdr_Len hdr)), buf2))))"

definition write_create_msg ::
  "u8 list \<Rightarrow> int \<Rightarrow> u32 \<Rightarrow> CreateMsg \<Rightarrow> (int \<times> u8 list) res" where
  "write_create_msg buf bufsize sid cr =
     (let msg_len = word_of_nat (sizeof_header + 88);
          hdr = \<lparr>hdr_Type = CREATE, hdr_Len = msg_len, hdr_SocketId = sid\<rparr> in
      if bufsize < 0 then Inr (LIBCCP_BUFSIZE_NEGATIVE, buf)
      else if (word_of_int bufsize :: u32) < ucast (hdr_Len hdr)
      then Inr (LIBCCP_BUFSIZE_TOO_SMALL, buf)
      else rbind (serialize_header buf bufsize hdr) (\<lambda>(ret, buf1).
        if ret < 0 then Inr (ret, buf1)
        else rbind (memcpy_from (create_bytes cr) 0 (unat (hdr_Len hdr) - sizeof_header)) (\<lambda>body.
          rbind (memcpy_to buf1 (nat ret) body) (\<lambda>buf2.
            Inr (int (unat (hdr_Len hdr)), buf2)))))"

text \<open>
  \<open>msg_fields\<close> is a pointer that may be NULL; the copy into the 110-element array of the
  struct comes before every size check.
\<close>

definition measure_struct :: "u32 \<Rightarrow> u8 \<Rightarrow> u64 list option \<Rightarrow> MeasureMsg res" where
  "measure_struct program_uid num_fields msg_fields =
     (let n = unat num_fields;
          ms = \<lparr>ms_program_uid = program_uid, ms_num_fields = ucast num_fields,
                ms_fields = replicate MAX_REPORT_REG 0\<rparr> in
      case msg_fields of
        None \<Rightarrow> Inr ms
      | Some fs \<Rightarrow>
          if n \<le> length fs \<and> n \<le> MAX_REPORT_REG
          then Inr (ms\<lparr>ms_fields := take n fs @ drop n (ms_fields ms)\<rparr>)
          else Inl Out_Of_Bounds)"

definition write_measure_msg ::
  "u8 list \<Rightarrow> int \<Rightarrow> u32 \<Rightarrow> u32 \<Rightarrow> u64 list option \<Rightarrow> u8 \<Rightarrow> (int \<times> u8 list) res" where
  "write_measure_msg buf bufsize sid program_uid msg_fields num_fields =
     (let msg_len = word_of_nat (sizeof_header + 8 + unat num_fields * 8);
          hdr = \<lparr>hdr_Type = MEASURE, hdr_Len = msg_len, hdr_SocketId = sid\<rparr> in
      rbind (measure_struct program_uid num_fields msg_fields) (\<lambda>ms.
      if bufsize < 0 then Inr (LIBCCP_BUFSIZE_NEGATIVE, buf)
      else if (word_of_int bufsize :: u32) < ucast (hdr_Len hdr)
      then Inr (LIBCCP_BUFSIZE_TOO_SMALL, buf)
      else rbind (serialize_header buf bufsize hdr) (\<lambda>(ret, buf1).
        if ret < 0 then Inr (ret, buf1)
        else rbind (memcpy_from (measure_bytes ms) 0 (unat (hdr_Len hdr) - sizeof_header)) (\<lambda>body.
          rbind (memcpy_to buf1 (nat ret) body) (\<lambda>buf2.
            Inr (int (unat (hdr_Len hdr)), buf2))))))"

section \<open>Messages from user space\<close>

text \<open>
  The count and the request index are read as \<open>(u32)*buf\<close> with \<open>buf\<close> a \<open>char *\<close>,
  that is, from one byte. The output argument is passed in and returned. The test
  \<open>*measure_idx < 0\<close> is on an unsigned value.
\<close>

definition check_update_fields_msg ::
  "bool \<Rightarrow> SpineMsgHeader \<Rightarrow> u32 \<Rightarrow> u8 list \<Rightarrow> (int \<times> u32) res" where
  "check_update_fields_msg char_signed hdr num_updates buf =
     (if hdr_Type hdr \<noteq> UPDATE_FIELDS then Inr (LIBCCP_UPDATE_TYPE_MISMATCH, num_updates)
      else rbind (array_get buf 0) (\<lambda>b.
        let n = char_to_u32 char_signed b in
        if n > MAX_MUTABLE_REG then Inr (LIBCCP_UPDATE_TOO_MANY, n) else Inr (4, n)))"

definition check_measure_fields_msg ::
  "bool \<Rightarrow> SpineMsgHeader \<Rightarrow> u32 \<Rightarrow> u8 list \<Rightarrow> (int \<times> u32) res" where
  "check_measure_fields_msg char_signed hdr measure_idx buf =
     (if hdr_Type hdr \<noteq> MEASURE then Inr (LIBCCP_UPDATE_TYPE_MISMATCH, measure_idx)
      else rbind (array_get buf 0) (\<lambda>b.
        let i = char_to_u32 char_signed b in
        if i < 0 then Inr (-1, i) else Inr (4, i)))"

section \<open>Lemmas\<close>

lemma header_of_header_bytes [simp]: "header_of_bytes (take 8 (header_bytes h @ rest)) = h"
  using header_codec.dec_prefix by simp

lemma header_bytes_eq [simp]: "header_bytes h = header_bytes h' \<longleftrightarrow> h = h'"
  using header_codec.enc_inj [of h h'] by auto

lemma read_header_header_bytes:
  "read_header (header_bytes h @ rest) =
     Inr (if hdr_Type h \<in> {STATE, PARAM, UPDATE_FIELDS, MEASURE} then 8 else -1, h)"
proof -
  have "memcpy_from (header_bytes h @ rest) 0 8 = Inr (header_bytes h)"
    by (simp add: memcpy_from_def)
  moreover have "header_of_bytes (header_bytes h) = h"
    using header_codec.dec_enc by simp
  ultimately show ?thesis
    by (simp add: read_header_def Let_def sizeof_header_def)
qed

lemma read_header_short: "length buf < 8 \<Longrightarrow> read_header buf = Inl Out_Of_Bounds"
  by (simp add: read_header_def memcpy_from_def sizeof_header_def)

lemma serialize_header_ok:
  "hdr_Type h \<in> {CREATE, STATE, MEASURE, READY, RELEASE} \<Longrightarrow> 8 \<le> bufsize \<Longrightarrow> 8 \<le> length buf \<Longrightarrow>
   serialize_header buf bufsize h = Inr (8, header_bytes h @ drop 8 buf)"
  by (auto simp: serialize_header_def memcpy_to_def sizeof_header_def Let_def)

text \<open>
  The common part of the four writers: a header and a body that fit the buffer overwrite its
  prefix and leave the rest.
\<close>

lemma memcpy_after_header:
  "8 + length body \<le> length buf \<Longrightarrow>
   memcpy_to (header_bytes h @ drop 8 buf) 8 body = Inr (header_bytes h @ body @ drop (8 + length body) buf)"
  by (simp add: memcpy_to_def add.commute)

lemma write_ready_msg_ok:
  assumes "12 \<le> length buf"
  shows "write_ready_msg buf 12 ident =
    Inr (12, header_bytes \<lparr>hdr_Type = READY, hdr_Len = 12, hdr_SocketId = 0\<rparr> @ to_le 4 ident @ drop 12 buf)"
  using assms
  by (simp add: write_ready_msg_def serialize_header_ok memcpy_after_header sizeof_header_def
      Let_def del: to_le.simps)

lemma write_release_msg_ok:
  assumes "12 \<le> length buf"
  shows "write_release_msg buf 12 ident =
    Inr (12, header_bytes \<lparr>hdr_Type = RELEASE, hdr_Len = 12, hdr_SocketId = 0\<rparr> @ to_le 4 ident @ drop 12 buf)"
  using assms
  by (simp add: write_release_msg_def serialize_header_ok memcpy_after_header sizeof_header_def
      Let_def del: to_le.simps)

lemma write_create_msg_ok:
  assumes "96 \<le> length buf" and "length (cr_congAlg cr) = 64"
  shows "write_create_msg buf 96 sid cr =
    Inr (96, header_bytes \<lparr>hdr_Type = CREATE, hdr_Len = 96, hdr_SocketId = sid\<rparr> @ create_bytes cr @ drop 96 buf)"
proof -
  have len: "length (create_bytes cr) = 88"
    using assms(2) by (rule create_codec.enc_len)
  then have "memcpy_from (create_bytes cr) 0 88 = Inr (create_bytes cr)"
    by (simp add: memcpy_from_def)
  with assms(1) len show ?thesis
    by (simp add: write_create_msg_def serialize_header_ok memcpy_after_header sizeof_header_def Let_def)
qed

text \<open>The length field of a measurement message does not wrap: at most 255 fields of 8 bytes.\<close>

lemma measure_msg_len:
  "unat (word_of_nat (sizeof_header + 8 + unat (n :: u8) * 8) :: u16) = 16 + unat n * 8"
proof -
  have "unat n < 256" using unsigned_less [of n] by simp
  then have "16 + unat n * 8 < 2 ^ LENGTH(16)" by simp
  from unat_word_of_nat_small [OF this] show ?thesis by (simp add: sizeof_header_def)
qed

lemma length_concat_le8 [simp]: "length (concat (map (to_le 8) (fs :: u64 list))) = length fs * 8"
  by (simp add: u64_codec.length_encs list_all_iff del: to_le.simps)

lemma write_measure_msg_ok:
  assumes "unat n \<le> 110" and "unat n \<le> length fs" and "900 \<le> length buf"
  shows "write_measure_msg buf 900 sid uid (Some fs) n =
    Inr (16 + int (unat n) * 8,
      header_bytes \<lparr>hdr_Type = MEASURE, hdr_Len = word_of_nat (16 + unat n * 8), hdr_SocketId = sid\<rparr> @
      to_le 4 uid @ to_le 4 (ucast n :: u32) @ concat (map (to_le 8) (take (unat n) fs)) @
      drop (16 + unat n * 8) buf)"
    (is "_ = Inr (_, header_bytes ?h @ _)")
proof -
  let ?ms = "\<lparr>ms_program_uid = uid, ms_num_fields = ucast n,
      ms_fields = take (unat n) fs @ drop (unat n) (replicate MAX_REPORT_REG 0)\<rparr>"
  let ?body = "to_le 4 uid @ to_le 4 (ucast n :: u32) @ concat (map (to_le 8) (take (unat n) fs))"
  have ms: "measure_struct uid n (Some fs) = Inr ?ms"
    using assms by (simp add: measure_struct_def MAX_REPORT_REG_def Let_def)
  have len: "unat (hdr_Len ?h) = 16 + unat n * 8"
    using measure_msg_len [of n] by (simp add: sizeof_header_def)
  have img: "measure_bytes ?ms = ?body @ concat (map (to_le 8) (drop (unat n) (replicate MAX_REPORT_REG (0 :: u64))))"
    by (simp add: measure_bytes_def)
  have body_len: "length ?body = 8 + unat n * 8"
    using assms(2) by simp
  have copy: "memcpy_from (measure_bytes ?ms) 0 (8 + unat n * 8) = Inr ?body"
    unfolding memcpy_from_def img using body_len by simp
  have small: "\<not> (word_of_int 900 :: u32) < ucast (hdr_Len ?h)"
    using len assms(1) by (simp add: word_less_nat_alt unat_ucast_up)
  have hdr: "serialize_header buf 900 ?h = Inr (8, header_bytes ?h @ drop 8 buf)"
    using assms(3) by (simp add: serialize_header_ok)
  have put: "memcpy_to (header_bytes ?h @ drop 8 buf) 8 ?body =
      Inr (header_bytes ?h @ ?body @ drop (8 + length ?body) buf)"
    using assms(1,3) body_len by (intro memcpy_after_header) simp
  have h: "\<lparr>hdr_Type = MEASURE, hdr_Len = word_of_nat (sizeof_header + 8 + unat n * 8),
      hdr_SocketId = sid\<rparr> = ?h"
    by (simp add: sizeof_header_def)
  show ?thesis
    unfolding write_measure_msg_def Let_def h ms
    using small hdr len copy put body_len by (simp add: sizeof_header_def)
qed

lemma write_measure_msg_too_many:
  "110 < unat n \<Longrightarrow> write_measure_msg buf bufsize sid uid (Some fs) n = Inl Out_Of_Bounds"
  by (simp add: write_measure_msg_def measure_struct_def MAX_REPORT_REG_def Let_def)

end
