(* ===== verification/User_Agent.thy ===== *)
theory User_Agent
  imports Serialize
begin

text \<open>
  The user-space side of the wire format: the message classes of python/src/message.py that the
  kernel's messages are read with and its commands are written with, and the packets
  python/src/msg_sender.py sends. \<open>struct.pack\<close> and \<open>struct.unpack\<close> with \<open><\<close> and \<open>=\<close> on
  a little-endian host are the memory images of theory \<open>Wire\<close>.
\<close>

definition NL_UPDATE_FIELDS :: u16 where [c_consts]: "NL_UPDATE_FIELDS = 3"
definition NL_MEASURE :: u16 where [c_consts]: "NL_MEASURE = 1"
definition PY_VOLATILE_CONTROL_REG :: u8 where [c_consts]: "PY_VOLATILE_CONTROL_REG = 8"

section \<open>Writing commands\<close>

definition SpineMsgHeader_serialize :: "SpineMsgHeader \<Rightarrow> u8 list" where
  "SpineMsgHeader_serialize h =
     to_le 2 (hdr_Type h) @ to_le 2 (hdr_Len h) @ to_le 4 (hdr_SocketId h)"

definition UpdateField_serialize :: "UpdateField \<Rightarrow> u8 list" where
  "UpdateField_serialize f =
     to_le 1 (uf_reg_type f) @ to_le 4 (uf_reg_index f) @ to_le 8 (uf_new_value f)"

definition UpdateMsg_serialize :: "UpdateField list \<Rightarrow> u8 list" where
  "UpdateMsg_serialize flds =
     to_le 4 (word_of_nat (length flds) :: u32) @ concat (map UpdateField_serialize flds)"

definition MeasureRequestMsg_serialize :: "u32 \<Rightarrow> u8 list" where
  "MeasureRequestMsg_serialize request_id = to_le 4 request_id"

text \<open>The packet of a control message: header with the total length, then the update.\<close>

definition update_packet :: "u32 \<Rightarrow> UpdateField list \<Rightarrow> u8 list" where
  "update_packet sock_id flds =
     (let update_msg = UpdateMsg_serialize flds in
      SpineMsgHeader_serialize \<lparr>hdr_Type = NL_UPDATE_FIELDS,
        hdr_Len = word_of_nat (length update_msg + 8), hdr_SocketId = sock_id\<rparr> @ update_msg)"

definition measure_packet :: "u32 \<Rightarrow> u32 \<Rightarrow> u8 list" where
  "measure_packet sock_id request_id =
     (let msg_raw = MeasureRequestMsg_serialize request_id in
      SpineMsgHeader_serialize \<lparr>hdr_Type = NL_MEASURE,
        hdr_Len = word_of_nat (length msg_raw + 8), hdr_SocketId = sock_id\<rparr> @ msg_raw)"

text \<open>A control register update, as \<open>UpdateField().create(VOLATILE_CONTROL_REG, reg, value)\<close>.\<close>

definition control_field :: "u32 \<Rightarrow> u64 \<Rightarrow> UpdateField" where
  "control_field reg val =
     \<lparr>uf_reg_type = PY_VOLATILE_CONTROL_REG, uf_reg_index = reg, uf_new_value = val\<rparr>"

section \<open>Reading reports\<close>

text \<open>\<open>None\<close> is the \<open>return None\<close> of a short buffer.\<close>

definition SpineMsgHeader_from_raw :: "u8 list \<Rightarrow> SpineMsgHeader option" where
  "SpineMsgHeader_from_raw buf =
     (if length buf < 8 then None
      else Some \<lparr>hdr_Type = of_le (take 2 buf), hdr_Len = of_le (take 2 (drop 2 buf)),
                 hdr_SocketId = of_le (take 4 (drop 4 buf))\<rparr>)"

text \<open>
  \<open>MeasureMsg.from_raw\<close>: \<open>None\<close> is the \<open>return False\<close> of a short or incomplete message;
  otherwise the request id, the field count and the data.
\<close>

definition MeasureMsg_from_raw :: "u8 list \<Rightarrow> (u32 \<times> u32 \<times> u64 list) option" where
  "MeasureMsg_from_raw buf =
     (if length buf < 8 then None
      else let request_id = of_le (take 4 buf); field_num = of_le (take 4 (drop 4 buf)) :: u32 in
        if length buf < 8 + unat field_num * 8 then None
        else Some (request_id, field_num,
          map (\<lambda>i. of_le (take 8 (drop (8 + i * 8) buf))) [0..<unat field_num]))"

section \<open>Lemmas\<close>

lemma header_same_image: "SpineMsgHeader_serialize h = header_bytes h"
  by (simp add: SpineMsgHeader_serialize_def header_bytes_def)

lemma field_same_image: "UpdateField_serialize = update_field_bytes"
  by (rule ext) (simp add: UpdateField_serialize_def update_field_bytes_def)

lemma length_update_fields [simp]: "length (concat (map update_field_bytes fs)) = length fs * 13"
  by (simp add: update_codec.length_encs list_all_iff)

lemma update_packet_eq:
  "update_packet sid fs = header_bytes \<lparr>hdr_Type = UPDATE_FIELDS,
      hdr_Len = word_of_nat (12 + length fs * 13), hdr_SocketId = sid\<rparr> @
    to_le 4 (word_of_nat (length fs) :: u32) @ concat (map update_field_bytes fs)"
  by (simp add: update_packet_def UpdateMsg_serialize_def header_same_image field_same_image
      NL_UPDATE_FIELDS_def UPDATE_FIELDS_def Let_def add.commute)

lemma to_le4_first:
  "to_le 4 (w :: u32) = ucast w # to_le 3 (drop_bit 8 w)"
  by (simp add: numeral_eq_Suc)

text \<open>A report the kernel writes is read back by the controller.\<close>

lemma from_raw_measure:
  assumes "length fs \<le> 110"
  shows "MeasureMsg_from_raw (to_le 4 uid @ to_le 4 (word_of_nat (length fs) :: u32) @
      concat (map (to_le 8) fs) @ rest) = Some (uid, word_of_nat (length fs), fs)"
proof -
  let ?body = "concat (map (to_le 8) fs) @ rest"
  let ?buf = "to_le 4 uid @ to_le 4 (word_of_nat (length fs) :: u32) @ ?body"
  have n: "unat (word_of_nat (length fs) :: u32) = length fs"
    using assms by (intro unat_word_of_nat_small) simp
  have "of_le (take 8 (drop (8 + i * 8) ?buf)) = fs ! i" if "i < length fs" for i
  proof -
    have "drop (8 + i * 8) ?buf = drop (i * 8) ?body" by simp
    then show ?thesis using that u64_codec.element_at [of fs i rest] by (simp add: list_all_iff)
  qed
  then have "map (\<lambda>i. of_le (take 8 (drop (8 + i * 8) ?buf))) [0..<length fs] = fs"
    by (intro nth_equalityI) simp_all
  then show ?thesis
    using n by (simp add: MeasureMsg_from_raw_def Let_def of_le_to_le)
qed

lemma from_raw_header: "SpineMsgHeader_from_raw (header_bytes h @ rest) = Some h"
  using header_codec.dec_prefix [of h rest]
  by (simp add: SpineMsgHeader_from_raw_def header_of_bytes_def header_bytes_def of_le_to_le
      del: to_le.simps)

text \<open>The sign extension of a byte, and the unsigned value a negative one becomes.\<close>

lemma sint_u8: "sint (b :: u8) = (if 128 \<le> unat b then int (unat b) - 256 else int (unat b))"
proof -
  define n where "n = int (unat b)"
  have n: "0 \<le> n" "n < 256" using unsigned_less [of b] by (simp_all add: n_def)
  have s: "sint b = (n + 128) mod 256 - 128"
    by (simp add: n_def sint_uint signed_take_bit_eq_take_bit_shift take_bit_eq_mod)
  have "(n + 128) mod 256 = (if 128 \<le> n then n - 128 else n + 128)"
  proof (cases "128 \<le> n")
    case True
    have "(n + 128) mod 256 = (n - 128) mod 256"
      using mod_add_self2 [of "n - 128" 256] by (simp add: add.commute)
    also have "\<dots> = n - 128" using True n by (simp add: mod_pos_pos_trivial)
    finally show ?thesis using True by simp
  qed (use n in \<open>simp add: mod_pos_pos_trivial\<close>)
  then have "sint b = (if 128 \<le> n then n - 256 else n)" using s by (simp split: if_splits)
  moreover have "128 \<le> n \<longleftrightarrow> 128 \<le> unat b" unfolding n_def by linarith
  ultimately show ?thesis by (simp only: n_def)
qed

lemma ucast_of_byte: "(ucast (b :: u8) :: u32) = word_of_nat (unat b)"
proof -
  have "unat (word_of_nat (unat b) :: u32) = unat b"
    by (rule unat_word_of_nat_small [OF order_less_trans [OF unsigned_less]]) simp
  then show ?thesis by (simp only: word_unat_eq_iff) (simp add: unat_ucast_up)
qed

lemma char_to_u32_signed:
  "char_to_u32 True (b :: u8) = (if 128 \<le> unat b then word_of_nat (unat b) - 256 else word_of_nat (unat b))"
proof (cases "128 \<le> unat b")
  case True
  then have "scast b = (word_of_int (int (unat b) - 256) :: u32)"
    by (simp only: scast_eq sint_u8 if_True)
  also have "\<dots> = word_of_nat (unat b) - 256"
    by (simp only: of_int_diff of_int_of_nat_eq of_int_numeral)
  finally show ?thesis using True by (simp only: char_to_u32_def if_True)
next
  case False
  then have "b < 128" by (simp add: word_less_nat_alt)
  then show ?thesis using False by (simp only: char_to_u32_small ucast_of_byte if_False)
qed

lemma unat_sub_256: "n < 256 \<Longrightarrow> unat (word_of_nat n - 256 :: u32) = 2 ^ 32 - 256 + n"
proof -
  assume n: "n < 256"
  then have u: "unat (word_of_nat n :: u32) = n" by (intro unat_word_of_nat_small) simp
  have k: "unat (256 :: u32) = 256" by simp
  have "\<not> (256 :: u32) \<le> word_of_nat n" using n u k by (simp only: word_le_nat_alt)
  then show ?thesis using u k n by (simp only: unat_sub_if' if_False) simp
qed

section \<open>Properties of the wire format\<close>


definition demo_create :: CreateMsg where
  "demo_create = \<lparr>cr_init_cwnd = 14480, cr_mss = 1448, cr_src_ip = 1, cr_src_port = 2,
     cr_dst_ip = 3, cr_dst_port = 4, cr_congAlg = replicate 64 110\<rparr>"


text \<open>C21: A report of at most 110 fields that the kernel writes into its 900-byte buffer is
  read back by the controller: the header names the connection and the true length, and
  MeasureMsg.from_raw returns the request id, the field count and the values in order.\<close>

theorem measure_report_roundtrip:
  assumes "length fs \<le> MAX_REPORT_REG" and "length buf = REPORT_MSG_SIZE"
  shows "\<exists>msg n. write_measure_msg buf (int REPORT_MSG_SIZE) sid uid (Some fs) (word_of_nat (length fs)) =
      Inr (int n, msg) \<and> n = 16 + 8 * length fs \<and>
    SpineMsgHeader_from_raw msg = Some \<lparr>hdr_Type = MEASURE, hdr_Len = word_of_nat n, hdr_SocketId = sid\<rparr> \<and>
    MeasureMsg_from_raw (drop 8 msg) = Some (uid, word_of_nat (length fs), fs)"
proof -
  let ?n = "word_of_nat (length fs) :: u8"
  let ?h = "\<lparr>hdr_Type = MEASURE, hdr_Len = word_of_nat (16 + unat ?n * 8), hdr_SocketId = sid\<rparr>"
  have small: "length fs \<le> 110" using assms(1) by (simp add: MAX_REPORT_REG_def)
  then have n: "unat ?n = length fs" by (intro unat_word_of_nat_small) simp
  have w: "(ucast ?n :: u32) = word_of_nat (length fs)"
    using n small by (simp add: word_unat_eq_iff unat_ucast_up unat_word_of_nat_small)
  let ?tail = "to_le 4 uid @ to_le 4 (word_of_nat (length fs) :: u32) @ concat (map (to_le 8) fs)"
  have "write_measure_msg buf 900 sid uid (Some fs) ?n =
      Inr (16 + int (length fs) * 8, header_bytes ?h @ ?tail @ drop (16 + length fs * 8) buf)"
    using write_measure_msg_ok [of ?n fs buf sid uid] assms(2) small n w
    by (simp add: REPORT_MSG_SIZE_def)
  then show ?thesis
    using from_raw_header [of ?h "?tail @ drop (16 + length fs * 8) buf"]
      from_raw_measure [OF small, of uid "drop (16 + length fs * 8) buf"] n
    by (simp add: REPORT_MSG_SIZE_def mult.commute del: to_le.simps)
qed

theorem measure_report_roundtrip_witness:
  "\<exists>msg n. write_measure_msg (replicate 900 0) (int REPORT_MSG_SIZE) 3 9 (Some [10, 20])
        (word_of_nat (length [10, 20 :: u64])) = Inr (int n, msg) \<and> n = 16 + 8 * length [10, 20 :: u64] \<and>
    SpineMsgHeader_from_raw msg = Some \<lparr>hdr_Type = MEASURE, hdr_Len = word_of_nat n, hdr_SocketId = 3\<rparr> \<and>
    MeasureMsg_from_raw (drop 8 msg) = Some (9, word_of_nat (length [10, 20 :: u64]), [10, 20])"
  by (rule measure_report_roundtrip) (simp_all add: c_consts)

text \<open>The kernel reads the 32-bit update count of a controller's packet from its first byte.
  So a packet of n updates is read as n mod 256 updates where plain char is unsigned, and
  rejected when that residue exceeds 222; where char is signed a residue from 128 on is
  rejected too, and every count that is accepted is the residue.\<close>

theorem update_count_is_one_byte:
  "check_update_fields_msg char_signed
      \<lparr>hdr_Type = UPDATE_FIELDS, hdr_Len = l, hdr_SocketId = sid\<rparr> n0 (UpdateMsg_serialize fs) =
    (let r = length fs mod 256 in
     if r > (if char_signed then 127 else unat MAX_MUTABLE_REG)
     then Inr (LIBCCP_UPDATE_TOO_MANY,
       if char_signed \<and> 128 \<le> r then word_of_nat r - 256 else word_of_nat r)
     else Inr (4, word_of_nat r))"
proof -
  let ?b = "ucast (word_of_nat (length fs) :: u32) :: u8"
  have r: "unat ?b = length fs mod 256"
    by (simp add: unsigned_ucast_eq unsigned_of_nat take_bit_eq_mod mod_mod_cancel)
  then have u: "char_to_u32 False ?b = word_of_nat (length fs mod 256)"
    by (simp only: char_to_u32_def ucast_of_byte if_False)
  note s = char_to_u32_signed [of ?b, unfolded r]
  have ub: "unat (word_of_nat (length fs mod 256) :: u32) = length fs mod 256"
    by (intro unat_word_of_nat_small) (simp add: order_less_trans [OF mod_less_divisor])
  have neg: "unat (word_of_nat (length fs mod 256) - 256 :: u32) = 2 ^ 32 - 256 + length fs mod 256"
    by (rule unat_sub_256) simp
  show ?thesis
  proof (cases char_signed)
    case False
    then show ?thesis
      using u ub by (simp add: check_update_fields_msg_def UpdateMsg_serialize_def to_le4_first
          Let_def word_less_nat_alt MAX_MUTABLE_REG_def)
  next
    case True
    then show ?thesis
      using s ub neg by (simp add: check_update_fields_msg_def UpdateMsg_serialize_def to_le4_first
          Let_def word_less_nat_alt MAX_MUTABLE_REG_def)
  qed
qed

end
