(* ===== verification/Controller.thy ===== *)
theory Controller
  imports User_Agent
begin

text \<open>
  What the controller makes of the messages that announce and release a connection
  (CreateMsg.from_raw of message.py, read_netlink_message of spine.py): ports and addresses arrive
  intact, the maximum segment size and the initial window do not, and a release names connection 0.
\<close>

section \<open>Reading the create message\<close>

definition NL_RELEASE :: u16 where [c_consts]: "NL_RELEASE = 9"

text \<open>\<open>u32_from_bytes\<close>: the two bytes of each half are exchanged.\<close>

definition u32_from_bytes :: "u8 list \<Rightarrow> u32" where
  "u32_from_bytes bytes =
     (let tmp = of_le bytes; b1 = tmp AND 0xFF000000; b2 = tmp AND 0x00FF0000;
          b3 = tmp AND 0x0000FF00; b4 = tmp AND 0x000000FF in
      drop_bit 8 b1 + push_bit 8 b2 + drop_bit 8 b3 + push_bit 8 b4)"

text \<open>\<open>struct.unpack("!I", bytes)\<close>.\<close>

definition unpack_net :: "u8 list \<Rightarrow> u32" where
  "unpack_net bytes = of_le (rev bytes)"

text \<open>
  \<open>None\<close> is the exception of \<open>struct.unpack\<close> on a short slice; a message shorter than 88 bytes is
  only logged. The name is left as bytes.
\<close>

definition CreateMsg_from_raw :: "u8 list \<Rightarrow> CreateMsg option" where
  "CreateMsg_from_raw buf =
     (if length buf < 24 then None
      else Some \<lparr>cr_init_cwnd = u32_from_bytes (take 4 buf), cr_mss = u32_from_bytes (take 4 (drop 4 buf)),
        cr_src_ip = unpack_net (take 4 (drop 8 buf)), cr_src_port = u32_from_bytes (take 4 (drop 12 buf)),
        cr_dst_ip = unpack_net (take 4 (drop 16 buf)), cr_dst_port = u32_from_bytes (take 4 (drop 20 buf)),
        cr_congAlg = drop 24 buf\<rparr>)"

text \<open>The connection whose cached items read_netlink_message removes.\<close>

definition released_sock_id :: "u8 list \<Rightarrow> u32 option" where
  "released_sock_id hdr_raw = (case SpineMsgHeader_from_raw hdr_raw of
     None \<Rightarrow> None
   | Some hdr \<Rightarrow> if hdr_Type hdr = NL_RELEASE then Some (hdr_SocketId hdr) else None)"

section \<open>Lemmas\<close>

text \<open>Network order, as the kernel stores ports and addresses.\<close>

definition net16 :: "u16 \<Rightarrow> u32" where
  "net16 p = ucast (of_le (rev (to_le 2 p)) :: u16)"

definition net32 :: "u32 \<Rightarrow> u32" where
  "net32 x = of_le (rev (to_le 4 x))"

text \<open>The four masks select disjoint bytes, so the sum is a bitwise disjunction.\<close>

lemma u32_from_bytes_bits:
  fixes x :: u32
  shows "bit (u32_from_bytes (to_le 4 x)) n \<longleftrightarrow>
     (16 \<le> n \<and> n < 24 \<and> bit x (n + 8)) \<or> (24 \<le> n \<and> n < 32 \<and> bit x (n - 8)) \<or>
     (n < 8 \<and> bit x (n + 8)) \<or> (8 \<le> n \<and> n < 16 \<and> bit x (n - 8))"
proof -
  have x: "(of_le (to_le 4 x) :: u32) = x" by (simp add: of_le_to_le del: to_le.simps)
  have masks: "(0xFF000000 :: u32) = push_bit 24 (mask 8)" "(0x00FF0000 :: u32) = push_bit 16 (mask 8)"
    "(0x0000FF00 :: u32) = push_bit 8 (mask 8)" "(0x000000FF :: u32) = mask 8"
    by (simp_all add: mask_eq_exp_minus_1 push_bit_eq_mult)
  define a b c d where "a = drop_bit 8 (x AND push_bit 24 (mask 8))" and "b = push_bit 8 (x AND push_bit 16 (mask 8))"
    and "c = drop_bit 8 (x AND push_bit 8 (mask 8))" and "d = push_bit 8 (x AND mask 8)"
  have bits: "bit a n \<longleftrightarrow> 16 \<le> n \<and> n < 24 \<and> bit x (n + 8)" "bit b n \<longleftrightarrow> 24 \<le> n \<and> n < 32 \<and> bit x (n - 8)"
    "bit c n \<longleftrightarrow> n < 8 \<and> bit x (n + 8)" "bit d n \<longleftrightarrow> 8 \<le> n \<and> n < 16 \<and> bit x (n - 8)" for n
    by (auto simp: a_def b_def c_def d_def bit_simps add.commute)
  have "a AND b = 0" "(a OR b) AND c = 0" "((a OR b) OR c) AND d = 0"
    by (rule bit_eqI; auto simp: bit_and_iff bit_or_iff bits)+
  then have "a + b + c + d = a OR b OR c OR d"
    by (simp add: disjunctive_add_eq_or or.assoc)
  then show ?thesis
    unfolding u32_from_bytes_def Let_def x masks a_def [symmetric] b_def [symmetric] c_def [symmetric] d_def [symmetric]
    by (auto simp: bit_or_iff bits)
qed

lemma net16_bits:
  "bit (net16 p) n \<longleftrightarrow> (n < 8 \<and> bit p (n + 8)) \<or> (8 \<le> n \<and> n < 16 \<and> bit p (n - 8))"
proof -
  have "rev (to_le 2 p) = [ucast (drop_bit 8 p), ucast p]" by (simp add: numeral_2_eq_2)
  then show ?thesis by (auto simp: net16_def bit_simps add.commute)
qed

text \<open>A 16-bit value in a 32-bit field arrives with its two bytes exchanged.\<close>

lemma u32_from_bytes_short:
  assumes "unat x < 65536"
  shows "u32_from_bytes (to_le 4 (x :: u32)) = net16 (ucast x)"
proof (rule bit_word_eqI)
  fix n assume n: "n < LENGTH(32)"
  have "x = take_bit 16 x"
    using assms by (simp add: word_unat_eq_iff unat_mod take_bit_eq_mod)
  then have high: "\<not> bit x k" if "16 \<le> k" for k using that by (metis bit_take_bit_iff not_less)
  have "24 \<le> n \<Longrightarrow> \<not> bit x (n - 8)" "8 \<le> n \<Longrightarrow> \<not> bit x (n + 8)"
    by (rule high, linarith)+
  then show "bit (u32_from_bytes (to_le 4 x)) n = bit (net16 (ucast x)) n"
    using n
    by (auto simp: u32_from_bytes_bits net16_bits bit_ucast_iff)
qed

lemma u32_from_bytes_net16: "u32_from_bytes (to_le 4 (net16 p)) = ucast p"
proof (rule bit_word_eqI)
  fix n assume "n < LENGTH(32)"
  then show "bit (u32_from_bytes (to_le 4 (net16 p))) n = bit (ucast p :: u32) n"
    by (auto simp: u32_from_bytes_bits net16_bits bit_ucast_iff dest: bit_imp_le_length)
qed

lemma unpack_net32: "unpack_net (to_le 4 (net32 x)) = x"
proof -
  have "to_le (length (rev (to_le 4 x))) (of_le (rev (to_le 4 x)) :: u32) = rev (to_le 4 x)"
    by (rule to_le_of_le) simp
  then have "to_le 4 (net32 x) = rev (to_le 4 x)" by (simp add: net32_def del: to_le.simps)
  then show ?thesis by (simp add: unpack_net_def of_le_to_le del: to_le.simps)
qed

lemma from_raw_create:
  "CreateMsg_from_raw (create_bytes cr) = Some \<lparr>cr_init_cwnd = u32_from_bytes (to_le 4 (cr_init_cwnd cr)),
     cr_mss = u32_from_bytes (to_le 4 (cr_mss cr)), cr_src_ip = unpack_net (to_le 4 (cr_src_ip cr)),
     cr_src_port = u32_from_bytes (to_le 4 (cr_src_port cr)), cr_dst_ip = unpack_net (to_le 4 (cr_dst_ip cr)),
     cr_dst_port = u32_from_bytes (to_le 4 (cr_dst_port cr)), cr_congAlg = cr_congAlg cr\<rparr>"
  by (simp add: CreateMsg_from_raw_def create_bytes_def del: to_le.simps)

section \<open>Properties\<close>


definition demo_announce :: CreateMsg where
  "demo_announce = \<lparr>cr_init_cwnd = 14480, cr_mss = 1448, cr_src_ip = net32 0x0A000001,
     cr_src_port = net16 443, cr_dst_ip = net32 0x0A000002, cr_dst_port = net16 5001,
     cr_congAlg = replicate 64 110\<rparr>"


text \<open>C33: A release tells the controller nothing: whichever connection is closed, the header of the release
  message carries connection number 0, and that is the number whose cached items the controller
  removes; the true number is only in the four bytes behind the header, which it does not read.\<close>

theorem release_names_connection_zero:
  assumes "12 \<le> length buf"
  shows "\<exists>msg rest. write_release_msg buf (int RELEASE_MSG_SIZE) sid = Inr (12, msg @ rest) \<and> length msg = 12 \<and>
    released_sock_id msg = Some 0 \<and> of_le (drop 8 msg) = sid"
proof -
  let ?h = "\<lparr>hdr_Type = RELEASE, hdr_Len = 12, hdr_SocketId = 0\<rparr>"
  have "released_sock_id (header_bytes ?h @ to_le 4 sid) = Some 0"
    by (simp add: released_sock_id_def from_raw_header c_consts del: to_le.simps)
  then show ?thesis
    using write_release_msg_ok [OF assms, of sid]
    by (intro exI [of _ "header_bytes ?h @ to_le 4 sid"] exI [of _ "drop 12 buf"])
      (simp add: RELEASE_MSG_SIZE_def of_le_to_le del: to_le.simps)
qed

theorem release_names_connection_zero_witness:
  "\<exists>msg rest. write_release_msg (replicate 900 0) (int RELEASE_MSG_SIZE) 5 = Inr (12, msg @ rest) \<and>
    length msg = 12 \<and> released_sock_id msg = Some 0 \<and> of_le (drop 8 msg) = (5 :: u32)"
  by (rule release_names_connection_zero) simp

end
