(* ===== verification/Flow_Map.thy ===== *)
theory Flow_Map
  imports Controller
begin

text \<open>
  spine_flow.py: the controller's tables. An environment (a client process) registers flows by
  destination port, the kernel announces connections; a connection and a flow with the same port
  are associated. A Python dict is a map; an environment's tables live under the hash of its name,
  and Python's \<open>hash\<close> is an argument. The fields that are only written or never used
  (\<open>flow_id_to_dst_port\<close>, \<open>env_id\<close> and \<open>h_id\<close> of EnvFlows) are left out.
\<close>

section \<open>Flows of one environment\<close>

record kflow =
  kf_sock_id :: u32
  kf_init_cwnd :: u32
  kf_mss :: u32
  kf_src_ip :: u32
  kf_src_port :: u32
  kf_dst_ip :: u32
  kf_dst_port :: u32
  kf_congAlg :: "u8 list"

definition from_create_msg :: "CreateMsg \<Rightarrow> SpineMsgHeader \<Rightarrow> kflow" where
  "from_create_msg msg hdr = \<lparr>kf_sock_id = hdr_SocketId hdr, kf_init_cwnd = cr_init_cwnd msg, kf_mss = cr_mss msg,
     kf_src_ip = cr_src_ip msg, kf_src_port = cr_src_port msg, kf_dst_ip = cr_dst_ip msg,
     kf_dst_port = cr_dst_port msg, kf_congAlg = cr_congAlg msg\<rparr>"

text \<open>A port is a Python integer; the one of a flow was read from four bytes.\<close>

definition kf_port :: "kflow \<Rightarrow> int" where
  "kf_port flow = uint (kf_dst_port flow)"

record active_flow_map =
  kernel_flows :: "u32 \<rightharpoonup> kflow"
  flow_id_to_sock_id :: "int \<rightharpoonup> u32"
  dst_port_to_flow_id :: "int \<rightharpoonup> int"

definition ActiveFlowMap :: active_flow_map where
  "ActiveFlowMap = \<lparr>kernel_flows = Map.empty, flow_id_to_sock_id = Map.empty, dst_port_to_flow_id = Map.empty\<rparr>"

definition try_associate :: "kflow \<Rightarrow> active_flow_map \<Rightarrow> active_flow_map" where
  "try_associate flow m = (case dst_port_to_flow_id m (kf_port flow) of
     None \<Rightarrow> m
   | Some flow_id \<Rightarrow>
       if flow_id_to_sock_id m flow_id = None
       then m\<lparr>flow_id_to_sock_id := (flow_id_to_sock_id m)(flow_id \<mapsto> kf_sock_id flow)\<rparr> else m)"

definition add_flow_with_sockId :: "kflow \<Rightarrow> active_flow_map \<Rightarrow> bool \<times> active_flow_map" where
  "add_flow_with_sockId flow m =
     (if kernel_flows m (kf_sock_id flow) = None
      then (True, try_associate flow (m\<lparr>kernel_flows := (kernel_flows m)(kf_sock_id flow \<mapsto> flow)\<rparr>))
      else (False, m))"

definition add_flow_with_dst_port :: "int \<Rightarrow> int \<Rightarrow> active_flow_map \<Rightarrow> active_flow_map" where
  "add_flow_with_dst_port port flow_id m =
     (if dst_port_to_flow_id m port = None
      then m\<lparr>dst_port_to_flow_id := (dst_port_to_flow_id m)(port \<mapsto> flow_id)\<rparr> else m)"

definition get_sockId_by_flowId :: "int \<Rightarrow> active_flow_map \<Rightarrow> u32 option" where
  "get_sockId_by_flowId flow_id m = flow_id_to_sock_id m flow_id"

definition get_flowId_by_port :: "int \<Rightarrow> active_flow_map \<Rightarrow> int option" where
  "get_flowId_by_port port m = dst_port_to_flow_id m port"

definition remove_flow_by_sockId :: "u32 \<Rightarrow> active_flow_map \<Rightarrow> int option \<times> active_flow_map" where
  "remove_flow_by_sockId sock_id m = (case kernel_flows m sock_id of
     None \<Rightarrow> (None, m)
   | Some flow \<Rightarrow> (Some (kf_port flow), m\<lparr>
       dst_port_to_flow_id := (dst_port_to_flow_id m)(kf_port flow := None),
       kernel_flows := (kernel_flows m)(sock_id := None)\<rparr>))"

definition remove_flow_by_flowId :: "int \<Rightarrow> active_flow_map \<Rightarrow> int option \<times> active_flow_map" where
  "remove_flow_by_flowId flow_id m = (case flow_id_to_sock_id m flow_id of
     None \<Rightarrow> (None, m)
   | Some sock_id \<Rightarrow> remove_flow_by_sockId sock_id
       (m\<lparr>flow_id_to_sock_id := (flow_id_to_sock_id m)(flow_id := None)\<rparr>))"

definition remove_all_env_flows :: "active_flow_map \<Rightarrow> active_flow_map" where
  "remove_all_env_flows m = m\<lparr>flow_id_to_sock_id := Map.empty\<rparr>"

section \<open>All environments\<close>

record env_flows =
  flows_per_env :: "int \<rightharpoonup> active_flow_map"
  dst_port_to_env_id :: "int \<rightharpoonup> string"
  sock_id_to_env_id :: "u32 \<rightharpoonup> string"

definition EnvFlows :: env_flows where
  "EnvFlows = \<lparr>flows_per_env = Map.empty, dst_port_to_env_id = Map.empty, sock_id_to_env_id = Map.empty\<rparr>"

definition register_env :: "(string \<Rightarrow> int) \<Rightarrow> string \<Rightarrow> env_flows \<Rightarrow> env_flows" where
  "register_env hash env_id ef = ef\<lparr>flows_per_env := (flows_per_env ef)(hash env_id \<mapsto> ActiveFlowMap)\<rparr>"

definition get_env_flows :: "(string \<Rightarrow> int) \<Rightarrow> string \<Rightarrow> env_flows \<Rightarrow> active_flow_map option" where
  "get_env_flows hash env_id ef = flows_per_env ef (hash env_id)"

text \<open>The object \<open>get_env_flows\<close> returned is changed in place.\<close>

definition set_env_flows :: "(string \<Rightarrow> int) \<Rightarrow> string \<Rightarrow> active_flow_map \<Rightarrow> env_flows \<Rightarrow> env_flows" where
  "set_env_flows hash env_id m ef = ef\<lparr>flows_per_env := (flows_per_env ef)(hash env_id \<mapsto> m)\<rparr>"

definition without_env :: "string \<Rightarrow> ('k \<rightharpoonup> string) \<Rightarrow> 'k \<rightharpoonup> string" where
  "without_env env_id d = (\<lambda>key. case d key of None \<Rightarrow> None | Some val \<Rightarrow> if val \<noteq> env_id then Some val else None)"

definition release_env :: "(string \<Rightarrow> int) \<Rightarrow> string \<Rightarrow> env_flows \<Rightarrow> env_flows" where
  "release_env hash env_id ef = \<lparr>flows_per_env = (flows_per_env ef)(hash env_id := None),
     dst_port_to_env_id = without_env env_id (dst_port_to_env_id ef),
     sock_id_to_env_id = without_env env_id (sock_id_to_env_id ef)\<rparr>"

definition bind_port_to_env :: "int \<Rightarrow> string \<Rightarrow> env_flows \<Rightarrow> env_flows" where
  "bind_port_to_env port env_id ef =
     (if dst_port_to_env_id ef port = None
      then ef\<lparr>dst_port_to_env_id := (dst_port_to_env_id ef)(port \<mapsto> env_id)\<rparr> else ef)"

definition bind_sock_id_to_env :: "u32 \<Rightarrow> string \<Rightarrow> env_flows \<Rightarrow> env_flows" where
  "bind_sock_id_to_env sock_id env_id ef =
     (if sock_id_to_env_id ef sock_id = None
      then ef\<lparr>sock_id_to_env_id := (sock_id_to_env_id ef)(sock_id \<mapsto> env_id)\<rparr> else ef)"

text \<open>Called with the port of the removed flow, or None when there was none.\<close>

definition release_port_to_env :: "int option \<Rightarrow> env_flows \<Rightarrow> env_flows" where
  "release_port_to_env port ef = (case port of
     None \<Rightarrow> ef
   | Some p \<Rightarrow> ef\<lparr>dst_port_to_env_id := (dst_port_to_env_id ef)(p := None)\<rparr>)"

definition release_sock_id_to_env :: "u32 \<Rightarrow> env_flows \<Rightarrow> env_flows" where
  "release_sock_id_to_env sock_id ef = ef\<lparr>sock_id_to_env_id := (sock_id_to_env_id ef)(sock_id := None)\<rparr>"

section \<open>Invariant of an environment's tables\<close>

text \<open>
  A flow is associated with a known connection, whose port is registered for this very flow; so no
  two flows share a connection.
\<close>

definition routes_ok :: "active_flow_map \<Rightarrow> bool" where
  "routes_ok m \<longleftrightarrow> (\<forall>s flow. kernel_flows m s = Some flow \<longrightarrow> kf_sock_id flow = s) \<and>
     (\<forall>f s. flow_id_to_sock_id m f = Some s \<longrightarrow>
       (\<exists>flow. kernel_flows m s = Some flow \<and> dst_port_to_flow_id m (kf_port flow) = Some f))"

lemma routes_okD:
  assumes "routes_ok m" and "flow_id_to_sock_id m f = Some s"
  obtains flow where "kernel_flows m s = Some flow" "kf_sock_id flow = s"
    "dst_port_to_flow_id m (kf_port flow) = Some f"
  using assms unfolding routes_ok_def by blast

lemma routes_ok_injective:
  assumes "routes_ok m" and "flow_id_to_sock_id m f = Some s" and "flow_id_to_sock_id m f' = Some s"
  shows "f' = f"
proof -
  obtain a where "kernel_flows m s = Some a" "dst_port_to_flow_id m (kf_port a) = Some f"
    using assms(1,2) by (rule routes_okD)
  moreover obtain b where "kernel_flows m s = Some b" "dst_port_to_flow_id m (kf_port b) = Some f'"
    using assms(1,3) by (rule routes_okD)
  ultimately show ?thesis by simp
qed

lemma routes_ok_new [simp]: "routes_ok ActiveFlowMap"
  by (simp add: routes_ok_def ActiveFlowMap_def)

lemma routes_ok_remove_all [simp]: "routes_ok m \<Longrightarrow> routes_ok (remove_all_env_flows m)"
  by (simp add: routes_ok_def remove_all_env_flows_def)

lemma routes_ok_associate:
  assumes "routes_ok m" and "kernel_flows m (kf_sock_id flow) = Some flow"
  shows "routes_ok (try_associate flow m)"
proof (cases "\<exists>f. dst_port_to_flow_id m (kf_port flow) = Some f \<and> flow_id_to_sock_id m f = None")
  case True
  then obtain f where f: "dst_port_to_flow_id m (kf_port flow) = Some f" "flow_id_to_sock_id m f = None" by blast
  let ?m = "m\<lparr>flow_id_to_sock_id := (flow_id_to_sock_id m)(f \<mapsto> kf_sock_id flow)\<rparr>"
  have "\<exists>b. kernel_flows m s = Some b \<and> dst_port_to_flow_id m (kf_port b) = Some g"
    if g: "((flow_id_to_sock_id m)(f \<mapsto> kf_sock_id flow)) g = Some s" for g s
  proof (cases "g = f")
    case True
    with g f assms(2) show ?thesis by simp
  next
    case False
    with g have "flow_id_to_sock_id m g = Some s" by simp
    with assms(1) show ?thesis by (rule routes_okD) blast
  qed
  then have "routes_ok ?m" using assms(1) by (simp add: routes_ok_def)
  with f show ?thesis by (simp add: try_associate_def)
next
  case False
  then have "try_associate flow m = m" by (auto simp: try_associate_def split: option.split)
  with assms(1) show ?thesis by simp
qed

lemma routes_ok_add_sock:
  assumes "routes_ok m" shows "routes_ok (snd (add_flow_with_sockId flow m))"
proof (cases "kernel_flows m (kf_sock_id flow)")
  case None
  let ?m = "m\<lparr>kernel_flows := (kernel_flows m)(kf_sock_id flow \<mapsto> flow)\<rparr>"
  have known: "s \<noteq> kf_sock_id flow" if "flow_id_to_sock_id m f = Some s" for f s
    using assms that None by (auto elim: routes_okD)
  have "routes_ok ?m" using assms known by (auto simp: routes_ok_def)
  then have "routes_ok (try_associate flow ?m)" by (rule routes_ok_associate) simp
  with None show ?thesis by (simp add: add_flow_with_sockId_def)
qed (use assms in \<open>simp add: add_flow_with_sockId_def\<close>)

lemma routes_ok_add_port:
  assumes "routes_ok m" shows "routes_ok (add_flow_with_dst_port port f m)"
proof (cases "dst_port_to_flow_id m port")
  case None
  have "\<exists>flow. kernel_flows m s = Some flow \<and> ((dst_port_to_flow_id m)(port \<mapsto> f)) (kf_port flow) = Some g"
    if g: "flow_id_to_sock_id m g = Some s" for g s
  proof -
    obtain flow where "kernel_flows m s = Some flow" "dst_port_to_flow_id m (kf_port flow) = Some g"
      using assms g by (rule routes_okD)
    with None show ?thesis by auto
  qed
  with assms None show ?thesis by (simp add: add_flow_with_dst_port_def routes_ok_def)
qed (use assms in \<open>simp add: add_flow_with_dst_port_def\<close>)

lemma routes_ok_remove:
  assumes "routes_ok m" shows "routes_ok (snd (remove_flow_by_flowId f m))"
proof (cases "flow_id_to_sock_id m f")
  case (Some s)
  from assms Some obtain flow where fl: "kernel_flows m s = Some flow"
    "dst_port_to_flow_id m (kf_port flow) = Some f" by (rule routes_okD)
  have "s' \<noteq> s \<and> (\<exists>b. kernel_flows m s' = Some b \<and> dst_port_to_flow_id m (kf_port b) = Some f' \<and> kf_port b \<noteq> kf_port flow)"
    if f': "flow_id_to_sock_id m f' = Some s'" "f' \<noteq> f" for f' s'
  proof -
    obtain b where b: "kernel_flows m s' = Some b" "dst_port_to_flow_id m (kf_port b) = Some f'"
      using assms f'(1) by (rule routes_okD)
    moreover have "s' \<noteq> s" using routes_ok_injective [OF assms Some, of f'] f' by auto
    ultimately show ?thesis using fl(2) f'(2) by auto
  qed
  with assms Some fl show ?thesis
    by (simp add: remove_flow_by_flowId_def remove_flow_by_sockId_def routes_ok_def) blast
qed (use assms in \<open>simp add: remove_flow_by_flowId_def\<close>)

end
