(* ===== verification/Spine_State.thy ===== *)
theory Spine_State
  imports Serialize
begin

text \<open>
  The state of the datapath library: the structs of spine.h and spine_priv.h. The world the
  callbacks act on is the type parameter \<open>'w\<close>; a callback is a function of it. A pointer to a
  connection is its position in the table, the private state behind a \<open>void *\<close> is NULL, live
  or freed.
\<close>

section \<open>Flow information and connection state\<close>

datatype spine_internal_alg = SPINE_CUBIC | SPINE_VEGAS | SPINE_VANILLA | SPINE_NEO

record spine_datapath_info =
  fi_init_cwnd :: u32
  fi_mss :: u32
  fi_src_ip :: u32
  fi_src_port :: u32
  fi_dst_ip :: u32
  fi_dst_port :: u32
  fi_alg :: spine_internal_alg
  fi_congAlg :: "u8 list"

record staged_update =
  control_is_pending :: "bool list"
  control_registers :: "u64 list"
  measure_is_pending :: bool
  measure_registers :: u64

record spine_priv_state =
  sent_create :: bool
  pending_update :: staged_update

datatype priv_ptr = PNull | PFreed | PLive spine_priv_state

record spine_connection =
  conn_index :: u16
  last_create_msg_sent :: u64
  flow_info :: spine_datapath_info
  conn_state :: priv_ptr
  conn_impl :: nat
  conn_datapath :: bool

text \<open>
  \<open>conn_datapath\<close> says whether the back pointer is set; it then points to the one datapath
  that owns the table.
\<close>

section \<open>The datapath\<close>

type_synonym 'w set_params_fn = "spine_connection \<Rightarrow> u64 list \<Rightarrow> u8 \<Rightarrow> 'w \<Rightarrow> 'w res"
type_synonym 'w fetch_fn =
  "spine_connection \<Rightarrow> u64 list \<Rightarrow> u8 \<Rightarrow> u32 \<Rightarrow> 'w \<Rightarrow> (u64 list \<times> u8 \<times> 'w) res"
type_synonym 'w send_fn = "u8 list \<Rightarrow> int \<Rightarrow> 'w \<Rightarrow> (int \<times> 'w) res"

record 'w spine_datapath =
  dp_set_params :: "'w set_params_fn option"
  dp_fetch_measurements :: "'w fetch_fn option"
  dp_send_msg :: "'w send_fn option"
  dp_time_zero :: u64
  dp_now :: "('w \<Rightarrow> u64 \<times> 'w) option"
  dp_since_usecs :: "(u64 \<Rightarrow> 'w \<Rightarrow> u64 \<times> 'w) option"
  dp_after_usecs :: "(u64 \<Rightarrow> 'w \<Rightarrow> u64 \<times> 'w) option"
  dp_max_connections :: u64
  dp_connections :: "spine_connection list option"
  dp_fto_us :: u64
  dp_last_msg_sent :: u64
  dp_in_fallback :: bool

definition zero_update :: staged_update where
  "zero_update = \<lparr>control_is_pending = replicate MAX_CONTROL_REG False,
     control_registers = replicate MAX_CONTROL_REG 0,
     measure_is_pending = False, measure_registers = 0\<rparr>"

definition zero_priv_state :: spine_priv_state where
  "zero_priv_state = \<lparr>sent_create = False, pending_update = zero_update\<rparr>"

text \<open>A slot as \<open>kzalloc\<close> leaves it.\<close>

definition zero_info :: spine_datapath_info where
  "zero_info = \<lparr>fi_init_cwnd = 0, fi_mss = 0, fi_src_ip = 0, fi_src_port = 0, fi_dst_ip = 0,
     fi_dst_port = 0, fi_alg = SPINE_CUBIC, fi_congAlg = replicate MAX_CONG_ALG_SIZE 0\<rparr>"

definition zero_connection :: spine_connection where
  "zero_connection = \<lparr>conn_index = 0, last_create_msg_sent = 0, flow_info = zero_info,
     conn_state = PNull, conn_impl = 0, conn_datapath = False\<rparr>"

section \<open>Access to the connection table\<close>

definition conn_ref :: "'w spine_datapath \<Rightarrow> nat \<Rightarrow> spine_connection res" where
  "conn_ref dp i = rbind (deref (dp_connections dp)) (\<lambda>cs. array_get cs i)"

definition conn_put :: "'w spine_datapath \<Rightarrow> nat \<Rightarrow> spine_connection \<Rightarrow> 'w spine_datapath res" where
  "conn_put dp i c = rbind (deref (dp_connections dp)) (\<lambda>cs.
     rbind (array_set cs i c) (\<lambda>cs'. Inr (dp\<lparr>dp_connections := Some cs'\<rparr>)))"

text \<open>The table as a total list, for statements; empty where the pointer is NULL.\<close>

definition slots :: "'w spine_datapath \<Rightarrow> spine_connection list" where
  "slots dp = (case dp_connections dp of None \<Rightarrow> [] | Some cs \<Rightarrow> cs)"

lemma conn_ref_eq [simp]: "i < length (slots dp) \<Longrightarrow> conn_ref dp i = Inr (slots dp ! i)"
  by (auto simp: conn_ref_def slots_def split: option.splits)

lemma conn_put_eq [simp]:
  "i < length (slots dp) \<Longrightarrow>
   conn_put dp i c = Inr (dp\<lparr>dp_connections := Some ((slots dp)[i := c])\<rparr>)"
  by (auto simp: conn_put_def slots_def split: option.splits)

lemma slots_upd [simp]: "slots (dp\<lparr>dp_connections := Some cs\<rparr>) = cs"
  by (simp add: slots_def)

lemma slots_frame [simp]:
  "slots (dp\<lparr>dp_last_msg_sent := x\<rparr>) = slots dp"
  "slots (dp\<lparr>dp_in_fallback := b\<rparr>) = slots dp"
  "slots (dp\<lparr>dp_time_zero := x\<rparr>) = slots dp"
  by (simp_all add: slots_def)

lemma conn_ref_oob: "length (slots dp) \<le> i \<Longrightarrow> \<not> is_ok (conn_ref dp i)"
  by (auto simp: conn_ref_def slots_def split: option.splits)

text \<open>The private state behind the pointer: reading it faults when it is NULL or freed.\<close>

fun live_state :: "priv_ptr \<Rightarrow> spine_priv_state res" where
  "live_state PNull = Inl Null_Deref"
| "live_state PFreed = Inl Use_After_Free"
| "live_state (PLive st) = Inr st"

lemma live_state_eq_Inr [simp]: "live_state p = Inr st \<longleftrightarrow> p = PLive st"
  by (cases p) auto

section \<open>Well-formedness\<close>

definition update_wf :: "staged_update \<Rightarrow> bool" where
  "update_wf u \<longleftrightarrow> length (control_is_pending u) = MAX_CONTROL_REG \<and>
     length (control_registers u) = MAX_CONTROL_REG"

definition conn_wf :: "nat \<Rightarrow> spine_connection \<Rightarrow> bool" where
  "conn_wf i c \<longleftrightarrow> (conn_index c = 0 \<or> unat (conn_index c) = Suc i) \<and>
     length (fi_congAlg (flow_info c)) = MAX_CONG_ALG_SIZE \<and>
     (\<forall>st. conn_state c = PLive st \<longrightarrow> update_wf (pending_update st) \<and> conn_datapath c)"

definition dp_wf :: "'w spine_datapath \<Rightarrow> bool" where
  "dp_wf dp \<longleftrightarrow> dp_connections dp \<noteq> None \<and>
     length (slots dp) = unat (dp_max_connections dp) \<and>
     dp_now dp \<noteq> None \<and> dp_since_usecs dp \<noteq> None \<and> dp_send_msg dp \<noteq> None \<and>
     (\<forall>i < length (slots dp). conn_wf i (slots dp ! i))"

lemma update_wf_zero [simp]: "update_wf zero_update"
  by (simp add: update_wf_def zero_update_def)

lemma conn_wf_zero [simp]: "conn_wf i zero_connection"
  by (simp add: conn_wf_def zero_connection_def zero_info_def)

lemma dp_wf_slot: "dp_wf dp \<Longrightarrow> i < length (slots dp) \<Longrightarrow> conn_wf i (slots dp ! i)"
  by (simp add: dp_wf_def)

lemma dp_wf_put:
  "dp_wf dp \<Longrightarrow> i < length (slots dp) \<Longrightarrow> conn_wf i c \<Longrightarrow>
   dp_wf (dp\<lparr>dp_connections := Some ((slots dp)[i := c])\<rparr>)"
  by (auto simp: dp_wf_def nth_list_update)

lemma dp_wf_frame [simp]:
  "dp_wf (dp\<lparr>dp_last_msg_sent := x\<rparr>) = dp_wf dp"
  "dp_wf (dp\<lparr>dp_in_fallback := b\<rparr>) = dp_wf dp"
  "dp_wf (dp\<lparr>dp_time_zero := x\<rparr>) = dp_wf dp"
  by (simp_all add: dp_wf_def)

end
