(* ===== verification/Spine.thy ===== *)
theory Spine
  imports Spine_State
begin

text \<open>
  The datapath library, spine.c and spine_priv.c: connection table, handshake with user space,
  staged updates, the invocation made by a congestion-control module on every acknowledgement,
  and the fallback timer. Each function takes the datapath and the world and returns them after
  the call. Logging calls are left out; a NULL back pointer dereferenced by one is a fault.
\<close>

definition CREATE_TIMEOUT_US :: u64 where [c_consts]: "CREATE_TIMEOUT_US = 100000"
definition NONVOLATILE_CONTROL_REG :: u8 where [c_consts]: "NONVOLATILE_CONTROL_REG = 0"
definition VOLATILE_CONTROL_REG :: u8 where [c_consts]: "VOLATILE_CONTROL_REG = 8"

section \<open>Private state (spine_priv.c)\<close>

text \<open>\<open>kcalloc\<close> is the kernel's allocator: it may fail, and only that is observed.\<close>

definition init_spine_priv_state ::
  "('w \<Rightarrow> bool \<times> 'w) \<Rightarrow> 'w spine_datapath \<Rightarrow> nat \<Rightarrow> 'w \<Rightarrow> (int \<times> 'w spine_datapath \<times> 'w) res" where
  "init_spine_priv_state kcalloc dp i w = rbind (conn_ref dp i) (\<lambda>conn.
     let (ok, w1) = kcalloc w in
     if \<not> ok then
       rbind (conn_put dp i (conn\<lparr>conn_state := PNull\<rparr>)) (\<lambda>dp1. Inr (-1, dp1, w1))
     else
       rbind (conn_put dp i (conn\<lparr>conn_state := PLive (zero_priv_state\<lparr>sent_create := False\<rparr>),
                                  conn_datapath := True\<rparr>))
         (\<lambda>dp1. Inr (1, dp1, w1)))"

definition get_spine_priv_state :: "spine_connection \<Rightarrow> priv_ptr" where
  "get_spine_priv_state conn = conn_state conn"

definition free_spine_priv_state :: "'w spine_datapath \<Rightarrow> nat \<Rightarrow> 'w spine_datapath res" where
  "free_spine_priv_state dp i = rbind (conn_ref dp i) (\<lambda>conn.
     case get_spine_priv_state conn of
       PNull \<Rightarrow> Inr dp
     | PFreed \<Rightarrow> Inl Use_After_Free
     | PLive st \<Rightarrow> conn_put dp i (conn\<lparr>conn_state := PFreed\<rparr>))"

section \<open>Fallback timer\<close>

definition update_fto_timer :: "'w spine_datapath \<Rightarrow> 'w \<Rightarrow> ('w spine_datapath \<times> 'w) res" where
  "update_fto_timer dp w =
     (if dp_last_msg_sent dp = 0 then
        rbind (deref (dp_now dp)) (\<lambda>now. let (t, w1) = now w in
          Inr (dp\<lparr>dp_last_msg_sent := t\<rparr>, w1))
      else Inr (dp, w))"

definition check_fto :: "'w spine_datapath \<Rightarrow> 'w \<Rightarrow> (bool \<times> 'w spine_datapath \<times> 'w) res" where
  "check_fto dp w = rbind (deref (dp_since_usecs dp)) (\<lambda>since.
     let (since_last, w1) = since (dp_last_msg_sent dp) w;
         should = (dp_last_msg_sent dp \<noteq> 0 \<and> since_last > dp_fto_us dp) in
     if should \<and> \<not> dp_in_fallback dp then Inr (should, dp\<lparr>dp_in_fallback := True\<rparr>, w1)
     else if \<not> should \<and> dp_in_fallback dp then Inr (should, dp\<lparr>dp_in_fallback := False\<rparr>, w1)
     else Inr (should, dp, w1))"

definition turn_off_fto_timer :: "'w spine_datapath \<Rightarrow> 'w spine_datapath" where
  "turn_off_fto_timer dp = dp\<lparr>dp_in_fallback := False, dp_last_msg_sent := 0\<rparr>"

section \<open>Initialisation\<close>

definition spine_missing_arg :: "'w spine_datapath \<Rightarrow> bool" where
  "spine_missing_arg dp \<longleftrightarrow> dp_set_params dp = None \<or> dp_now dp = None \<or>
     dp_since_usecs dp = None \<or> dp_after_usecs dp = None \<or> dp_connections dp = None \<or>
     dp_max_connections dp = 0 \<or> dp_fto_us dp = 0 \<or> dp_send_msg dp = None"

definition spine_init ::
  "'w spine_datapath option \<Rightarrow> u32 \<Rightarrow> 'w \<Rightarrow> (int \<times> 'w spine_datapath option \<times> 'w) res" where
  "spine_init datapath ident w =
     (case datapath of
        None \<Rightarrow> Inr (SPINE_MISSING_ARG, None, w)
      | Some dp \<Rightarrow>
          if spine_missing_arg dp then Inr (SPINE_MISSING_ARG, Some dp, w)
          else rbind (write_ready_msg (replicate READY_MSG_SIZE 0) (int READY_MSG_SIZE) ident)
            (\<lambda>(ok, msg).
              if ok < 0 then Inr (ok, Some dp, w)
              else rbind (deref (dp_send_msg dp)) (\<lambda>send.
                rbind (send msg (int READY_MSG_SIZE) w) (\<lambda>(_, w1).
                  rbind (deref (dp_now dp)) (\<lambda>now. let (t, w2) = now w1 in
                    Inr (SPINE_OK, Some (dp\<lparr>dp_time_zero := t, dp_last_msg_sent := 0,
                      dp_in_fallback := False\<rparr>), w2))))))"

definition spine_free :: "'w spine_datapath \<Rightarrow> 'w spine_datapath" where
  "spine_free dp = dp"

section \<open>Announcing a connection\<close>

definition spine_conn_create_success ::
  "'w spine_datapath \<Rightarrow> nat \<Rightarrow> 'w spine_datapath res" where
  "spine_conn_create_success dp i = rbind (conn_ref dp i) (\<lambda>conn.
     rbind (live_state (get_spine_priv_state conn)) (\<lambda>st.
       conn_put dp i (conn\<lparr>conn_state := PLive (st\<lparr>sent_create := True\<rparr>)\<rparr>)))"

definition spine_get_impl :: "spine_connection \<Rightarrow> nat" where
  "spine_get_impl conn = conn_impl conn"

definition spine_set_impl :: "spine_connection \<Rightarrow> nat \<Rightarrow> spine_connection" where
  "spine_set_impl conn ptr = conn\<lparr>conn_impl := ptr\<rparr>"

definition create_msg_of :: "spine_connection \<Rightarrow> CreateMsg" where
  "create_msg_of conn = (let f = flow_info conn in
     \<lparr>cr_init_cwnd = fi_init_cwnd f, cr_mss = fi_mss f, cr_src_ip = fi_src_ip f,
      cr_src_port = fi_src_port f, cr_dst_ip = fi_dst_ip f, cr_dst_port = fi_dst_port f,
      cr_congAlg = take MAX_CONG_ALG_SIZE (fi_congAlg f)\<rparr>)"

text \<open>The rate limit on create messages: the clock is read only when one was sent before.\<close>

definition create_pending ::
  "'w spine_datapath \<Rightarrow> spine_connection \<Rightarrow> 'w \<Rightarrow> (bool \<times> 'w) res" where
  "create_pending dp conn w =
     (if last_create_msg_sent conn \<noteq> 0 then
        rbind (deref (dp_since_usecs dp)) (\<lambda>since.
          let (us, w1) = since (last_create_msg_sent conn) w in Inr (us < CREATE_TIMEOUT_US, w1))
      else Inr (False, w))"

definition send_conn_create ::
  "'w spine_datapath \<Rightarrow> nat \<Rightarrow> 'w \<Rightarrow> (int \<times> 'w spine_datapath \<times> 'w) res" where
  "send_conn_create dp i w = rbind (conn_ref dp i) (\<lambda>conn.
     rbind (create_pending dp conn w) (\<lambda>(pending, w1).
       if pending then Inr (SPINE_CREATE_PENDING, dp, w1)
       else if conn_index conn < 1 then Inr (SPINE_CONNECTION_NOT_INITIALIZED, dp, w1)
       else rbind (deref (dp_now dp)) (\<lambda>now. let (t, w2) = now w1 in
         rbind (conn_put dp i (conn\<lparr>last_create_msg_sent := t\<rparr>)) (\<lambda>dp1.
         rbind (write_create_msg (replicate CREATE_MSG_SIZE 0) (int CREATE_MSG_SIZE)
                  (ucast (conn_index conn)) (create_msg_of conn)) (\<lambda>(msg_size, msg).
           if msg_size < 0 then Inr (msg_size, dp1, w2)
           else rbind (deref (dp_send_msg dp1)) (\<lambda>send.
             rbind (send msg msg_size w2) (\<lambda>(ret, w3).
               if ret \<noteq> 0
               then rbind (update_fto_timer dp1 w3) (\<lambda>(dp2, w4). Inr (ret, dp2, w4))
               else Inr (ret, dp1, w3))))))))"

section \<open>The connection table\<close>

text \<open>
  The scan for a free slot. The counter is 16 bits wide and the bound is not, so the loop is a
  partial function: \<open>None\<close> is a scan that does not return. A slot is claimed by
  compare-and-swap of its index from 0; the counter then leaves the loop one past the slot.
\<close>

partial_function (option) scan_slots ::
  "u64 \<Rightarrow> spine_connection list \<Rightarrow> u16 \<Rightarrow> (spine_connection list \<times> u16) res option" where
  "scan_slots max_connections cs sid =
     (if \<not> (ucast sid < max_connections) then Some (Inr (cs, sid))
      else if length cs \<le> unat sid then Some (Inl Out_Of_Bounds)
      else if conn_index (cs ! unat sid) = 0
      then Some (Inr (cs[unat sid := (cs ! unat sid)\<lparr>conn_index := sid + 1\<rparr>], sid + 1))
      else scan_slots max_connections cs (sid + 1))"

definition claim_slot :: "'w spine_datapath \<Rightarrow> (u16 \<times> 'w spine_datapath) res" where
  "claim_slot dp = rbind (deref (dp_connections dp)) (\<lambda>cs.
     case scan_slots (dp_max_connections dp) cs 0 of
       None \<Rightarrow> Inl Diverges
     | Some r \<Rightarrow> rbind r (\<lambda>(cs', sid). Inr (sid, dp\<lparr>dp_connections := Some cs'\<rparr>)))"

definition spine_connection_start ::
  "('w \<Rightarrow> bool \<times> 'w) \<Rightarrow> 'w spine_datapath \<Rightarrow> nat \<Rightarrow> spine_datapath_info \<Rightarrow> 'w \<Rightarrow>
   (nat option \<times> 'w spine_datapath \<times> 'w) res" where
  "spine_connection_start kcalloc dp impl info w =
     rbind (claim_slot dp) (\<lambda>(sid, dp1).
       if ucast sid \<ge> dp_max_connections dp1 then Inr (None, dp1, w)
       else let i = unat (sid - 1) in
         rbind (conn_ref dp1 i) (\<lambda>conn.
         rbind (conn_put dp1 i (conn\<lparr>conn_impl := impl, flow_info := info\<rparr>)) (\<lambda>dp2.
         rbind (init_spine_priv_state kcalloc dp2 i w) (\<lambda>(ret, dp3, w1).
           if ret < 0 then Inr (None, dp3, w1)
           else rbind (send_conn_create dp3 i w1) (\<lambda>(ret', dp4, w2).
             if ret' < 0 then Inr (Some i, dp4, w2)
             else rbind (spine_conn_create_success dp4 i) (\<lambda>dp5. Inr (Some i, dp5, w2)))))))"

definition spine_connection_lookup :: "'w spine_datapath \<Rightarrow> u16 \<Rightarrow> nat option res" where
  "spine_connection_lookup dp sid =
     (if sid = 0 \<or> ucast sid > dp_max_connections dp then Inr None
      else let i = unat (sid - 1) in
        rbind (conn_ref dp i) (\<lambda>conn.
          if conn_index conn \<noteq> sid then Inr None else Inr (Some i)))"

definition spine_connection_free ::
  "'w spine_datapath \<Rightarrow> u16 \<Rightarrow> 'w \<Rightarrow> ('w spine_datapath \<times> 'w) res" where
  "spine_connection_free dp sid w =
     (if sid = 0 \<or> ucast sid > dp_max_connections dp then Inr (dp, w)
      else let i = unat (sid - 1) in
        rbind (conn_ref dp i) (\<lambda>conn.
          if conn_index conn \<noteq> sid then Inr (dp, w)
          else rbind (free_spine_priv_state dp i) (\<lambda>dp1.
            rbind (write_release_msg (replicate REPORT_MSG_SIZE 0) (int RELEASE_MSG_SIZE)
                     (ucast sid)) (\<lambda>(msg_size, msg).
              if msg_size < 0 then Inr (dp1, w)
              else rbind (deref (dp_send_msg dp1)) (\<lambda>send.
                rbind (send msg msg_size w) (\<lambda>(_, w1).
                  rbind (conn_ref dp1 i) (\<lambda>conn1.
                    rbind (conn_put dp1 i (conn1\<lparr>conn_index := 0\<rparr>)) (\<lambda>dp2.
                      Inr (dp2, w1)))))))))"

section \<open>Staging updates from user space\<close>

text \<open>
  \<open>stage_update\<close> reads the register type first and the other two fields only for a control
  register. Neither the index nor the end of the message is checked: a write past the register
  arrays and a read past the message are faults.
\<close>

definition stage_update :: "staged_update \<Rightarrow> u8 list \<Rightarrow> (int \<times> staged_update) res" where
  "stage_update up field = rbind (array_get field 0) (\<lambda>reg_type.
     if reg_type = NONVOLATILE_CONTROL_REG \<or> reg_type = VOLATILE_CONTROL_REG then
       rbind (memcpy_from field 0 sizeof_UpdateField) (\<lambda>bs.
         let f = update_field_of_bytes bs; r = unat (uf_reg_index f) in
         rbind (array_set (control_registers up) r (uf_new_value f)) (\<lambda>regs.
         rbind (array_set (control_is_pending up) r True) (\<lambda>pend.
           Inr (SPINE_OK, up\<lparr>control_registers := regs, control_is_pending := pend\<rparr>))))
     else Inr (SPINE_UPDATE_INVALID_REG_TYPE, up))"

fun stage_multiple_updates :: "staged_update \<Rightarrow> nat \<Rightarrow> u8 list \<Rightarrow> (int \<times> staged_update) res" where
  "stage_multiple_updates up 0 msg = Inr (SPINE_OK, up)"
| "stage_multiple_updates up (Suc n) msg = rbind (stage_update up msg) (\<lambda>(ret, up').
     if ret < 0 then Inr (ret, up')
     else stage_multiple_updates up' n (drop sizeof_UpdateField msg))"

definition stage_measure_request :: "staged_update \<Rightarrow> u64 \<Rightarrow> int \<times> staged_update" where
  "stage_measure_request up measure_idx =
     (SPINE_OK, up\<lparr>measure_is_pending := True, measure_registers := measure_idx\<rparr>)"

text \<open>Store an update in the private state of a slot.\<close>

definition put_pending :: "'w spine_datapath \<Rightarrow> nat \<Rightarrow> staged_update \<Rightarrow> 'w spine_datapath res" where
  "put_pending dp i up = rbind (conn_ref dp i) (\<lambda>conn.
     rbind (live_state (get_spine_priv_state conn)) (\<lambda>st.
       conn_put dp i (conn\<lparr>conn_state := PLive (st\<lparr>pending_update := up\<rparr>)\<rparr>)))"

definition read_update_fields ::
  "bool \<Rightarrow> 'w spine_datapath \<Rightarrow> nat \<Rightarrow> SpineMsgHeader \<Rightarrow> u8 list \<Rightarrow> (int \<times> 'w spine_datapath) res" where
  "read_update_fields char_signed dp i hdr msg =
     rbind (check_update_fields_msg char_signed hdr 0 msg) (\<lambda>(ret, num_updates).
       if ret < 0 then Inr (ret, dp)
       else if num_updates = 0 then Inr (SPINE_OK, dp)
       else rbind (conn_ref dp i) (\<lambda>conn.
         rbind (live_state (get_spine_priv_state conn)) (\<lambda>st.
         rbind (stage_multiple_updates (pending_update st) (unat num_updates) (drop (nat ret) msg))
           (\<lambda>(ret', up). rbind (put_pending dp i up) (\<lambda>dp1.
             Inr (if ret' < 0 then ret' else SPINE_OK, dp1))))))"

definition read_measure_request ::
  "bool \<Rightarrow> 'w spine_datapath \<Rightarrow> nat \<Rightarrow> SpineMsgHeader \<Rightarrow> u8 list \<Rightarrow> (int \<times> 'w spine_datapath) res" where
  "read_measure_request char_signed dp i hdr msg =
     rbind (check_measure_fields_msg char_signed hdr 0 msg) (\<lambda>(ret, measure_idx).
       if ret < 0 then Inr (ret, dp)
       else rbind (conn_ref dp i) (\<lambda>conn.
         rbind (live_state (get_spine_priv_state conn)) (\<lambda>st.
           let (_, up) = stage_measure_request (pending_update st) (ucast measure_idx) in
           rbind (put_pending dp i up) (\<lambda>dp1. Inr (SPINE_OK, dp1)))))"

definition spine_read_msg ::
  "bool \<Rightarrow> 'w spine_datapath \<Rightarrow> u8 list \<Rightarrow> int \<Rightarrow> (int \<times> 'w spine_datapath) res" where
  "spine_read_msg char_signed dp buf bufsize =
     rbind (read_header buf) (\<lambda>(ret, hdr).
       if ret < 0 then Inr (ret, dp)
       else if bufsize < 0 then Inr (SPINE_BUFSIZE_NEGATIVE, dp)
       else if ucast (hdr_Len hdr) > (word_of_int bufsize :: u32)
       then Inr (SPINE_BUFSIZE_TOO_SMALL, dp)
       else if unat (hdr_Len hdr) > BIGGEST_MSG_SIZE then Inr (SPINE_MSG_TOO_LONG, dp)
       else let msg = drop (nat ret) buf; dp1 = turn_off_fto_timer dp in
         rbind (spine_connection_lookup dp1 (ucast (hdr_SocketId hdr))) (\<lambda>conn.
           case conn of
             None \<Rightarrow> Inr (SPINE_UNKNOWN_CONNECTION, dp1)
           | Some i \<Rightarrow>
               if hdr_Type hdr = UPDATE_FIELDS then read_update_fields char_signed dp1 i hdr msg
               else if hdr_Type hdr = MEASURE then read_measure_request char_signed dp1 i hdr msg
               else Inr (SPINE_OK, dp1)))"

section \<open>Invocation by the congestion-control module\<close>

text \<open>The loop over the control registers, which stops at the first that is not pending.\<close>

fun collect_params :: "bool list \<Rightarrow> u64 list \<Rightarrow> u64 list" where
  "collect_params (True # ps) (r # rs) = r # collect_params ps rs"
| "collect_params _ _ = []"

text \<open>
  The debug print of the measurements into a buffer of 1024 bytes: the bytes \<open>"%llu, "\<close>
  takes, and the offset after the loop. Writing past the buffer is a fault.
\<close>

fun dec_digits :: "nat \<Rightarrow> nat" where
  "dec_digits n = (if n < 10 then 1 else Suc (dec_digits (n div 10)))"

declare dec_digits.simps [simp del]

definition llu_len :: "u64 \<Rightarrow> nat" where
  "llu_len x = dec_digits (unat x) + 2"

fun print_measurements :: "u64 list \<Rightarrow> nat \<Rightarrow> nat res" where
  "print_measurements [] write_len = Inr write_len"
| "print_measurements (x # xs) write_len =
     (if write_len + llu_len x + 1 \<le> 1024 then print_measurements xs (write_len + llu_len x)
      else Inl Out_Of_Bounds)"

definition send_measurement ::
  "'w spine_datapath \<Rightarrow> nat \<Rightarrow> u32 \<Rightarrow> u64 list \<Rightarrow> u8 \<Rightarrow> 'w \<Rightarrow>
   (int \<times> 'w spine_datapath \<times> 'w) res" where
  "send_measurement dp i request_id values num_fields w = rbind (conn_ref dp i) (\<lambda>conn.
     if conn_index conn < 1 then Inr (SPINE_CONNECTION_NOT_INITIALIZED, dp, w)
     else rbind (write_measure_msg (replicate REPORT_MSG_SIZE 0) (int REPORT_MSG_SIZE)
                   (ucast (conn_index conn)) request_id (Some values) num_fields)
       (\<lambda>(msg_size, msg). rbind (deref (dp_send_msg dp)) (\<lambda>send.
         rbind (send msg msg_size w) (\<lambda>(ret, w1).
           if ret \<noteq> 0
           then rbind (update_fto_timer dp w1) (\<lambda>(dp1, w2). Inr (ret, dp1, w2))
           else Inr (ret, dp, w1)))))"

definition enforce_params ::
  "'w spine_datapath \<Rightarrow> spine_connection \<Rightarrow> u64 list \<Rightarrow> 'w \<Rightarrow> 'w res" where
  "enforce_params dp conn params w =
     (case dp_set_params dp of
        None \<Rightarrow> Inr w
      | Some set_params \<Rightarrow>
          if params \<noteq> [] then set_params conn params (word_of_nat (length params)) w else Inr w)"

definition answer_measure_request ::
  "'w spine_datapath \<Rightarrow> nat \<Rightarrow> spine_connection \<Rightarrow> staged_update \<Rightarrow> 'w \<Rightarrow>
   (int \<times> 'w spine_datapath \<times> 'w) res" where
  "answer_measure_request dp i conn up w =
     (if measure_is_pending up then
        let current_request = ucast (measure_registers up) in
        case dp_fetch_measurements dp of
          None \<Rightarrow> Inr (0, dp, w)
        | Some fetch \<Rightarrow>
            rbind (fetch conn (replicate MAX_MEASUREMENT_FIELDS 0) 0 current_request w)
              (\<lambda>(ms, num_fields, w1).
                if num_fields > 0 then
                  if length ms < unat num_fields then Inl Out_Of_Bounds
                  else rbind (print_measurements (take (unat num_fields) ms) 0) (\<lambda>_.
                    send_measurement dp i current_request ms num_fields w1)
                else Inr (0, dp, w1))
      else Inr (0, dp, w))"

definition spine_invoke ::
  "'w spine_datapath \<Rightarrow> nat option \<Rightarrow> 'w \<Rightarrow> (int \<times> 'w spine_datapath \<times> 'w) res" where
  "spine_invoke dp conn_ptr w =
     (case conn_ptr of
        None \<Rightarrow> Inr (SPINE_NULL_ARG, dp, w)
      | Some i \<Rightarrow> rbind (conn_ref dp i) (\<lambda>conn.
          case get_spine_priv_state conn of
            PNull \<Rightarrow> if conn_datapath conn then Inr (SPINE_NULL_ARG, dp, w) else Inl Null_Deref
          | PFreed \<Rightarrow> Inl Use_After_Free
          | PLive st \<Rightarrow>
              if \<not> conn_datapath conn then Inl Null_Deref
              else if \<not> sent_create st then
                rbind (send_conn_create dp i w) (\<lambda>(ret, dp1, w1).
                  if ret < 0 then Inr (SPINE_OK, dp1, w1)
                  else rbind (spine_conn_create_success dp1 i) (\<lambda>dp2. Inr (SPINE_OK, dp2, w1)))
              else let up = pending_update st in
                rbind (enforce_params dp conn
                         (collect_params (control_is_pending up) (control_registers up)) w) (\<lambda>w1.
                rbind (answer_measure_request dp i conn up w1) (\<lambda>(ret, dp1, w2).
                rbind (put_pending dp1 i zero_update) (\<lambda>dp2. Inr (ret, dp2, w2))))))"

end
