(* ===== verification/Spine_Table.thy ===== *)
theory Spine_Table
  imports Spine
begin

text \<open>
  Lemmas on the connection table of spine.c: what the scan for a free slot finds, when it
  returns, and what lookup, start and free do to the table.
\<close>

section \<open>The scan\<close>

definition slot_free :: "spine_connection list \<Rightarrow> nat \<Rightarrow> bool" where
  "slot_free cs j \<longleftrightarrow> conn_index (cs ! j) = 0"

text \<open>The specification of the scan: the first free slot from \<open>k\<close> on.\<close>

definition first_free :: "spine_connection list \<Rightarrow> nat \<Rightarrow> nat option" where
  "first_free cs k = find (slot_free cs) [k..<length cs]"

definition claimed :: "spine_connection list \<Rightarrow> nat \<Rightarrow> spine_connection list" where
  "claimed cs j = cs[j := (cs ! j)\<lparr>conn_index := word_of_nat (Suc j)\<rparr>]"

lemma first_free_step:
  "k < length cs \<Longrightarrow> first_free cs k = (if slot_free cs k then Some k else first_free cs (Suc k))"
  by (simp add: first_free_def upt_conv_Cons)

lemma first_free_end [simp]: "length cs \<le> k \<Longrightarrow> first_free cs k = None"
  by (simp add: first_free_def)

lemma first_free_Some:
  "first_free cs k = Some j \<Longrightarrow> k \<le> j \<and> j < length cs \<and> slot_free cs j"
  by (auto simp: first_free_def find_Some_iff nth_append)

lemma first_free_least:
  "first_free cs k = Some j \<Longrightarrow> k \<le> i \<Longrightarrow> i < j \<Longrightarrow> \<not> slot_free cs i"
proof (induction "length cs - k" arbitrary: k)
  case 0
  then show ?case by simp
next
  case (Suc n)
  then have k: "k < length cs" by simp
  show ?case
  proof (cases "slot_free cs k")
    case True
    with Suc.prems k show ?thesis by (simp add: first_free_step)
  next
    case False
    with Suc.prems k have "first_free cs (Suc k) = Some j" by (simp add: first_free_step)
    with Suc.hyps(1) [of "Suc k"] Suc.hyps(2) Suc.prems False show ?thesis by (cases "i = k") auto
  qed
qed

lemma first_free_None: "first_free cs k = None \<longleftrightarrow> (\<forall>j. k \<le> j \<and> j < length cs \<longrightarrow> \<not> slot_free cs j)"
  by (auto simp: first_free_def find_None_iff)

lemma first_free_eq:
  assumes "j < length cs" and "slot_free cs j" and "\<forall>i < j. \<not> slot_free cs i"
  shows "first_free cs 0 = Some j"
proof -
  from assms(1,2) obtain i where i: "first_free cs 0 = Some i"
    using first_free_None [of cs 0] by (cases "first_free cs 0") auto
  with first_free_Some [OF i] first_free_least [OF i, of j] assms show ?thesis
    by (metis le0 linorder_neqE_nat)
qed

lemma scan_slots_from:
  assumes "length cs = unat max_conn" and "length cs \<le> 65535" and "k \<le> length cs"
  shows "scan_slots max_conn cs (word_of_nat k) =
    Some (Inr (case first_free cs k of
                 None \<Rightarrow> (cs, word_of_nat (length cs))
               | Some j \<Rightarrow> (claimed cs j, word_of_nat (Suc j))))"
  using assms(3)
proof (induction "length cs - k" arbitrary: k)
  case 0
  then have k: "k = length cs" by simp
  have "unat (ucast (word_of_nat k :: u16) :: u64) = k"
    using k assms(2) by (simp add: unat_ucast_up unat_word_of_nat_small)
  then have "\<not> (ucast (word_of_nat k :: u16) :: u64) < max_conn"
    using k assms(1) by (simp add: word_less_nat_alt)
  then show ?case using k by (subst scan_slots.simps) simp
next
  case (Suc n)
  then have k: "k < length cs" by simp
  have u16: "unat (word_of_nat k :: u16) = k"
    using k assms(2) by (intro unat_word_of_nat_small) simp
  have more: "(ucast (word_of_nat k :: u16) :: u64) < max_conn"
    using k assms(1) u16 by (simp add: word_less_nat_alt unat_ucast_up)
  have succ: "(word_of_nat k :: u16) + 1 = word_of_nat (Suc k)" by simp
  show ?case
  proof (cases "slot_free cs k")
    case True
    with k more u16 show ?thesis
      by (subst scan_slots.simps) (simp add: first_free_step slot_free_def claimed_def add.commute)
  next
    case False
    with k more u16 have "scan_slots max_conn cs (word_of_nat k) =
        scan_slots max_conn cs (word_of_nat (Suc k))"
      by (subst scan_slots.simps) (simp add: slot_free_def add.commute)
    with Suc.hyps(1) [of "Suc k"] Suc.hyps(2) k False show ?thesis by (simp add: first_free_step)
  qed
qed

lemma scan_slots_start:
  assumes "length cs = unat max_conn" and "length cs \<le> 65535"
  shows "scan_slots max_conn cs 0 =
    Some (Inr (case first_free cs 0 of
                 None \<Rightarrow> (cs, word_of_nat (length cs))
               | Some j \<Rightarrow> (claimed cs j, word_of_nat (Suc j))))"
  using scan_slots_from [OF assms, of 0] by simp

text \<open>
  With more slots than the counter can count, a full table makes the scan run for ever: the
  counter wraps before it reaches the bound.
\<close>

lemma scan_slots_returns:
  assumes "scan_slots max_conn cs sid = Some r"
  shows "unat max_conn \<le> 65535 \<or> length cs < 65536 \<or> (\<exists>j < 65536. slot_free cs j)"
proof (rule scan_slots.raw_induct [where P = "\<lambda>max_conn cs sid r.
    unat max_conn \<le> 65535 \<or> length cs < 65536 \<or> (\<exists>j < 65536. slot_free cs j)", OF _ assms])
  fix f and max_conn :: u64 and cs sid r
  assume IH: "\<And>m cs sid r. f m cs sid = Some r \<Longrightarrow>
      unat m \<le> 65535 \<or> length cs < 65536 \<or> (\<exists>j < 65536. slot_free cs j)"
    and eq: "(if \<not> ucast sid < max_conn then Some (Inr (cs, sid))
      else if length cs \<le> unat sid then Some (Inl Out_Of_Bounds)
      else if conn_index (cs ! unat sid) = 0
      then Some (Inr (cs[unat sid := (cs ! unat sid)\<lparr>conn_index := sid + 1\<rparr>], sid + 1))
      else f max_conn cs (sid + 1)) = Some r"
  have bound: "unat (sid :: u16) < 65536" using unsigned_less [of sid] by simp
  show "unat max_conn \<le> 65535 \<or> length cs < 65536 \<or> (\<exists>j < 65536. slot_free cs j)"
  proof (cases "ucast sid < max_conn \<and> unat sid < length cs \<and> conn_index (cs ! unat sid) \<noteq> 0")
    case True
    with eq have "f max_conn cs (sid + 1) = Some r" by simp
    then show ?thesis by (rule IH)
  next
    case False
    then consider "\<not> ucast sid < max_conn" | "length cs \<le> unat sid" | "slot_free cs (unat sid)"
      by (auto simp: slot_free_def not_less)
    then show ?thesis
    proof cases
      case 1
      then show ?thesis using bound by (simp add: word_less_nat_alt unat_ucast_up)
    next
      case 2
      then show ?thesis using bound by simp
    next
      case 3
      then show ?thesis using bound by blast
    qed
  qed
qed

text \<open>A free slot the counter can reach ends the scan, whatever the size of the table.\<close>

lemma scan_slots_hits:
  assumes "length cs = unat max_conn" and "first_free cs k = Some j" and "j < 65536"
  shows "\<exists>r. scan_slots max_conn cs (word_of_nat k) = Some r"
  using assms(2)
proof (induction "j - k" arbitrary: k rule: less_induct)
  case less
  note j = first_free_Some [OF less.prems]
  have u16: "unat (word_of_nat k :: u16) = k"
    using j assms(3) by (intro unat_word_of_nat_small) simp
  show ?case
  proof (cases "slot_free cs k")
    case True
    then show ?thesis using j u16 by (subst scan_slots.simps) (simp add: slot_free_def)
  next
    case False
    then have "k < j" using j by (cases "k = j") auto
    moreover have "first_free cs (Suc k) = Some j"
      using less.prems False j \<open>k < j\<close> by (simp add: first_free_step)
    moreover have "j - Suc k < j - k" using \<open>k < j\<close> by simp
    ultimately obtain r where "scan_slots max_conn cs (word_of_nat (Suc k)) = Some r"
      using less.hyps by blast
    with False show ?thesis
      by (subst scan_slots.simps) (simp add: slot_free_def u16 add.commute)
  qed
qed

text \<open>The scan itself never returns the value \<open>Diverges\<close>.\<close>

lemma scan_slots_no_fault:
  assumes "scan_slots max_conn cs sid = Some r"
  shows "r \<noteq> Inl Diverges"
  by (rule scan_slots.raw_induct [where P = "\<lambda>_ _ _ r. r \<noteq> Inl Diverges", OF _ assms])
    (auto split: if_splits)

section \<open>Claiming a slot\<close>

lemma claim_slot_eq:
  assumes "dp_wf dp" and "unat (dp_max_connections dp) \<le> 65535"
  shows "claim_slot dp = Inr (case first_free (slots dp) 0 of
      None \<Rightarrow> (word_of_nat (length (slots dp)), dp)
    | Some j \<Rightarrow> (word_of_nat (Suc j), dp\<lparr>dp_connections := Some (claimed (slots dp) j)\<rparr>))"
proof -
  from assms(1) obtain cs where cs: "dp_connections dp = Some cs"
    by (auto simp: dp_wf_def)
  then have sl: "slots dp = cs" by (simp add: slots_def)
  with assms have len: "length cs = unat (dp_max_connections dp)" and "length cs \<le> 65535"
    by (simp_all add: dp_wf_def)
  note scan = scan_slots_start [OF this]
  have same: "dp\<lparr>dp_connections := Some cs\<rparr> = dp"
    using cs by (cases dp) simp
  show ?thesis
    using cs sl scan same by (simp add: claim_slot_def split: option.split)
qed

lemma length_claimed [simp]: "length (claimed cs j) = length cs"
  by (simp add: claimed_def)

lemma claimed_nth: "j < length cs \<Longrightarrow>
    claimed cs j ! i = (if i = j then (cs ! j)\<lparr>conn_index := word_of_nat (Suc j)\<rparr> else cs ! i)"
  by (auto simp: claimed_def nth_list_update)

lemma unat_sid: "Suc j \<le> 65535 \<Longrightarrow> unat (word_of_nat (Suc j) :: u16) = Suc j"
  by (intro unat_word_of_nat_small) simp

lemma slot_of_sid: "Suc j \<le> 65535 \<Longrightarrow> unat ((word_of_nat (Suc j) :: u16) - 1) = j"
  using unat_word_of_nat_small [of j, where 'a = 16] by simp

lemma conn_wf_claimed:
  assumes "conn_wf j c" and "Suc j \<le> 65535"
  shows "conn_wf j (c\<lparr>conn_index := word_of_nat (Suc j)\<rparr>)"
  using assms unat_sid [of j] by (simp add: conn_wf_def del: of_nat_Suc)

lemma dp_wf_claimed:
  assumes "dp_wf dp" and "j < length (slots dp)" and "length (slots dp) \<le> 65535"
  shows "dp_wf (dp\<lparr>dp_connections := Some (claimed (slots dp) j)\<rparr>)"
  unfolding claimed_def using assms
  by (intro dp_wf_put conn_wf_claimed dp_wf_slot) simp_all

section \<open>Lookup\<close>

lemma lookup_eq:
  assumes "dp_wf dp" and "unat (dp_max_connections dp) \<le> 65535"
  shows "spine_connection_lookup dp sid = Inr
    (if 0 < unat sid \<and> unat sid \<le> length (slots dp) \<and> conn_index (slots dp ! (unat sid - 1)) = sid
     then Some (unat sid - 1) else None)"
proof -
  have len: "length (slots dp) = unat (dp_max_connections dp)"
    using assms(1) by (simp add: dp_wf_def)
  have oob: "(ucast sid > dp_max_connections dp) = (length (slots dp) < unat sid)"
    using len by (simp add: word_less_nat_alt unat_ucast_up)
  show ?thesis
  proof (cases "sid = 0 \<or> length (slots dp) < unat sid")
    case True
    then show ?thesis using oob by (auto simp: spine_connection_lookup_def)
  next
    case False
    then have pos: "0 < unat sid" by (simp add: unat_gt_0)
    from False have "unat (sid - 1) = unat sid - 1" by (intro unat_minus_one) simp
    moreover from False pos have "unat sid - 1 < length (slots dp)" by linarith
    ultimately show ?thesis
      using False oob pos by (auto simp: spine_connection_lookup_def Let_def)
  qed
qed

lemma lookup_cases:
  assumes "dp_wf dp" and "unat (dp_max_connections dp) \<le> 65535"
  obtains "spine_connection_lookup dp sid = Inr None"
    | i where "spine_connection_lookup dp sid = Inr (Some i)" "i < length (slots dp)"
        "conn_index (slots dp ! i) = sid" "sid \<noteq> 0"
proof (cases "0 < unat sid \<and> unat sid \<le> length (slots dp) \<and> conn_index (slots dp ! (unat sid - 1)) = sid")
  case True
  then have "unat sid - 1 < length (slots dp)" "sid \<noteq> 0" by (linarith, auto)
  with True that(2) [of "unat sid - 1"] lookup_eq [OF assms, of sid] show ?thesis by auto
next
  case False
  with that(1) lookup_eq [OF assms, of sid] show ?thesis by auto
qed

text \<open>In a well-formed table a slot in use is found under its own number and no other.\<close>

lemma lookup_used_slot:
  assumes "dp_wf dp" and "unat (dp_max_connections dp) \<le> 65535"
    and "i < length (slots dp)" and "conn_index (slots dp ! i) \<noteq> 0"
  shows "spine_connection_lookup dp sid = Inr (Some i) \<longleftrightarrow> sid = conn_index (slots dp ! i)"
proof -
  have "unat (conn_index (slots dp ! i)) = Suc i"
    using dp_wf_slot [OF assms(1,3)] assms(4) by (simp add: conn_wf_def)
  with assms(3,4) show ?thesis
    by (auto simp: lookup_eq [OF assms(1,2)])
qed

text \<open>Freeing a number that leads nowhere does nothing.\<close>

lemma free_unknown:
  assumes wf: "dp_wf dp" and few: "unat (dp_max_connections dp) \<le> 65535"
    and none: "spine_connection_lookup dp sid = Inr None"
  shows "spine_connection_free dp sid w = Inr (dp, w)"
proof (cases "sid = 0 \<or> ucast sid > dp_max_connections dp")
  case True
  then show ?thesis by (simp add: spine_connection_free_def)
next
  case False
  then have "rbind (conn_ref dp (unat (sid - 1))) (\<lambda>conn.
      if conn_index conn \<noteq> sid then Inr None else Inr (Some (unat (sid - 1)))) = Inr None"
    using none by (simp add: spine_connection_lookup_def Let_def)
  then obtain c where "conn_ref dp (unat (sid - 1)) = Inr c" and "conn_index c \<noteq> sid"
    by (auto simp: rbind_eq_Inr split: if_splits)
  with False show ?thesis by (simp add: spine_connection_free_def)
qed

end
