(* ===== verification/Spine_Contract.thy ===== *)
theory Spine_Contract
  imports Spine_Table
begin

text \<open>
  The two interfaces of the datapath library, as locales. \<open>datapath_env\<close> is what spine.c
  relies on in the clock and the message transport; \<open>cc_module\<close> adds what it relies on in a
  congestion-control module. Under these contracts no operation of the library faults, each
  keeps the table well-formed, and each touches only the slot it is called for. The locales are
  interpreted on the code's own providers: the netlink transport in \<open>Netlink\<close>, the modules in
  \<open>Neo\<close>, \<open>Vanilla\<close> and \<open>Scubic\<close>.
\<close>

section \<open>What an operation on one connection may change\<close>

definition same_flow :: "spine_connection \<Rightarrow> spine_connection \<Rightarrow> bool" where
  "same_flow c c' \<longleftrightarrow> conn_index c' = conn_index c \<and> flow_info c' = flow_info c \<and>
     conn_impl c' = conn_impl c \<and> conn_datapath c' = conn_datapath c"

definition touches :: "nat \<Rightarrow> 'w spine_datapath \<Rightarrow> 'w spine_datapath \<Rightarrow> bool" where
  "touches i dp dp' \<longleftrightarrow>
     dp' = dp\<lparr>dp_connections := dp_connections dp', dp_last_msg_sent := dp_last_msg_sent dp'\<rparr> \<and>
     length (slots dp') = length (slots dp) \<and>
     (\<forall>j < length (slots dp). j \<noteq> i \<longrightarrow> slots dp' ! j = slots dp ! j) \<and>
     (i < length (slots dp) \<longrightarrow> same_flow (slots dp ! i) (slots dp' ! i))"

lemma same_flow_refl [simp]: "same_flow c c"
  by (simp add: same_flow_def)

lemma touches_refl [simp]: "touches i dp dp"
proof -
  have "dp = dp\<lparr>dp_connections := dp_connections dp, dp_last_msg_sent := dp_last_msg_sent dp\<rparr>"
    by (rule spine_datapath.equality) simp_all
  then show ?thesis by (simp add: touches_def)
qed

lemma touches_trans:
  assumes "touches i a b" and "touches i b c"
  shows "touches i a c"
proof -
  from assms have b: "b = a\<lparr>dp_connections := dp_connections b, dp_last_msg_sent := dp_last_msg_sent b\<rparr>"
    and c: "c = b\<lparr>dp_connections := dp_connections c, dp_last_msg_sent := dp_last_msg_sent c\<rparr>"
    by (simp_all add: touches_def)
  have "c = a\<lparr>dp_connections := dp_connections c, dp_last_msg_sent := dp_last_msg_sent c\<rparr>"
    by (subst c, subst b) simp
  with assms show ?thesis by (simp add: touches_def same_flow_def)
qed

lemma touches_put:
  "i < length (slots dp) \<Longrightarrow> same_flow (slots dp ! i) c \<Longrightarrow>
   touches i dp (dp\<lparr>dp_connections := Some ((slots dp)[i := c])\<rparr>)"
  unfolding touches_def by (intro conjI spine_datapath.equality) simp_all

lemma touches_timer [simp]: "touches i dp (dp\<lparr>dp_last_msg_sent := t\<rparr>)"
  unfolding touches_def by (intro conjI spine_datapath.equality) simp_all

lemma keep_timer [simp]: "dp\<lparr>dp_last_msg_sent := dp_last_msg_sent dp\<rparr> = dp"
  by (rule spine_datapath.equality) simp_all

lemma touches_callbacks:
  assumes "touches i dp dp'"
  shows "dp_set_params dp' = dp_set_params dp" "dp_fetch_measurements dp' = dp_fetch_measurements dp"
    "dp_send_msg dp' = dp_send_msg dp" "dp_now dp' = dp_now dp"
    "dp_since_usecs dp' = dp_since_usecs dp" "dp_max_connections dp' = dp_max_connections dp"
    "length (slots dp') = length (slots dp)"
proof -
  from assms have eq: "dp' = dp\<lparr>dp_connections := dp_connections dp', dp_last_msg_sent := dp_last_msg_sent dp'\<rparr>"
    by (simp add: touches_def)
  show "dp_set_params dp' = dp_set_params dp" "dp_fetch_measurements dp' = dp_fetch_measurements dp"
    "dp_send_msg dp' = dp_send_msg dp" "dp_now dp' = dp_now dp"
    "dp_since_usecs dp' = dp_since_usecs dp" "dp_max_connections dp' = dp_max_connections dp"
    by (subst eq, simp)+
  show "length (slots dp') = length (slots dp)"
    using assms by (simp add: touches_def)
qed

text \<open>Which callbacks a datapath has registered.\<close>

definition uses_env ::
  "('w \<Rightarrow> u64 \<times> 'w) \<Rightarrow> (u64 \<Rightarrow> 'w \<Rightarrow> u64 \<times> 'w) \<Rightarrow> 'w send_fn \<Rightarrow> 'w spine_datapath \<Rightarrow> bool" where
  "uses_env now since send dp \<longleftrightarrow>
     dp_now dp = Some now \<and> dp_since_usecs dp = Some since \<and> dp_send_msg dp = Some send"

lemma uses_env_touches: "touches i dp dp' \<Longrightarrow> uses_env now since send dp' = uses_env now since send dp"
  by (simp add: uses_env_def touches_callbacks)

definition live_slot :: "'w spine_datapath \<Rightarrow> nat \<Rightarrow> bool" where
  "live_slot dp i \<longleftrightarrow> i < length (slots dp) \<and> (\<exists>st. conn_state (slots dp ! i) = PLive st)"

section \<open>Clock and transport\<close>

locale datapath_env =
  fixes now :: "'w \<Rightarrow> u64 \<times> 'w"
    and since :: "u64 \<Rightarrow> 'w \<Rightarrow> u64 \<times> 'w"
    and send :: "'w send_fn"
    and ok :: "'w \<Rightarrow> bool"
  assumes now_ok: "ok w \<Longrightarrow> now w = (t, w') \<Longrightarrow> ok w'"
    and since_ok: "ok w \<Longrightarrow> since t w = (us, w') \<Longrightarrow> ok w'"
    and send_ok: "ok w \<Longrightarrow> 0 \<le> n \<Longrightarrow> nat n \<le> length msg \<Longrightarrow>
       \<exists>r w'. send msg n w = Inr (r, w') \<and> ok w'"
begin

lemma update_fto_timer_ok:
  assumes "uses_env now since send dp" and "ok w"
  shows "\<exists>t w'. update_fto_timer dp w = Inr (dp\<lparr>dp_last_msg_sent := t\<rparr>, w') \<and> ok w'"
proof (cases "dp_last_msg_sent dp = 0")
  case True
  obtain t w' where "now w = (t, w')" by force
  with True assms now_ok show ?thesis
    by (auto simp: update_fto_timer_def uses_env_def)
next
  case False
  then have "update_fto_timer dp w = Inr (dp\<lparr>dp_last_msg_sent := dp_last_msg_sent dp\<rparr>, w)"
    by (simp add: update_fto_timer_def)
  with assms(2) show ?thesis by blast
qed

text \<open>Sending a prepared message and, when that fails, starting the fallback timer.\<close>

lemma send_or_timer_ok:
  assumes "uses_env now since send dp" and "ok w" and "0 \<le> n" and "nat n \<le> length msg"
  shows "\<exists>ret t w'. rbind (send msg n w) (\<lambda>(ret, w1).
      if ret \<noteq> 0 then rbind (update_fto_timer dp w1) (\<lambda>(dp2, w2). Inr (ret, dp2, w2))
      else Inr (ret, dp, w1)) = Inr (ret, dp\<lparr>dp_last_msg_sent := t\<rparr>, w') \<and> ok w'"
proof -
  obtain r w1 where send: "send msg n w = Inr (r, w1)" and w1: "ok w1"
    using send_ok [OF assms(2-4)] by auto
  obtain t w2 where "update_fto_timer dp w1 = Inr (dp\<lparr>dp_last_msg_sent := t\<rparr>, w2)" "ok w2"
    using update_fto_timer_ok [OF assms(1) w1] by auto
  then have "r \<noteq> 0 \<Longrightarrow> ?thesis" using send by force
  moreover have "r = 0 \<Longrightarrow> ?thesis"
    using send w1 by (intro exI [of _ r] exI [of _ "dp_last_msg_sent dp"] exI [of _ w1]) simp
  ultimately show ?thesis by blast
qed

lemma create_pending_ok:
  assumes "uses_env now since send dp" and "ok w"
  shows "\<exists>b w'. create_pending dp c w = Inr (b, w') \<and> ok w'"
proof -
  obtain us w' where "since (last_create_msg_sent c) w = (us, w')" by force
  with assms since_ok show ?thesis
    by (auto simp: create_pending_def uses_env_def)
qed

end

text \<open>What a slot keeps when only its timestamp or private state is written.\<close>

lemma conn_wf_timestamp [simp]: "conn_wf i (c\<lparr>last_create_msg_sent := t\<rparr>) = conn_wf i c"
  by (simp add: conn_wf_def)

lemma conn_wf_state:
  "conn_wf i c \<Longrightarrow> conn_datapath c \<Longrightarrow> update_wf (pending_update st) \<Longrightarrow>
   conn_wf i (c\<lparr>conn_state := PLive st\<rparr>)"
  by (simp add: conn_wf_def)

lemma same_flow_writes [simp]:
  "same_flow c (c\<lparr>last_create_msg_sent := t\<rparr>)"
  "same_flow c (c\<lparr>conn_state := s\<rparr>)"
  by (simp_all add: same_flow_def)

lemma create_msg_congAlg: "conn_wf i c \<Longrightarrow> length (cr_congAlg (create_msg_of c)) = 64"
  by (simp add: conn_wf_def create_msg_of_def Let_def MAX_CONG_ALG_SIZE_def)

lemma spine_conn_create_success_ok:
  assumes "dp_wf dp" and "live_slot dp i"
  shows "\<exists>dp'. spine_conn_create_success dp i = Inr dp' \<and> dp_wf dp' \<and> touches i dp dp' \<and>
    live_slot dp' i"
proof -
  from assms(2) obtain st where i: "i < length (slots dp)" and st: "conn_state (slots dp ! i) = PLive st"
    by (auto simp: live_slot_def)
  let ?c = "(slots dp ! i)\<lparr>conn_state := PLive (st\<lparr>sent_create := True\<rparr>)\<rparr>"
  have "conn_wf i (slots dp ! i)" using assms(1) i by (rule dp_wf_slot)
  with st have "conn_wf i ?c" by (intro conn_wf_state) (simp_all add: conn_wf_def)
  with assms(1) i have "dp_wf (dp\<lparr>dp_connections := Some ((slots dp)[i := ?c])\<rparr>)"
    by (rule dp_wf_put)
  with i st show ?thesis
    by (simp add: spine_conn_create_success_def get_spine_priv_state_def touches_put live_slot_def)
qed

context datapath_env
begin

lemma send_conn_create_ok:
  assumes env: "uses_env now since send dp" and w: "ok w" and wf: "dp_wf dp"
    and i: "i < length (slots dp)"
  shows "\<exists>ret dp' w'. send_conn_create dp i w = Inr (ret, dp', w') \<and> ok w' \<and> dp_wf dp' \<and>
    touches i dp dp' \<and> conn_state (slots dp' ! i) = conn_state (slots dp ! i)"
proof -
  let ?c = "slots dp ! i"
  have cwf: "conn_wf i ?c" using wf i by (rule dp_wf_slot)
  obtain b w1 where pend: "create_pending dp ?c w = Inr (b, w1)" and w1: "ok w1"
    using create_pending_ok [OF env w] by blast
  obtain t w2 where now: "now w1 = (t, w2)" by force
  with w1 now_ok have w2: "ok w2" by blast
  let ?c1 = "?c\<lparr>last_create_msg_sent := t\<rparr>"
  let ?dp1 = "dp\<lparr>dp_connections := Some ((slots dp)[i := ?c1])\<rparr>"
  have dp1: "dp_wf ?dp1" "touches i dp ?dp1"
    using wf i cwf by (simp_all add: dp_wf_put touches_put)
  have env1: "uses_env now since send ?dp1"
    using env uses_env_touches [OF dp1(2)] by blast
  obtain msg where msg: "write_create_msg (replicate CREATE_MSG_SIZE 0) (int CREATE_MSG_SIZE)
      (ucast (conn_index ?c)) (create_msg_of ?c) = Inr (96, msg)" and len: "length msg = 96"
    using write_create_msg_ok [of "replicate 96 0"] create_msg_congAlg [OF cwf]
    by (simp add: CREATE_MSG_SIZE_def create_codec.enc_len)
  have "nat 96 \<le> length msg" using len by simp
  then obtain ret t' w' where fin: "rbind (send msg 96 w2) (\<lambda>(ret, w3).
      if ret \<noteq> 0 then rbind (update_fto_timer ?dp1 w3) (\<lambda>(dp2, w4). Inr (ret, dp2, w4))
      else Inr (ret, ?dp1, w3)) = Inr (ret, ?dp1\<lparr>dp_last_msg_sent := t'\<rparr>, w')" and w': "ok w'"
    using send_or_timer_ok [OF env1 w2, of 96 msg] by auto
  have tr: "touches i dp (?dp1\<lparr>dp_last_msg_sent := t'\<rparr>)"
    using dp1(2) touches_timer by (rule touches_trans)
  consider "b" | "\<not> b" "conn_index ?c < 1" | "\<not> b" "\<not> conn_index ?c < 1" by blast
  then show ?thesis
  proof cases
    case 3
    then have "send_conn_create dp i w = Inr (ret, ?dp1\<lparr>dp_last_msg_sent := t'\<rparr>, w')"
      using i pend now msg fin env env1 by (simp add: send_conn_create_def uses_env_def)
    with tr dp1(1) w' i show ?thesis by simp
  qed (use i pend w1 wf in \<open>simp_all add: send_conn_create_def\<close>)
qed

lemma spine_connection_free_ok:
  assumes env: "uses_env now since send dp" and w: "ok w" and wf: "dp_wf dp"
    and i: "live_slot dp i" and sid: "conn_index (slots dp ! i) = sid" "sid \<noteq> 0"
    and few: "unat (dp_max_connections dp) \<le> 65535"
  shows "\<exists>w'. spine_connection_free dp sid w = Inr (dp\<lparr>dp_connections := Some ((slots dp)[i :=
      (slots dp ! i)\<lparr>conn_state := PFreed, conn_index := 0\<rparr>])\<rparr>, w') \<and> ok w'"
proof -
  from i obtain st where il: "i < length (slots dp)" and st: "conn_state (slots dp ! i) = PLive st"
    by (auto simp: live_slot_def)
  have "unat sid = Suc i" using dp_wf_slot [OF wf il] sid by (auto simp: conn_wf_def)
  then have pos: "unat (sid - 1) = i" using sid(2) by (simp add: unat_minus_one)
  have "length (slots dp) = unat (dp_max_connections dp)" using wf by (simp add: dp_wf_def)
  with \<open>unat sid = Suc i\<close> il have inr: "\<not> ucast sid > dp_max_connections dp"
    by (simp add: word_less_nat_alt unat_ucast_up)
  obtain msg where msg: "write_release_msg (replicate REPORT_MSG_SIZE 0) (int RELEASE_MSG_SIZE)
      (ucast sid) = Inr (12, msg)" and len: "length msg = 900"
    using write_release_msg_ok [of "replicate 900 0"]
    by (simp add: REPORT_MSG_SIZE_def RELEASE_MSG_SIZE_def)
  have "nat 12 \<le> length msg" using len by simp
  then obtain r w' where "send msg 12 w = Inr (r, w')" "ok w'"
    using send_ok [OF w, of 12 msg] by auto
  then show ?thesis
    using il st sid pos inr msg env
    by (auto simp: spine_connection_free_def free_spine_priv_state_def get_spine_priv_state_def
        uses_env_def Let_def)
qed

end

section \<open>Starting a connection\<close>

text \<open>The slot a start has claimed and filled in, before user space hears of it.\<close>

definition fresh_conn :: "spine_connection \<Rightarrow> nat \<Rightarrow> nat \<Rightarrow> spine_datapath_info \<Rightarrow> spine_connection" where
  "fresh_conn c j impl info = c\<lparr>conn_index := word_of_nat (Suc j), conn_impl := impl,
     flow_info := info, conn_state := PLive zero_priv_state, conn_datapath := True\<rparr>"

lemma conn_wf_fresh:
  "Suc j \<le> 65535 \<Longrightarrow> length (fi_congAlg info) = MAX_CONG_ALG_SIZE \<Longrightarrow>
   conn_wf j (fresh_conn c j impl info)"
  using unat_sid [of j]
  by (simp add: conn_wf_def fresh_conn_def zero_priv_state_def del: of_nat_Suc)

lemma start_claimed:
  assumes wf: "dp_wf dp" and few: "unat (dp_max_connections dp) \<le> 65535"
    and free: "first_free (slots dp) 0 = Some j" and room: "Suc j < length (slots dp)"
    and alloc: "kcalloc w = (True, w1)"
  shows "spine_connection_start kcalloc dp impl info w =
    (let dp3 = dp\<lparr>dp_connections := Some ((slots dp)[j := fresh_conn (slots dp ! j) j impl info])\<rparr> in
     rbind (send_conn_create dp3 j w1) (\<lambda>(ret', dp4, w2).
       if ret' < 0 then Inr (Some j, dp4, w2)
       else rbind (spine_conn_create_success dp4 j) (\<lambda>dp5. Inr (Some j, dp5, w2))))"
proof -
  have len: "length (slots dp) = unat (dp_max_connections dp)" using wf by (simp add: dp_wf_def)
  have j: "j < length (slots dp)" using first_free_Some [OF free] by simp
  have small: "Suc j \<le> 65535" using room len few by simp
  have inr: "\<not> (ucast (word_of_nat (Suc j) :: u16) :: u64) \<ge> dp_max_connections dp"
    using room len unat_sid [OF small] by (simp add: word_le_nat_alt unat_ucast_up del: of_nat_Suc)
  let ?dp1 = "dp\<lparr>dp_connections := Some (claimed (slots dp) j)\<rparr>"
  have claim: "claim_slot dp = Inr (word_of_nat (Suc j), ?dp1)"
    using claim_slot_eq [OF wf few] free by simp
  have i: "unat ((word_of_nat (Suc j) :: u16) - 1) = j" using small by (rule slot_of_sid)
  have slot: "conn_ref ?dp1 j = Inr ((slots dp ! j)\<lparr>conn_index := word_of_nat (Suc j)\<rparr>)"
    using j by (simp add: claimed_nth)
  show ?thesis
    using claim inr i slot j alloc
    by (simp add: spine_connection_start_def init_spine_priv_state_def Let_def claimed_def
        fresh_conn_def zero_priv_state_def del: of_nat_Suc)
qed

text \<open>The bound is tested after the counter was advanced: the last slot is claimed and lost.\<close>

lemma start_last_slot:
  assumes wf: "dp_wf dp" and few: "unat (dp_max_connections dp) \<le> 65535"
    and free: "first_free (slots dp) 0 = Some j" and last: "Suc j = length (slots dp)"
  shows "spine_connection_start kcalloc dp impl info w =
    Inr (None, dp\<lparr>dp_connections := Some (claimed (slots dp) j)\<rparr>, w)"
proof -
  have len: "length (slots dp) = unat (dp_max_connections dp)" using wf by (simp add: dp_wf_def)
  then have small: "Suc j \<le> 65535" using last few by simp
  have "(ucast (word_of_nat (Suc j) :: u16) :: u64) \<ge> dp_max_connections dp"
    using last len unat_sid [OF small] by (simp add: word_le_nat_alt unat_ucast_up del: of_nat_Suc)
  then show ?thesis
    using claim_slot_eq [OF wf few] free by (simp add: spine_connection_start_def del: of_nat_Suc)
qed

lemma start_full:
  assumes wf: "dp_wf dp" and few: "unat (dp_max_connections dp) \<le> 65535"
    and full: "first_free (slots dp) 0 = None"
  shows "spine_connection_start kcalloc dp impl info w = Inr (None, dp, w)"
proof -
  have len: "length (slots dp) = unat (dp_max_connections dp)" using wf by (simp add: dp_wf_def)
  have "unat (word_of_nat (length (slots dp)) :: u16) = length (slots dp)"
    using len few by (intro unat_word_of_nat_small) simp
  then have "(ucast (word_of_nat (length (slots dp)) :: u16) :: u64) \<ge> dp_max_connections dp"
    using len by (simp add: word_le_nat_alt unat_ucast_up)
  then show ?thesis
    using claim_slot_eq [OF wf few] full by (simp add: spine_connection_start_def)
qed

text \<open>
  When the private state cannot be allocated, the start returns NULL with the slot's index set,
  its private state NULL, and nothing that would free it again.
\<close>

lemma start_alloc_failure:
  assumes wf: "dp_wf dp" and few: "unat (dp_max_connections dp) \<le> 65535"
    and free: "first_free (slots dp) 0 = Some j" and room: "Suc j < length (slots dp)"
    and alloc: "kcalloc w = (False, w1)"
  shows "spine_connection_start kcalloc dp impl info w = Inr (None,
    dp\<lparr>dp_connections := Some ((slots dp)[j := (slots dp ! j)\<lparr>conn_index := word_of_nat (Suc j),
      conn_impl := impl, flow_info := info, conn_state := PNull\<rparr>])\<rparr>, w1)"
proof -
  have len: "length (slots dp) = unat (dp_max_connections dp)" using wf by (simp add: dp_wf_def)
  have j: "j < length (slots dp)" using first_free_Some [OF free] by simp
  have small: "Suc j \<le> 65535" using room len few by simp
  have inr: "\<not> (ucast (word_of_nat (Suc j) :: u16) :: u64) \<ge> dp_max_connections dp"
    using room len unat_sid [OF small] by (simp add: word_le_nat_alt unat_ucast_up del: of_nat_Suc)
  let ?dp1 = "dp\<lparr>dp_connections := Some (claimed (slots dp) j)\<rparr>"
  have claim: "claim_slot dp = Inr (word_of_nat (Suc j), ?dp1)"
    using claim_slot_eq [OF wf few] free by simp
  have i: "unat ((word_of_nat (Suc j) :: u16) - 1) = j" using small by (rule slot_of_sid)
  have slot: "conn_ref ?dp1 j = Inr ((slots dp ! j)\<lparr>conn_index := word_of_nat (Suc j)\<rparr>)"
    using j by (simp add: claimed_nth)
  show ?thesis
    using claim inr i slot j alloc
    by (simp add: spine_connection_start_def init_spine_priv_state_def Let_def claimed_def
        del: of_nat_Suc)
qed

context datapath_env
begin

lemma spine_connection_start_ok:
  assumes env: "uses_env now since send dp" and wf: "dp_wf dp"
    and few: "unat (dp_max_connections dp) \<le> 65535"
    and free: "first_free (slots dp) 0 = Some j" and room: "Suc j < length (slots dp)"
    and alloc: "kcalloc w = (True, w1)" and w1: "ok w1"
    and info: "length (fi_congAlg info) = MAX_CONG_ALG_SIZE"
  shows "\<exists>dp' w'. spine_connection_start kcalloc dp impl info w = Inr (Some j, dp', w') \<and> ok w' \<and>
    dp_wf dp' \<and> live_slot dp' j \<and> uses_env now since send dp' \<and>
    touches j (dp\<lparr>dp_connections := Some ((slots dp)[j := fresh_conn (slots dp ! j) j impl info])\<rparr>) dp'"
proof -
  let ?c = "fresh_conn (slots dp ! j) j impl info"
  let ?dp3 = "dp\<lparr>dp_connections := Some ((slots dp)[j := ?c])\<rparr>"
  have len: "length (slots dp) = unat (dp_max_connections dp)" using wf by (simp add: dp_wf_def)
  have j: "j < length (slots dp)" using first_free_Some [OF free] by simp
  have wf3: "dp_wf ?dp3"
    using wf j info room len few by (intro dp_wf_put conn_wf_fresh) simp_all
  have env3: "uses_env now since send ?dp3" using env by (simp add: uses_env_def)
  obtain ret dp4 w2 where create: "send_conn_create ?dp3 j w1 = Inr (ret, dp4, w2)" and w2: "ok w2"
    and wf4: "dp_wf dp4" and tr4: "touches j ?dp3 dp4"
    and st4: "conn_state (slots dp4 ! j) = conn_state (slots ?dp3 ! j)"
    using send_conn_create_ok [OF env3 w1 wf3, of j] j by auto
  have live4: "live_slot dp4 j"
    using st4 j touches_callbacks(7) [OF tr4] by (simp add: live_slot_def fresh_conn_def)
  obtain dp5 where succ: "spine_conn_create_success dp4 j = Inr dp5" and wf5: "dp_wf dp5"
    and tr5: "touches j dp4 dp5" and live5: "live_slot dp5 j"
    using spine_conn_create_success_ok [OF wf4 live4] by blast
  have tr: "touches j ?dp3 dp5" using tr4 tr5 by (rule touches_trans)
  note eq = start_claimed [of dp j kcalloc w w1 impl info, OF wf few free room alloc]
  show ?thesis
  proof (cases "ret < 0")
    case True
    with create have "spine_connection_start kcalloc dp impl info w = Inr (Some j, dp4, w2)"
      by (simp add: eq Let_def)
    with w2 wf4 live4 tr4 env3 uses_env_touches [OF tr4] show ?thesis by blast
  next
    case False
    with create succ have "spine_connection_start kcalloc dp impl info w = Inr (Some j, dp5, w2)"
      by (simp add: eq Let_def)
    with w2 wf5 live5 tr env3 uses_env_touches [OF tr] show ?thesis by blast
  qed
qed

end

end
