(* ===== verification/Spine_Mailbox.thy ===== *)
theory Spine_Mailbox
  imports Spine_Contract User_Agent
begin

text \<open>
  The mailbox between user space and a congestion-control module: \<open>spine_read_msg\<close> stages
  register updates and measurement requests, \<open>spine_invoke\<close> hands them over and empties the
  mailbox. The lemmas say what a message of the controller stages, when reading one faults, and
  that an invocation under the contract of \<open>cc_module\<close> never does.
\<close>

section \<open>Staging\<close>

definition valid_update :: "UpdateField \<Rightarrow> bool" where
  "valid_update f \<longleftrightarrow> (uf_reg_type f = NONVOLATILE_CONTROL_REG \<or> uf_reg_type f = VOLATILE_CONTROL_REG) \<and>
     unat (uf_reg_index f) < MAX_CONTROL_REG"

text \<open>The specification of staging: the register takes the value and is pending.\<close>

definition apply_update :: "UpdateField \<Rightarrow> staged_update \<Rightarrow> staged_update" where
  "apply_update f up = (let r = unat (uf_reg_index f) in
     up\<lparr>control_registers := (control_registers up)[r := uf_new_value f],
        control_is_pending := (control_is_pending up)[r := True]\<rparr>)"

lemma update_wf_apply [simp]: "update_wf (apply_update f up) = update_wf up"
  by (simp add: update_wf_def apply_update_def Let_def)

lemma update_wf_applies [simp]: "update_wf (fold apply_update fs up) = update_wf up"
  by (induction fs arbitrary: up) simp_all

lemma field_byte0: "(update_field_bytes f @ rest) ! 0 = uf_reg_type f"
proof -
  have "to_le 1 (uf_reg_type f) = [uf_reg_type f]"
    by (simp add: One_nat_def)
  then show ?thesis by (simp add: update_field_bytes_def)
qed

lemma stage_update_encoded:
  assumes "update_wf up" and "uf_reg_type f = NONVOLATILE_CONTROL_REG \<or> uf_reg_type f = VOLATILE_CONTROL_REG"
  shows "stage_update up (update_field_bytes f @ rest) =
    (if unat (uf_reg_index f) < MAX_CONTROL_REG then Inr (SPINE_OK, apply_update f up)
     else Inl Out_Of_Bounds)"
proof -
  have b0: "array_get (update_field_bytes f @ rest) 0 = Inr (uf_reg_type f)"
    using field_byte0 [of f rest] by simp
  have img: "memcpy_from (update_field_bytes f @ rest) 0 13 = Inr (update_field_bytes f)"
    by (simp add: memcpy_from_def)
  have dec: "update_field_of_bytes (update_field_bytes f) = f"
    using update_codec.dec_enc by simp
  show ?thesis
    using assms b0 img dec
    by (auto simp: stage_update_def sizeof_UpdateField_def Let_def update_wf_def apply_update_def)
qed

lemma stage_multiple_updates_encoded:
  "update_wf up \<Longrightarrow> list_all valid_update fs \<Longrightarrow>
   stage_multiple_updates up (length fs) (concat (map update_field_bytes fs) @ rest) =
     Inr (SPINE_OK, fold apply_update fs up)"
proof (induction fs arbitrary: up)
  case Nil
  then show ?case by simp
next
  case (Cons f fs)
  have "stage_update up (update_field_bytes f @ concat (map update_field_bytes fs) @ rest) =
      Inr (SPINE_OK, apply_update f up)"
    using Cons.prems by (subst stage_update_encoded) (auto simp: valid_update_def)
  with Cons show ?case by (simp add: SPINE_OK_def sizeof_UpdateField_def)
qed

text \<open>Staging never changes the shape of the mailbox, whatever the message.\<close>

lemma stage_update_wf: "update_wf up \<Longrightarrow> stage_update up msg = Inr (ret, up') \<Longrightarrow> update_wf up'"
  by (auto simp: stage_update_def rbind_eq_Inr array_set_eq_Inr update_wf_def Let_def
      split: if_splits)

lemma stage_multiple_updates_wf:
  "update_wf up \<Longrightarrow> stage_multiple_updates up n msg = Inr (ret, up') \<Longrightarrow> update_wf up'"
proof (induction up n msg rule: stage_multiple_updates.induct)
  case (1 up msg)
  then show ?case by simp
next
  case (2 up n msg)
  then show ?case
    by (fastforce simp: rbind_eq_Inr split: if_splits dest: stage_update_wf)
qed

section \<open>Reading a message\<close>

lemma turn_off_frame [simp]:
  "slots (turn_off_fto_timer dp) = slots dp" "dp_wf (turn_off_fto_timer dp) = dp_wf dp"
  "dp_max_connections (turn_off_fto_timer dp) = dp_max_connections dp"
  by (simp_all add: turn_off_fto_timer_def)

text \<open>The part of \<open>spine_read_msg\<close> before the dispatch on the message type.\<close>

lemma read_msg_dispatch:
  assumes wf: "dp_wf dp" and few: "unat (dp_max_connections dp) \<le> 65535"
    and ty: "hdr_Type h \<in> {STATE, PARAM, UPDATE_FIELDS, MEASURE}"
    and size: "unat (hdr_Len h) \<le> BIGGEST_MSG_SIZE" "int (unat (hdr_Len h)) \<le> bufsize" "bufsize < 2 ^ 31"
    and i: "i < length (slots dp)" "conn_index (slots dp ! i) = ucast (hdr_SocketId h)"
      "conn_index (slots dp ! i) \<noteq> 0"
  shows "spine_read_msg cs dp (header_bytes h @ body) bufsize =
    (let dp1 = turn_off_fto_timer dp in
     if hdr_Type h = UPDATE_FIELDS then read_update_fields cs dp1 i h body
     else if hdr_Type h = MEASURE then read_measure_request cs dp1 i h body
     else Inr (SPINE_OK, dp1))"
proof -
  have hdr: "read_header (header_bytes h @ body) = Inr (8, h)"
    using ty by (simp add: read_header_header_bytes)
  have nonneg: "0 \<le> bufsize"
    using of_nat_0_le_iff size(2) by (rule order_trans)
  then have "unat (word_of_int bufsize :: u32) = nat bufsize"
    using size(3) by (simp add: unat_eq_nat_uint uint_word_of_int)
  moreover have "unat (hdr_Len h) \<le> nat bufsize"
    using nat_mono [OF size(2)] by (simp only: nat_int)
  ultimately have fits: "\<not> ucast (hdr_Len h) > (word_of_int bufsize :: u32)"
    by (simp add: word_less_nat_alt unat_ucast_up)
  have "spine_connection_lookup (turn_off_fto_timer dp) (ucast (hdr_SocketId h)) = Inr (Some i)"
    using i lookup_used_slot [of "turn_off_fto_timer dp" i] wf few by simp
  then show ?thesis
    using hdr nonneg fits size(1) by (simp add: spine_read_msg_def Let_def)
qed

text \<open>The slot \<open>i\<close> with its mailbox replaced.\<close>

definition with_pending :: "'w spine_datapath \<Rightarrow> nat \<Rightarrow> staged_update \<Rightarrow> 'w spine_datapath" where
  "with_pending dp i up = (case conn_state (slots dp ! i) of
     PLive st \<Rightarrow> dp\<lparr>dp_connections := Some ((slots dp)[i := (slots dp ! i)
                      \<lparr>conn_state := PLive (st\<lparr>pending_update := up\<rparr>)\<rparr>])\<rparr>
   | _ \<Rightarrow> dp)"

definition pending_of :: "'w spine_datapath \<Rightarrow> nat \<Rightarrow> staged_update" where
  "pending_of dp i = (case conn_state (slots dp ! i) of
     PLive st \<Rightarrow> pending_update st | _ \<Rightarrow> zero_update)"

lemma put_pending_eq:
  "live_slot dp i \<Longrightarrow> put_pending dp i up = Inr (with_pending dp i up)"
  by (auto simp: live_slot_def put_pending_def with_pending_def get_spine_priv_state_def)

lemma pending_with_pending [simp]:
  "live_slot dp i \<Longrightarrow> pending_of (with_pending dp i up) i = up"
  by (auto simp: live_slot_def pending_of_def with_pending_def)

lemma live_with_pending [simp]: "live_slot dp i \<Longrightarrow> live_slot (with_pending dp i up) i"
  by (auto simp: live_slot_def with_pending_def)

lemma touches_with_pending: "live_slot dp i \<Longrightarrow> touches i dp (with_pending dp i up)"
  by (auto simp: live_slot_def with_pending_def intro!: touches_put)

lemma dp_wf_with_pending:
  assumes "dp_wf dp" and "live_slot dp i" and "update_wf up"
  shows "dp_wf (with_pending dp i up)"
proof -
  from assms(2) obtain st where i: "i < length (slots dp)" and st: "conn_state (slots dp ! i) = PLive st"
    by (auto simp: live_slot_def)
  have "conn_wf i (slots dp ! i)" using assms(1) i by (rule dp_wf_slot)
  with st assms(3) have "conn_wf i ((slots dp ! i)\<lparr>conn_state := PLive (st\<lparr>pending_update := up\<rparr>)\<rparr>)"
    by (simp add: conn_wf_def)
  with assms(1) i st show ?thesis by (simp add: with_pending_def dp_wf_put)
qed

lemma pending_wf: "dp_wf dp \<Longrightarrow> live_slot dp i \<Longrightarrow> update_wf (pending_of dp i)"
  using dp_wf_slot [of dp i] by (auto simp: live_slot_def pending_of_def conn_wf_def)

lemma live_slot_bound: "live_slot dp i \<Longrightarrow> i < length (slots dp)"
  by (simp add: live_slot_def)

lemma live_turn_off [simp]: "live_slot (turn_off_fto_timer dp) i = live_slot dp i"
  by (simp add: live_slot_def)

text \<open>The first byte of the count is the count while it is below 128.\<close>

lemma check_update_count:
  assumes "length fs < 128" and "hdr_Type h = UPDATE_FIELDS"
  shows "check_update_fields_msg cs h n0 (to_le 4 (word_of_nat (length fs) :: u32) @ rest) =
    Inr (4, word_of_nat (length fs))"
proof -
  let ?n = "word_of_nat (length fs) :: u32"
  have n: "unat ?n = length fs" using assms(1) by (intro unat_word_of_nat_small) simp
  have b: "unat (ucast ?n :: u8) = length fs"
    using n assms(1) by (simp add: unsigned_ucast_eq take_bit_nat_eq_self_iff)
  then have "(ucast ?n :: u8) < 128" using assms(1) by (simp add: word_less_nat_alt)
  then have "char_to_u32 cs (ucast ?n) = ucast (ucast ?n :: u8)" by (rule char_to_u32_small)
  moreover have "(ucast (ucast ?n :: u8) :: u32) = ?n"
    using b n by (simp add: word_unat_eq_iff unat_ucast_up)
  ultimately have c: "char_to_u32 cs (ucast ?n) = ?n" by simp
  have "\<not> ?n > MAX_MUTABLE_REG"
    using n assms(1) by (simp add: MAX_MUTABLE_REG_def word_less_nat_alt)
  with assms(2) c show ?thesis
    by (simp add: check_update_fields_msg_def to_le4_first Let_def)
qed

lemma read_update_fields_ok:
  assumes live: "live_slot dp i" and wf: "dp_wf dp"
    and fs: "0 < length fs" "length fs < 128" "list_all valid_update fs"
    and ty: "hdr_Type h = UPDATE_FIELDS"
  shows "read_update_fields cs dp i h
      (to_le 4 (word_of_nat (length fs) :: u32) @ concat (map update_field_bytes fs) @ rest) =
    Inr (SPINE_OK, with_pending dp i (fold apply_update fs (pending_of dp i)))"
proof -
  from live obtain st where i: "i < length (slots dp)" and st: "conn_state (slots dp ! i) = PLive st"
    by (auto simp: live_slot_def)
  have up: "update_wf (pending_update st)"
    using pending_wf [OF wf live] st by (simp add: pending_of_def)
  let ?n = "word_of_nat (length fs) :: u32"
  have n: "unat ?n = length fs" using fs(2) by (intro unat_word_of_nat_small) simp
  then have "?n \<noteq> 0" using fs(1) by auto
  then show ?thesis
    using i st live n stage_multiple_updates_encoded [OF up fs(3)]
    by (simp add: read_update_fields_def check_update_count [OF fs(2) ty] put_pending_eq
        get_spine_priv_state_def pending_of_def SPINE_OK_def del: to_le.simps)
qed

lemma packet_len: "length fs < 128 \<Longrightarrow> unat (word_of_nat (12 + length fs * 13) :: u16) = 12 + length fs * 13"
  by (intro unat_word_of_nat_small) simp

lemma read_update_packet_slot:
  assumes wf: "dp_wf dp" and few: "unat (dp_max_connections dp) \<le> 65535"
    and i: "i < length (slots dp)" and sid: "conn_index (slots dp ! i) = ucast sid" "ucast sid \<noteq> (0 :: u16)"
    and n: "length fs < 128"
    and size: "int (length (update_packet sid fs)) \<le> bufsize" "bufsize < 2 ^ 31"
  shows "spine_read_msg cs dp (update_packet sid fs @ rest) bufsize =
    read_update_fields cs (turn_off_fto_timer dp) i
      \<lparr>hdr_Type = UPDATE_FIELDS, hdr_Len = word_of_nat (12 + length fs * 13), hdr_SocketId = sid\<rparr>
      (to_le 4 (word_of_nat (length fs) :: u32) @ concat (map update_field_bytes fs) @ rest)"
proof -
  let ?h = "\<lparr>hdr_Type = UPDATE_FIELDS, hdr_Len = word_of_nat (12 + length fs * 13), hdr_SocketId = sid\<rparr>"
  have len: "unat (hdr_Len ?h) = 12 + length fs * 13" using packet_len [OF n] by simp
  have "length (update_packet sid fs) = 12 + length fs * 13" by (simp add: update_packet_eq)
  with size len have "int (unat (hdr_Len ?h)) \<le> bufsize" by simp
  moreover have "unat (hdr_Len ?h) \<le> BIGGEST_MSG_SIZE" using len n by (simp add: BIGGEST_MSG_SIZE_def)
  ultimately show ?thesis
    using i sid size(2) read_msg_dispatch [OF wf few, of ?h bufsize i]
    by (simp add: update_packet_eq Let_def)
qed

lemmas read_update_packet = read_update_packet_slot [OF _ _ live_slot_bound]

lemma stage_out_of_bounds:
  assumes "update_wf up" and "list_all valid_update fs"
    and "uf_reg_type f = NONVOLATILE_CONTROL_REG \<or> uf_reg_type f = VOLATILE_CONTROL_REG"
    and "MAX_CONTROL_REG \<le> unat (uf_reg_index f)"
  shows "stage_multiple_updates up (Suc (length fs + k))
    (concat (map update_field_bytes fs) @ update_field_bytes f @ rest) = Inl Out_Of_Bounds"
  using assms(1,2)
proof (induction fs arbitrary: up)
  case Nil
  then show ?case using assms(3,4) by (simp add: stage_update_encoded)
next
  case (Cons g fs)
  let ?tail = "concat (map update_field_bytes fs) @ update_field_bytes f @ rest"
  have "stage_update up (update_field_bytes g @ ?tail) = Inr (SPINE_OK, apply_update g up)"
    using Cons.prems by (subst stage_update_encoded) (auto simp: valid_update_def)
  moreover have "stage_multiple_updates (apply_update g up) (Suc (length fs + k)) ?tail = Inl Out_Of_Bounds"
    using Cons by simp
  ultimately show ?case by (simp add: SPINE_OK_def sizeof_UpdateField_def)
qed

text \<open>A packet of the controller, as a whole.\<close>

lemma pending_turn_off [simp]: "pending_of (turn_off_fto_timer dp) i = pending_of dp i"
  by (simp add: pending_of_def)

lemma read_valid_update_packet:
  assumes wf: "dp_wf dp" and few: "unat (dp_max_connections dp) \<le> 65535" and live: "live_slot dp i"
    and sid: "conn_index (slots dp ! i) = ucast sid" "(ucast sid :: u16) \<noteq> 0"
    and fs: "0 < length fs" "length fs < 128" "list_all valid_update fs"
    and size: "int (length (update_packet sid fs)) \<le> bufsize" "bufsize < 2 ^ 31"
  shows "spine_read_msg cs dp (update_packet sid fs @ rest) bufsize =
    Inr (SPINE_OK, with_pending (turn_off_fto_timer dp) i (fold apply_update fs (pending_of dp i)))"
proof -
  let ?dp = "turn_off_fto_timer dp"
  have dp: "live_slot ?dp i" "dp_wf ?dp" using wf live by simp_all
  show ?thesis
    unfolding read_update_packet [OF wf few live sid fs(2) size] pending_turn_off [of dp i, symmetric]
    by (rule read_update_fields_ok [OF dp fs]) simp
qed

text \<open>A request packet: only the low byte of the request id is read.\<close>

definition request_update :: "bool \<Rightarrow> u32 \<Rightarrow> staged_update \<Rightarrow> staged_update" where
  "request_update cs r up = up\<lparr>measure_is_pending := True,
     measure_registers := ucast (char_to_u32 cs (ucast r))\<rparr>"

lemma measure_packet_eq:
  "measure_packet sid r = header_bytes \<lparr>hdr_Type = MEASURE, hdr_Len = 12, hdr_SocketId = sid\<rparr> @ to_le 4 r"
  by (simp add: measure_packet_def MeasureRequestMsg_serialize_def header_same_image
      NL_MEASURE_def MEASURE_def Let_def)

lemma read_measure_packet:
  assumes wf: "dp_wf dp" and few: "unat (dp_max_connections dp) \<le> 65535" and live: "live_slot dp i"
    and sid: "conn_index (slots dp ! i) = ucast sid" "(ucast sid :: u16) \<noteq> 0"
    and size: "12 \<le> bufsize" "bufsize < 2 ^ 31"
  shows "spine_read_msg cs dp (measure_packet sid r) bufsize =
    Inr (SPINE_OK, with_pending (turn_off_fto_timer dp) i (request_update cs r (pending_of dp i)))"
proof -
  let ?h = "\<lparr>hdr_Type = MEASURE, hdr_Len = 12, hdr_SocketId = sid\<rparr>"
  let ?dp = "turn_off_fto_timer dp"
  from live obtain st where i: "i < length (slots dp)" and st: "conn_state (slots dp ! i) = PLive st"
    by (auto simp: live_slot_def)
  have live': "live_slot ?dp i" using live by simp
  have "spine_read_msg cs dp (header_bytes ?h @ to_le 4 r) bufsize =
      read_measure_request cs ?dp i ?h (to_le 4 r)"
    using i sid size by (subst read_msg_dispatch [OF wf few, where i = i])
      (simp_all add: c_consts Let_def del: to_le.simps)
  also have "\<dots> = Inr (SPINE_OK, with_pending ?dp i (request_update cs r (pending_of dp i)))"
    using i st put_pending_eq [OF live']
    by (simp add: read_measure_request_def check_measure_fields_msg_def to_le4_first
        get_spine_priv_state_def stage_measure_request_def request_update_def pending_of_def Let_def)
  finally show ?thesis by (simp add: measure_packet_eq)
qed

text \<open>A packet whose id leads nowhere.\<close>

lemma read_unknown:
  assumes "spine_connection_lookup (turn_off_fto_timer dp) (ucast (hdr_SocketId h)) = Inr None"
  shows "\<exists>ret dp'. spine_read_msg cs dp (header_bytes h @ body) bufsize = Inr (ret, dp') \<and>
    (dp' = dp \<or> dp' = turn_off_fto_timer dp)"
  using assms by (auto simp: spine_read_msg_def read_header_header_bytes Let_def)

text \<open>What a read can do to the datapath, whatever the bytes are.\<close>

lemma put_pending_Inr:
  "put_pending dp i up = Inr dp' \<Longrightarrow> i < length (slots dp) \<Longrightarrow>
   live_slot dp i \<and> dp' = with_pending dp i up"
  by (auto simp: put_pending_def rbind_eq_Inr live_slot_def with_pending_def get_spine_priv_state_def)

lemma read_update_fields_frame:
  assumes wf: "dp_wf dp" and read: "read_update_fields cs dp i h msg = Inr (ret, dp')"
  shows "dp' = dp \<or> (\<exists>up. live_slot dp i \<and> update_wf up \<and> dp' = with_pending dp i up)"
proof (cases "i < length (slots dp)")
  case True
  have "\<exists>up. live_slot dp i \<and> update_wf up \<and> dp' = with_pending dp i up" if "dp' \<noteq> dp"
  proof -
    from that read True obtain st n r up where st: "conn_state (slots dp ! i) = PLive st"
      and stage: "stage_multiple_updates (pending_update st) n (drop r msg) = Inr up"
      and put: "put_pending dp i (snd up) = Inr dp'"
      by (auto simp: read_update_fields_def rbind_eq_Inr get_spine_priv_state_def split: if_splits)
    then have "live_slot dp i" using True by (simp add: live_slot_def)
    moreover have "update_wf (pending_update st)"
      using pending_wf [OF wf \<open>live_slot dp i\<close>] st by (simp add: pending_of_def)
    then have "update_wf (snd up)"
      using stage stage_multiple_updates_wf by (cases up) fastforce
    ultimately show "\<exists>up. live_slot dp i \<and> update_wf up \<and> dp' = with_pending dp i up"
      using put_pending_Inr [OF put True] by blast
  qed
  then show ?thesis by blast
next
  case False
  with read show ?thesis
    using conn_ref_oob [of dp i] by (auto simp: read_update_fields_def rbind_eq_Inr is_ok_iff split: if_splits)
qed

lemma update_wf_measure [simp]:
  "update_wf (up\<lparr>measure_is_pending := b, measure_registers := r\<rparr>) = update_wf up"
  by (simp add: update_wf_def)

lemma read_measure_request_frame:
  assumes wf: "dp_wf dp" and read: "read_measure_request cs dp i h msg = Inr (ret, dp')"
  shows "dp' = dp \<or> (\<exists>up. live_slot dp i \<and> update_wf up \<and> dp' = with_pending dp i up)"
proof (cases "i < length (slots dp)")
  case True
  have "\<exists>up. live_slot dp i \<and> update_wf up \<and> dp' = with_pending dp i up" if "dp' \<noteq> dp"
  proof -
    from that read True obtain st r where st: "conn_state (slots dp ! i) = PLive st"
      and put: "put_pending dp i (snd (stage_measure_request (pending_update st) r)) = Inr dp'"
      by (auto simp: read_measure_request_def rbind_eq_Inr get_spine_priv_state_def Let_def
          case_prod_beta split: if_splits)
    then have live: "live_slot dp i" using True by (simp add: live_slot_def)
    have "update_wf (pending_update st)"
      using pending_wf [OF wf live] st by (simp add: pending_of_def)
    then have "update_wf (snd (stage_measure_request (pending_update st) r))"
      by (simp add: stage_measure_request_def)
    with live show "\<exists>up. live_slot dp i \<and> update_wf up \<and> dp' = with_pending dp i up"
      using put_pending_Inr [OF put True] by blast
  qed
  then show ?thesis by blast
next
  case False
  with read show ?thesis
    using conn_ref_oob [of dp i] by (auto simp: read_measure_request_def rbind_eq_Inr is_ok_iff split: if_splits)
qed

lemma read_msg_cases:
  assumes "spine_read_msg cs dp buf bufsize = Inr (ret, dp')"
  shows "dp' = dp \<or> dp' = turn_off_fto_timer dp \<or>
    (\<exists>i h msg. spine_connection_lookup (turn_off_fto_timer dp)
        (ucast (hdr_SocketId (header_of_bytes (take 8 buf)))) = Inr (Some i) \<and>
      (read_update_fields cs (turn_off_fto_timer dp) i h msg = Inr (ret, dp') \<or>
       read_measure_request cs (turn_off_fto_timer dp) i h msg = Inr (ret, dp')))"
proof -
  from assms obtain r h where hdr: "read_header buf = Inr (r, h)"
    by (auto simp: spine_read_msg_def rbind_eq_Inr)
  then have h: "h = header_of_bytes (take 8 buf)"
    by (auto simp: read_header_def rbind_eq_Inr memcpy_from_def sizeof_header_def Let_def split: if_splits)
  show ?thesis
    using assms unfolding h [symmetric]
    by (auto simp: spine_read_msg_def hdr rbind_eq_Inr Let_def split: if_splits option.splits)
qed

section \<open>Invocation\<close>

lemma collect_params_eq:
  "length ps = length rs \<Longrightarrow> collect_params ps rs = take (length (takeWhile id ps)) rs"
  by (induction ps rs rule: list_induct2) simp_all

lemma length_collect_params: "length (collect_params ps rs) \<le> length rs"
  by (induction ps rs rule: collect_params.induct) simp_all

lemma dec_digits_bound: "0 < k \<Longrightarrow> n < 10 ^ k \<Longrightarrow> dec_digits n \<le> k"
proof (induction k arbitrary: n)
  case 0
  then show ?case by simp
next
  case (Suc k)
  show ?case
  proof (cases "n < 10")
    case True
    then show ?thesis by (simp add: dec_digits.simps)
  next
    case False
    with Suc.prems have k: "0 < k" by (cases k) auto
    have "n div 10 < 10 ^ k" using Suc.prems(2) by (simp add: less_mult_imp_div_less mult.commute)
    with Suc.IH [OF k] have "dec_digits (n div 10) \<le> k" by blast
    with False show ?thesis by (simp add: dec_digits.simps [of n])
  qed
qed

lemma llu_len_le: "llu_len x \<le> 22"
proof -
  have "unat x < 2 ^ 64" using unsigned_less [of x] by simp
  then have "unat x < 10 ^ 20" by simp
  then have "dec_digits (unat x) \<le> 20" by (intro dec_digits_bound) simp_all
  then show ?thesis by (simp add: llu_len_def)
qed

text \<open>The print buffer has room for 46 values; an invocation prints at most 16.\<close>

lemma print_measurements_ok:
  "n + length xs * 22 < 1024 \<Longrightarrow> \<exists>m. print_measurements xs n = Inr m \<and> m \<le> n + length xs * 22"
proof (induction xs arbitrary: n)
  case Nil
  then show ?case by simp
next
  case (Cons x xs)
  have "llu_len x \<le> 22" by (rule llu_len_le)
  with Cons.prems Cons.IH [of "n + llu_len x"] show ?case by fastforce
qed

section \<open>The contract of a congestion-control module\<close>

text \<open>
  What the library relies on in the two callbacks of a module, for the connection whose
  datapath object is \<open>k\<close>: they return, keep the world good, and a fetch fills at most the 16
  elements of the caller's array.
\<close>

definition uses_cc ::
  "'w set_params_fn \<Rightarrow> 'w fetch_fn option \<Rightarrow> 'w spine_datapath \<Rightarrow> bool" where
  "uses_cc setp fetchm dp \<longleftrightarrow> dp_set_params dp = Some setp \<and> dp_fetch_measurements dp = fetchm"

lemma uses_cc_touches: "touches i dp dp' \<Longrightarrow> uses_cc setp fetchm dp' = uses_cc setp fetchm dp"
  by (simp add: uses_cc_def touches_callbacks)

locale cc_module = datapath_env now since send ok
  for now :: "'w \<Rightarrow> u64 \<times> 'w" and since send and ok :: "'w \<Rightarrow> bool" +
  fixes setp :: "'w set_params_fn"
    and fetchm :: "'w fetch_fn option"
    and k :: nat
  assumes setp_ok: "ok w \<Longrightarrow> conn_impl c = k \<Longrightarrow> ps \<noteq> [] \<Longrightarrow> length ps \<le> MAX_CONTROL_REG \<Longrightarrow>
      \<exists>w'. setp c ps (word_of_nat (length ps)) w = Inr w' \<and> ok w'"
    and fetch_ok: "fetchm = Some fetch \<Longrightarrow> ok w \<Longrightarrow> conn_impl c = k \<Longrightarrow>
      length ms = MAX_MEASUREMENT_FIELDS \<Longrightarrow>
      \<exists>ms' n w'. fetch c ms 0 r w = Inr (ms', n, w') \<and> length ms' = MAX_MEASUREMENT_FIELDS \<and>
        unat n \<le> MAX_MEASUREMENT_FIELDS \<and> ok w'"
begin

lemma enforce_params_ok:
  assumes "uses_cc setp fetchm dp" and "ok w" and "conn_impl c = k" and "length ps \<le> MAX_CONTROL_REG"
  shows "\<exists>w'. enforce_params dp c ps w = Inr w' \<and> ok w'"
  using assms setp_ok [of w c ps] by (cases "ps = []") (auto simp: enforce_params_def uses_cc_def)

lemma send_measurement_ok:
  assumes env: "uses_env now since send dp" and w: "ok w" and i: "i < length (slots dp)"
    and ms: "length ms = MAX_MEASUREMENT_FIELDS" and n: "unat n \<le> MAX_MEASUREMENT_FIELDS"
  shows "\<exists>ret t w'. send_measurement dp i req ms n w = Inr (ret, dp\<lparr>dp_last_msg_sent := t\<rparr>, w') \<and> ok w'"
proof (cases "conn_index (slots dp ! i) < 1")
  case True
  then have "send_measurement dp i req ms n w =
      Inr (SPINE_CONNECTION_NOT_INITIALIZED, dp\<lparr>dp_last_msg_sent := dp_last_msg_sent dp\<rparr>, w)"
    using i by (simp add: send_measurement_def)
  with w show ?thesis by blast
next
  case False
  have n': "unat n \<le> 110" "unat n \<le> length ms"
    using ms n by (simp_all add: MAX_MEASUREMENT_FIELDS_def)
  obtain msg where msg: "write_measure_msg (replicate REPORT_MSG_SIZE 0) (int REPORT_MSG_SIZE)
      (ucast (conn_index (slots dp ! i))) req (Some ms) n = Inr (16 + int (unat n) * 8, msg)"
    and len: "length msg = 900"
    using write_measure_msg_ok [OF n', of "replicate 900 0"] n' by (simp add: REPORT_MSG_SIZE_def)
  have "16 + int (unat n) * 8 \<le> 900" using n'(1) by linarith
  then have "nat (16 + int (unat n) * 8) \<le> length msg" using len by (simp only: nat_le_iff)
  then obtain ret t w' where "rbind (send msg (16 + int (unat n) * 8) w) (\<lambda>(ret, w1).
      if ret \<noteq> 0 then rbind (update_fto_timer dp w1) (\<lambda>(dp2, w2). Inr (ret, dp2, w2))
      else Inr (ret, dp, w1)) = Inr (ret, dp\<lparr>dp_last_msg_sent := t\<rparr>, w')" and w': "ok w'"
    using send_or_timer_ok [OF env w, of "16 + int (unat n) * 8" msg] by auto
  with False i msg env have "send_measurement dp i req ms n w = Inr (ret, dp\<lparr>dp_last_msg_sent := t\<rparr>, w')"
    by (simp add: send_measurement_def uses_env_def)
  with w' show ?thesis by blast
qed

lemma answer_measure_request_ok:
  assumes env: "uses_env now since send dp" and cc: "uses_cc setp fetchm dp" and w: "ok w"
    and i: "i < length (slots dp)" and c: "conn_impl c = k"
  shows "\<exists>ret t w'. answer_measure_request dp i c up w =
    Inr (ret, dp\<lparr>dp_last_msg_sent := t\<rparr>, w') \<and> ok w'"
proof (cases "measure_is_pending up \<and> dp_fetch_measurements dp \<noteq> None")
  case False
  then have "answer_measure_request dp i c up w = Inr (0, dp\<lparr>dp_last_msg_sent := dp_last_msg_sent dp\<rparr>, w)"
    by (auto simp: answer_measure_request_def Let_def split: option.splits)
  with w show ?thesis by blast
next
  case True
  then obtain fetch where f: "dp_fetch_measurements dp = Some fetch" "fetchm = Some fetch"
    using cc by (auto simp: uses_cc_def)
  obtain ms n w1 where ms: "fetch c (replicate MAX_MEASUREMENT_FIELDS 0) 0 (ucast (measure_registers up)) w = Inr (ms, n, w1)"
    and len: "length ms = MAX_MEASUREMENT_FIELDS" and n: "unat n \<le> MAX_MEASUREMENT_FIELDS" and w1: "ok w1"
    using fetch_ok [OF f(2) w c, of "replicate MAX_MEASUREMENT_FIELDS 0" "ucast (measure_registers up)"]
    by auto
  obtain m where pr: "print_measurements (take (unat n) ms) 0 = Inr m"
    using print_measurements_ok [of 0 "take (unat n) ms"] len n by (auto simp: MAX_MEASUREMENT_FIELDS_def)
  obtain ret t w' where sm: "send_measurement dp i (ucast (measure_registers up)) ms n w1 =
      Inr (ret, dp\<lparr>dp_last_msg_sent := t\<rparr>, w')" and w': "ok w'"
    using send_measurement_ok [OF env w1 i len n] by blast
  show ?thesis
  proof (cases "n > 0")
    case True
    then have "answer_measure_request dp i c up w = Inr (ret, dp\<lparr>dp_last_msg_sent := t\<rparr>, w')"
      using \<open>measure_is_pending up \<and> _\<close> f ms len n pr sm by (simp add: answer_measure_request_def)
    with w' show ?thesis by blast
  next
    case False
    then have "answer_measure_request dp i c up w = Inr (0, dp\<lparr>dp_last_msg_sent := dp_last_msg_sent dp\<rparr>, w1)"
      using \<open>measure_is_pending up \<and> _\<close> f ms by (simp add: answer_measure_request_def)
    with w1 show ?thesis by blast
  qed
qed

lemma spine_invoke_ok:
  assumes env: "uses_env now since send dp" and cc: "uses_cc setp fetchm dp" and w: "ok w"
    and wf: "dp_wf dp" and live: "live_slot dp i" and impl: "conn_impl (slots dp ! i) = k"
  shows "\<exists>ret dp' w'. spine_invoke dp (Some i) w = Inr (ret, dp', w') \<and> ok w' \<and> dp_wf dp' \<and>
    touches i dp dp' \<and> live_slot dp' i"
proof -
  from live obtain st where i: "i < length (slots dp)" and st: "conn_state (slots dp ! i) = PLive st"
    by (auto simp: live_slot_def)
  let ?c = "slots dp ! i" and ?up = "pending_update st"
  have cwf: "conn_datapath ?c" "update_wf ?up"
    using dp_wf_slot [OF wf i] st by (auto simp: conn_wf_def)
  show ?thesis
  proof (cases "sent_create st")
    case False
    obtain ret dp1 w1 where create: "send_conn_create dp i w = Inr (ret, dp1, w1)" and w1: "ok w1"
      and wf1: "dp_wf dp1" and tr1: "touches i dp dp1"
      and st1: "conn_state (slots dp1 ! i) = conn_state (slots dp ! i)"
      using send_conn_create_ok [OF env w wf i] by blast
    have live1: "live_slot dp1 i"
      using st1 st i touches_callbacks(7) [OF tr1] by (simp add: live_slot_def)
    obtain dp2 where succ: "spine_conn_create_success dp1 i = Inr dp2" and wf2: "dp_wf dp2"
      and tr2: "touches i dp1 dp2" and live2: "live_slot dp2 i"
      using spine_conn_create_success_ok [OF wf1 live1] by blast
    have tr: "touches i dp dp2" using tr1 tr2 by (rule touches_trans)
    show ?thesis
      using False i st cwf create succ w1 wf1 wf2 tr1 tr live1 live2
      by (cases "ret < 0") (simp_all add: spine_invoke_def get_spine_priv_state_def)
  next
    case True
    let ?ps = "collect_params (control_is_pending ?up) (control_registers ?up)"
    have ps: "length ?ps \<le> MAX_CONTROL_REG"
      using length_collect_params cwf(2) by (simp add: update_wf_def) (metis length_collect_params)
    obtain w1 where setp: "enforce_params dp ?c ?ps w = Inr w1" and w1: "ok w1"
      using enforce_params_ok [OF cc w impl ps] by blast
    obtain ret t w2 where ans: "answer_measure_request dp i ?c ?up w1 = Inr (ret, dp\<lparr>dp_last_msg_sent := t\<rparr>, w2)"
      and w2: "ok w2"
      using answer_measure_request_ok [OF env cc w1 i impl] by blast
    let ?dp1 = "dp\<lparr>dp_last_msg_sent := t\<rparr>"
    have live1: "live_slot ?dp1 i" using live by (simp add: live_slot_def)
    have "touches i ?dp1 (with_pending ?dp1 i zero_update)" using live1 by (rule touches_with_pending)
    then have "touches i dp (with_pending ?dp1 i zero_update)"
      by (rule touches_trans [OF touches_timer])
    moreover have "dp_wf (with_pending ?dp1 i zero_update)"
      using wf live1 by (intro dp_wf_with_pending) simp_all
    ultimately show ?thesis
      using True i st cwf setp ans w2 live1 put_pending_eq [OF live1, of zero_update]
      by (simp add: spine_invoke_def get_spine_priv_state_def Let_def)
  qed
qed

end

text \<open>
  What an invocation does, once the create message is out: it enforces the parameters staged in
  the registers from 0 on without a gap, answers a pending request, and empties the mailbox.
\<close>

lemma spine_invoke_announced:
  assumes i: "i < length (slots dp)" and st: "conn_state (slots dp ! i) = PLive st"
    and created: "sent_create st" and linked: "conn_datapath (slots dp ! i)"
  shows "spine_invoke dp (Some i) w =
    rbind (enforce_params dp (slots dp ! i) (collect_params (control_is_pending (pending_update st))
        (control_registers (pending_update st))) w) (\<lambda>w1.
    rbind (answer_measure_request dp i (slots dp ! i) (pending_update st) w1) (\<lambda>(ret, dp1, w2).
    rbind (put_pending dp1 i zero_update) (\<lambda>dp2. Inr (ret, dp2, w2))))"
  using assms by (simp add: spine_invoke_def get_spine_priv_state_def Let_def)

end
