(* ===== verification/Kernel.thy ===== *)
theory Kernel
  imports Spine_State
begin

text \<open>
  The part of the TCP stack's state the modules read and write, and the kernel functions they
  call. The state is a record with the fields of \<open>struct tcp_sock\<close> and \<open>struct sock\<close> the
  source names. A kernel function is not under src/: it is a component of the record
  \<open>tcp_api\<close>, an argument of every definition that calls it.
\<close>

section \<open>Congestion-avoidance state\<close>

datatype tcp_ca_state =
  TCP_CA_Open | TCP_CA_Disorder | TCP_CA_CWR | TCP_CA_Recovery | TCP_CA_Loss

text \<open>The source compares states with \<open>>=\<close> and \<open><\<close>: the enumeration is ordered.\<close>

fun ca_state_num :: "tcp_ca_state \<Rightarrow> nat" where
  "ca_state_num TCP_CA_Open = 0"
| "ca_state_num TCP_CA_Disorder = 1"
| "ca_state_num TCP_CA_CWR = 2"
| "ca_state_num TCP_CA_Recovery = 3"
| "ca_state_num TCP_CA_Loss = 4"

lemma ca_state_num_inj: "ca_state_num a = ca_state_num b \<Longrightarrow> a = b"
  by (cases a; cases b) simp_all

instantiation tcp_ca_state :: linorder
begin

definition less_eq_tcp_ca_state :: "tcp_ca_state \<Rightarrow> tcp_ca_state \<Rightarrow> bool" where
  "a \<le> b \<longleftrightarrow> ca_state_num a \<le> ca_state_num b"

definition less_tcp_ca_state :: "tcp_ca_state \<Rightarrow> tcp_ca_state \<Rightarrow> bool" where
  "a < b \<longleftrightarrow> ca_state_num a < ca_state_num b"

instance
  by standard
    (auto simp: less_eq_tcp_ca_state_def less_tcp_ca_state_def intro: ca_state_num_inj)

end

lemmas ca_state_order = less_eq_tcp_ca_state_def less_tcp_ca_state_def

lemma loss_state [simp]: "TCP_CA_Recovery \<le> TCP_CA_Loss" "\<not> TCP_CA_Recovery \<le> TCP_CA_Open"
  "TCP_CA_Open < TCP_CA_Recovery"
  by (simp_all add: ca_state_order)

section \<open>Socket state\<close>

datatype pacing_status = SK_PACING_NONE | SK_PACING_NEEDED | SK_PACING_FQ

record tcp_sock =
  snd_cwnd :: u32
  snd_cwnd_clamp :: u32
  snd_ssthresh :: u32
  packets_out :: u32
  srtt_us :: u32
  mss_cache :: u32
  data_segs_out :: u32
  tcp_mstamp :: u64
  tp_lost :: u32
  tp_delivered :: u32
  lsndtime :: u32
  snd_nxt :: u32
  ecn_flags :: u8
  inet_saddr :: u32
  inet_daddr :: u32
  inet_sport :: u16
  inet_dport :: u16
  icsk_ca_state :: tcp_ca_state
  sk_pacing_rate :: u64
  sk_max_pacing_rate :: u64
  sk_pacing_status :: pacing_status

record rate_sample =
  rs_delivered :: s32
  rs_interval_us :: s64
  rs_acked_sacked :: u32

record ack_sample =
  as_rtt_us :: s32

text \<open>A socket with the private area of its congestion-control module, and the world.\<close>

record 'ca ksock =
  sk_tp :: tcp_sock
  sk_ca :: 'ca

record ('ca, 'e) kworld =
  kw_socks :: "nat \<Rightarrow> 'ca ksock option"
  kw_id :: s32
  kw_env :: 'e

text \<open>
  \<open>kw_id\<close> is the static flow counter of tcp_neo.c; \<open>kw_env\<close> is everything behind the kernel's
  own functions. An allocation may fail, and that is all the source observes of it.
\<close>

definition kw_alloc :: "('e \<Rightarrow> bool \<times> 'e) \<Rightarrow> ('ca, 'e) kworld \<Rightarrow> bool \<times> ('ca, 'e) kworld" where
  "kw_alloc A w = (let (ok, e) = A (kw_env w) in (ok, w\<lparr>kw_env := e\<rparr>))"

lemma kw_alloc_socks [simp]: "kw_alloc A w = (b, w') \<Longrightarrow> kw_socks w' = kw_socks w"
  by (auto simp: kw_alloc_def split: prod.splits)

definition sock_ref :: "('ca, 'e) kworld \<Rightarrow> nat \<Rightarrow> 'ca ksock res" where
  "sock_ref w sk = deref (kw_socks w sk)"

definition sock_put :: "('ca, 'e) kworld \<Rightarrow> nat \<Rightarrow> 'ca ksock \<Rightarrow> ('ca, 'e) kworld" where
  "sock_put w sk s = w\<lparr>kw_socks := (kw_socks w)(sk \<mapsto> s)\<rparr>"

lemma kw_socks_put [simp]: "kw_socks (sock_put w sk s) = (kw_socks w)(sk \<mapsto> s)"
  by (simp add: sock_put_def)

lemma sock_ref_Some [simp]: "kw_socks w sk = Some s \<Longrightarrow> sock_ref w sk = Inr s"
  by (simp add: sock_ref_def)

section \<open>Memory from the kernel's allocator\<close>

datatype 'a kptr = KNull | KFreed | KLive 'a

fun kptr_deref :: "'a kptr \<Rightarrow> 'a res" where
  "kptr_deref KNull = Inl Null_Deref"
| "kptr_deref KFreed = Inl Use_After_Free"
| "kptr_deref (KLive x) = Inr x"

lemma kptr_deref_eq_Inr [simp]: "kptr_deref p = Inr x \<longleftrightarrow> p = KLive x"
  by (cases p) auto

text \<open>\<open>kfree\<close>: NULL is ignored, freeing twice is a fault.\<close>

fun kfree :: "'a kptr \<Rightarrow> 'a kptr res" where
  "kfree KNull = Inr KNull"
| "kfree KFreed = Inl Use_After_Free"
| "kfree (KLive x) = Inr KFreed"

section \<open>Kernel functions and constants\<close>

record tcp_api =
  tcp_mss_to_mtu :: "tcp_sock \<Rightarrow> u32 \<Rightarrow> s32"
  tcp_packets_in_flight :: "tcp_sock \<Rightarrow> u32"
  tcp_in_slow_start :: "tcp_sock \<Rightarrow> bool"
  tcp_is_cwnd_limited :: "tcp_sock \<Rightarrow> bool"
  tcp_slow_start :: "tcp_sock \<Rightarrow> u32 \<Rightarrow> u32 \<times> tcp_sock"
  tcp_cong_avoid_ai :: "tcp_sock \<Rightarrow> u32 \<Rightarrow> u32 \<Rightarrow> tcp_sock"
  tcp_reno_undo_cwnd :: "tcp_sock \<Rightarrow> u32"
  INET_ECN_dontxmit :: "tcp_sock \<Rightarrow> tcp_sock"

definition USEC_PER_SEC :: u64 where [c_consts]: "USEC_PER_SEC = 1000000"
definition USEC_PER_MSEC :: u32 where [c_consts]: "USEC_PER_MSEC = 1000"
definition TCP_ECN_OK :: u8 where [c_consts]: "TCP_ECN_OK = 1"

text \<open>
  \<open>do_div(n, base)\<close> replaces the 64-bit \<open>n\<close> by its quotient by a 32-bit \<open>base\<close>, and traps
  on 0; so does the division operator.
\<close>

definition do_div :: "u64 \<Rightarrow> u32 \<Rightarrow> u64 res" where
  "do_div n base = (if base = 0 then Inl Div_By_Zero else Inr (n div ucast base))"

definition u64_div :: "u64 \<Rightarrow> u64 \<Rightarrow> u64 res" where
  "u64_div a b = (if b = 0 then Inl Div_By_Zero else Inr (a div b))"

definition u32_div :: "u32 \<Rightarrow> u32 \<Rightarrow> u32 res" where
  "u32_div a b = (if b = 0 then Inl Div_By_Zero else Inr (a div b))"

lemma do_div_ok [simp]: "base \<noteq> 0 \<Longrightarrow> do_div n base = Inr (n div ucast base)"
  by (simp add: do_div_def)

lemma u64_div_ok [simp]: "b \<noteq> 0 \<Longrightarrow> u64_div a b = Inr (a div b)"
  by (simp add: u64_div_def)

lemma u32_div_ok [simp]: "b \<noteq> 0 \<Longrightarrow> u32_div a b = Inr (a div b)"
  by (simp add: u32_div_def)

text \<open>\<open>cmpxchg(&sk->sk_pacing_status, SK_PACING_NONE, SK_PACING_NEEDED)\<close>.\<close>

definition need_pacing :: "tcp_sock \<Rightarrow> tcp_sock" where
  "need_pacing tp = (if sk_pacing_status tp = SK_PACING_NONE
     then tp\<lparr>sk_pacing_status := SK_PACING_NEEDED\<rparr> else tp)"

lemma need_pacing_frame [simp]:
  "snd_cwnd (need_pacing tp) = snd_cwnd tp" "packets_out (need_pacing tp) = packets_out tp"
  "srtt_us (need_pacing tp) = srtt_us tp" "mss_cache (need_pacing tp) = mss_cache tp"
  "snd_cwnd_clamp (need_pacing tp) = snd_cwnd_clamp tp"
  "sk_max_pacing_rate (need_pacing tp) = sk_max_pacing_rate tp"
  by (simp_all add: need_pacing_def)

text \<open>The name of an algorithm as the 64-byte array a designated initialiser makes of it.\<close>

definition cong_alg_name :: "string \<Rightarrow> u8 list" where
  "cong_alg_name s = map (\<lambda>c. word_of_nat (of_char c)) s @ replicate (MAX_CONG_ALG_SIZE - length s) 0"

lemma length_cong_alg_name [simp]:
  "length s \<le> MAX_CONG_ALG_SIZE \<Longrightarrow> length (cong_alg_name s) = MAX_CONG_ALG_SIZE"
  by (simp add: cong_alg_name_def)

text \<open>The flow description every module registers with the library.\<close>

definition dp_info_of :: "tcp_sock \<Rightarrow> string \<Rightarrow> spine_internal_alg \<Rightarrow> spine_datapath_info" where
  "dp_info_of tp name alg =
     \<lparr>fi_init_cwnd = snd_cwnd tp * mss_cache tp, fi_mss = mss_cache tp,
      fi_src_ip = inet_saddr tp, fi_src_port = ucast (inet_sport tp),
      fi_dst_ip = inet_daddr tp, fi_dst_port = ucast (inet_dport tp),
      fi_alg = alg, fi_congAlg = cong_alg_name name\<rparr>"

end
