(* ===== verification/Tcp_Spine.thy ===== *)
theory Tcp_Spine
  imports Kernel Spine
begin

text \<open>
  tcp_spine.c: the clock of the datapath, its log and its socket accessors. The clock counts nanoseconds
  from the module's load time \<open>tzero\<close>; \<open>spine_since\<close> converts to microseconds. The kernel's
  timekeeping functions are the components of \<open>time_api\<close>, over an unknown timestamp type.
\<close>

record ('e, 'ts) time_api =
  ktime_get_real_ts64 :: "'e \<Rightarrow> 'ts \<times> 'e"
  timespec64_sub :: "'ts \<Rightarrow> 'ts \<Rightarrow> 'ts"
  timespec64_add_ns :: "'ts \<Rightarrow> u64 \<Rightarrow> 'ts"
  timespec64_to_ns :: "'ts \<Rightarrow> s64"

definition NSEC_PER_USEC :: int where [c_consts]: "NSEC_PER_USEC = 1000"

definition spine_now :: "('e, 'ts) time_api \<Rightarrow> 'ts \<Rightarrow> 'e \<Rightarrow> u64 \<times> 'e" where
  "spine_now T tzero e =
     (let (now, e1) = ktime_get_real_ts64 T e;
          diff = timespec64_sub T now tzero in
      (timespec64_to_ns T diff, e1))"

definition spine_since :: "('e, 'ts) time_api \<Rightarrow> 'ts \<Rightarrow> u64 \<Rightarrow> 'e \<Rightarrow> u64 \<times> 'e" where
  "spine_since T tzero before e =
     (let (now, e1) = ktime_get_real_ts64 T e;
          then_ts = timespec64_add_ns T tzero before;
          diff = timespec64_sub T now then_ts in
      (word_of_int (sint (timespec64_to_ns T diff) sdiv NSEC_PER_USEC), e1))"

definition spine_after :: "('e, 'ts) time_api \<Rightarrow> 'ts \<Rightarrow> u64 \<Rightarrow> 'e \<Rightarrow> u64 \<times> 'e" where
  "spine_after T tzero us e =
     (let (now, e1) = ktime_get_real_ts64 T e;
          now1 = timespec64_sub T now tzero;
          now2 = timespec64_add_ns T now1 (us * word_of_int NSEC_PER_USEC) in
      (timespec64_to_ns T now2, e1))"

text \<open>
  The log callback and the macro the library calls it with. What the kernel has printed is a list
  of lines; \<open>snprintf\<close> gives the formatted message, or \<open>None\<close> where it returns a negative number,
  and the buffer holds 79 characters of it. The callback ignores the size it is given, the length
  of the whole message.
\<close>

datatype spine_log_level = TRACE | DEBUG | INFO | WARN | ERROR

definition spine_log :: "spine_log_level \<Rightarrow> string \<Rightarrow> nat \<Rightarrow> string list \<Rightarrow> string list" where
  "spine_log level msg msg_size printed = (case level of
     ERROR \<Rightarrow> printed @ [msg] | WARN \<Rightarrow> printed @ [msg] | INFO \<Rightarrow> printed @ [msg]
   | DEBUG \<Rightarrow> printed @ [msg] | TRACE \<Rightarrow> printed @ [msg])"

definition log_fmt :: "spine_log_level \<Rightarrow> string option \<Rightarrow> string list \<Rightarrow> string list" where
  "log_fmt level snprintf printed = (case snprintf of
     None \<Rightarrow> printed
   | Some text \<Rightarrow> spine_log level (take 79 text) (length text) printed)"

text \<open>The default build: trace and debug messages are compiled away.\<close>

fun spine_message :: "spine_log_level \<Rightarrow> string option \<Rightarrow> string list \<Rightarrow> string list" where
  "spine_message TRACE snprintf printed = printed"
| "spine_message DEBUG snprintf printed = printed"
| "spine_message level snprintf printed = log_fmt level snprintf printed"

lemma spine_message_lines:
  "spine_message level snprintf printed = printed \<or>
   (\<exists>line. spine_message level snprintf printed = printed @ [line] \<and> length line \<le> 79)"
  by (cases level; cases snprintf) (auto simp: log_fmt_def spine_log_def)

definition spine_set_pacing_rate :: "tcp_sock \<Rightarrow> u32 \<Rightarrow> tcp_sock" where
  "spine_set_pacing_rate sk rate = sk\<lparr>sk_pacing_rate := ucast rate\<rparr>"

text \<open>\<open>get_sock_from_spine\<close>: the socket behind a connection.\<close>

definition get_sock_from_spine :: "spine_connection \<Rightarrow> nat" where
  "get_sock_from_spine conn = spine_get_impl conn"

text \<open>The clock on the world of a module.\<close>

definition kw_now :: "('e, 'ts) time_api \<Rightarrow> 'ts \<Rightarrow> ('ca, 'e) kworld \<Rightarrow> u64 \<times> ('ca, 'e) kworld" where
  "kw_now T tzero w = (let (t, e) = spine_now T tzero (kw_env w) in (t, w\<lparr>kw_env := e\<rparr>))"

definition kw_since ::
  "('e, 'ts) time_api \<Rightarrow> 'ts \<Rightarrow> u64 \<Rightarrow> ('ca, 'e) kworld \<Rightarrow> u64 \<times> ('ca, 'e) kworld" where
  "kw_since T tzero before w =
     (let (t, e) = spine_since T tzero before (kw_env w) in (t, w\<lparr>kw_env := e\<rparr>))"

definition kw_after ::
  "('e, 'ts) time_api \<Rightarrow> 'ts \<Rightarrow> u64 \<Rightarrow> ('ca, 'e) kworld \<Rightarrow> u64 \<times> ('ca, 'e) kworld" where
  "kw_after T tzero us w =
     (let (t, e) = spine_after T tzero us (kw_env w) in (t, w\<lparr>kw_env := e\<rparr>))"

end
