(* ===== verification/Netlink.thy ===== *)
theory Netlink
  imports Spine_Mailbox Tcp_Spine
begin

text \<open>
  spine_nl.c: the netlink transport. The allocator of socket buffers and the multicast are the
  kernel's (\<open>nl_api\<close>); an incoming message is its header's length field, which counts the
  16-byte header, and the payload behind it. The interpretation at the end discharges the
  library's contract on clock and transport for these definitions.
\<close>

record 'e nl_api =
  nlmsg_new :: "int \<Rightarrow> 'e \<Rightarrow> bool \<times> 'e"
  nlmsg_multicast :: "u8 list \<Rightarrow> 'e \<Rightarrow> int \<times> 'e"

record nl_message =
  nlmsg_len :: u32
  nlmsg_payload :: "u8 list"

type_synonym 'w nl_recv_handler = "'w spine_datapath \<Rightarrow> u8 list \<Rightarrow> int \<Rightarrow> (int \<times> 'w spine_datapath) res"

definition spine_nl_recv ::
  "'w nl_recv_handler option \<Rightarrow> 'w spine_datapath option \<Rightarrow> nl_message \<Rightarrow>
   'w spine_datapath option res" where
  "spine_nl_recv spine_msg_reader kernel_datapath nlh =
     (case spine_msg_reader of
        None \<Rightarrow> Inr kernel_datapath
      | Some reader \<Rightarrow>
          rbind (deref kernel_datapath) (\<lambda>dp.
            rbind (reader dp (nlmsg_payload nlh) (sint (nlmsg_len nlh))) (\<lambda>(ok, dp').
              Inr (Some dp'))))"

text \<open>The globals: the reader callback, and whether the kernel socket exists.\<close>

record 'w nl_state =
  nl_reader :: "'w nl_recv_handler option"
  nl_sk :: bool

definition spine_nl_sk :: "bool \<Rightarrow> 'w nl_recv_handler \<Rightarrow> 'w nl_state \<Rightarrow> int \<times> 'w nl_state" where
  "spine_nl_sk created msg s =
     (let s1 = s\<lparr>nl_reader := Some msg, nl_sk := created\<rparr> in
      if \<not> nl_sk s1 then (-1, s1) else (0, s1))"

definition free_spine_nl_sk :: "'w nl_state \<Rightarrow> 'w nl_state" where
  "free_spine_nl_sk s = s\<lparr>nl_sk := False\<rparr>"

definition nl_sendmsg :: "'e nl_api \<Rightarrow> u8 list \<Rightarrow> int \<Rightarrow> 'e \<Rightarrow> (int \<times> 'e) res" where
  "nl_sendmsg N msg msg_size e =
     (let (ok, e1) = nlmsg_new N msg_size e in
      if \<not> ok then Inr (-1, e1)
      else if msg_size < 0 then Inl Out_Of_Bounds
      else rbind (memcpy_from msg 0 (nat msg_size)) (\<lambda>data.
        let (res, e2) = nlmsg_multicast N data e1 in
        if res < 0 then Inr (res, e2) else Inr (0, e2)))"

definition kw_send :: "'e nl_api \<Rightarrow> ('ca, 'e) kworld send_fn" where
  "kw_send N msg msg_size w =
     rbind (nl_sendmsg N msg msg_size (kw_env w)) (\<lambda>(r, e). Inr (r, w\<lparr>kw_env := e\<rparr>))"

lemma nl_sendmsg_ok:
  "0 \<le> n \<Longrightarrow> nat n \<le> length msg \<Longrightarrow> \<exists>r e'. nl_sendmsg N msg n e = Inr (r, e') \<and> r \<le> 0"
  by (cases "nlmsg_new N n e")
    (auto simp: nl_sendmsg_def memcpy_from_ok split: prod.splits)

text \<open>Clock and transport keep every property of the sockets.\<close>

interpretation kernel_env: datapath_env "kw_now T tzero" "kw_since T tzero" "kw_send N"
  "\<lambda>w. P (kw_socks w)"
  for T :: "('e, 'ts) time_api" and tzero :: 'ts and N :: "'e nl_api"
    and P :: "(nat \<Rightarrow> 'ca ksock option) \<Rightarrow> bool"
proof
  fix w w' :: "('ca, 'e) kworld" and t
  assume "P (kw_socks w)" and "kw_now T tzero w = (t, w')"
  then show "P (kw_socks w')" by (auto simp: kw_now_def split: prod.splits)
next
  fix w w' :: "('ca, 'e) kworld" and t us
  assume "P (kw_socks w)" and "kw_since T tzero t w = (us, w')"
  then show "P (kw_socks w')" by (auto simp: kw_since_def split: prod.splits)
next
  fix w :: "('ca, 'e) kworld" and n and msg :: "u8 list"
  assume "P (kw_socks w)" and "0 \<le> n" and "nat n \<le> length msg"
  then show "\<exists>r w'. kw_send N msg n w = Inr (r, w') \<and> P (kw_socks w')"
    using nl_sendmsg_ok [of n msg N "kw_env w"] by (force simp: kw_send_def)
qed

section \<open>Packets of the controller\<close>

text \<open>
  A message as the netlink layer delivers it: its length field counts the payload and the
  16-byte netlink header, and the module's receive function passes it on as the buffer's size.
\<close>

definition nl_packet :: "u8 list \<Rightarrow> nl_message" where
  "nl_packet payload = \<lparr>nlmsg_len = word_of_nat (16 + length payload), nlmsg_payload = payload\<rparr>"

definition controller_payload :: "u8 list \<Rightarrow> bool" where
  "controller_payload p \<longleftrightarrow>
     (\<exists>sid fs. p = update_packet sid fs \<and> 0 < length fs \<and> length fs < 128 \<and> list_all valid_update fs) \<or>
     (\<exists>sid r. p = measure_packet sid r)"

lemma length_update_packet [simp]: "length (update_packet sid fs) = 12 + length fs * 13"
  by (simp add: update_packet_eq)

lemma length_measure_packet [simp]: "length (measure_packet sid r) = 12"
  by (simp add: measure_packet_eq)

lemma nl_packet_size:
  assumes "length p < 2000"
  shows "sint (nlmsg_len (nl_packet p)) = 16 + int (length p)"
proof -
  have "16 + length p < 2 ^ (LENGTH(32) - 1)" using assms by simp
  then have "sint (word_of_nat (16 + length p) :: u32) = int (16 + length p)"
    by (rule sint_word_of_nat_small)
  then show ?thesis by (simp only: nl_packet_def nl_message.select_convs)
qed

lemma nl_recv_packet:
  assumes "length p < 2000"
    and "spine_read_msg cs dp p (16 + int (length p)) = Inr (ret, dp')"
  shows "spine_nl_recv (Some (spine_read_msg cs)) (Some dp) (nl_packet p) = Inr (Some dp')"
proof -
  have "nlmsg_payload (nl_packet p) = p" by (simp add: nl_packet_def)
  then show ?thesis
    using assms(2) nl_packet_size [OF assms(1)] by (simp only: spine_nl_recv_def) simp
qed

text \<open>
  With every numbered slot live, the reception of a packet of the controller never faults, and
  leaves the datapath as it was up to the fallback timer and one mailbox.
\<close>

lemma recv_controller_packet:
  assumes wf: "dp_wf dp" and few: "unat (dp_max_connections dp) \<le> 65535"
    and live: "\<forall>i < length (slots dp). conn_index (slots dp ! i) \<noteq> 0 \<longrightarrow> live_slot dp i"
    and p: "controller_payload p"
  shows "\<exists>dp'. spine_nl_recv (Some (spine_read_msg cs)) (Some dp) (nl_packet p) = Inr (Some dp') \<and>
    (dp' = dp \<or> dp' = turn_off_fto_timer dp \<or>
     (\<exists>i up. live_slot dp i \<and> update_wf up \<and> dp' = with_pending (turn_off_fto_timer dp) i up))"
proof -
  obtain h body where h: "p = header_bytes h @ body"
    using p by (auto simp: controller_payload_def update_packet_eq measure_packet_eq)
  have len: "length p < 2000" using p by (auto simp: controller_payload_def)
  let ?dp = "turn_off_fto_timer dp" and ?sid = "ucast (hdr_SocketId h) :: u16"
  have wf': "dp_wf ?dp" "unat (dp_max_connections ?dp) \<le> 65535" using wf few by simp_all
  consider "spine_connection_lookup ?dp ?sid = Inr None"
    | i where "i < length (slots dp)" "conn_index (slots dp ! i) = ?sid" "?sid \<noteq> 0"
    using lookup_cases [OF wf', of ?sid] by auto
  then show ?thesis
  proof cases
    case 1
    from read_unknown [OF this, of cs body "16 + int (length p)"] show ?thesis
      using nl_recv_packet [OF len] h by blast
  next
    case (2 i)
    then have i: "live_slot dp i" using live by metis
    have sid: "p = update_packet sid fs \<Longrightarrow> hdr_SocketId h = sid" "p = measure_packet sid r \<Longrightarrow> hdr_SocketId h = sid"
      for sid fs r
      using h by (auto simp: update_packet_eq measure_packet_eq)
    have "\<exists>up. update_wf up \<and> spine_read_msg cs dp p (16 + int (length p)) = Inr (SPINE_OK, with_pending ?dp i up)"
      using p unfolding controller_payload_def
    proof (elim disjE exE conjE)
      fix sid fs assume fs: "p = update_packet sid fs" "0 < length fs" "length fs < 128" "list_all valid_update fs"
      then show ?thesis
        using read_valid_update_packet [OF wf few i, of sid fs "16 + int (length p)" cs "[]"] 2 sid(1)
          pending_wf [OF wf i] by (auto intro!: exI [of _ "fold apply_update fs (pending_of dp i)"])
    next
      fix sid r assume r: "p = measure_packet sid r"
      then show ?thesis
        using read_measure_packet [OF wf few i, of sid "16 + int (length p)" cs r] 2 sid(2)
          pending_wf [OF wf i] by (auto simp: request_update_def
            intro!: exI [of _ "request_update cs r (pending_of dp i)"])
    qed
    then show ?thesis using nl_recv_packet [OF len] i by blast
  qed
qed

end
