(* ===== verification/Flow_Module.thy ===== *)
theory Flow_Module
  imports Netlink
begin

text \<open>
  What the three congestion-control modules share: the state of a module is its datapath and its
  sockets, each socket with the connection it was given. The locale \<open>flow_module\<close> is the
  contract of a module's two callbacks; under it the operations on flows (receive a packet,
  invoke the library, open a connection, close one) keep the invariant \<open>flows_ok\<close> of the
  datapath. It is interpreted on each module in the theory of its proofs.
\<close>

section \<open>Sockets and connections\<close>

text \<open>\<open>C\<close> says for every socket whether it exists and which connection it was given.\<close>

definition socks_ok ::
  "('ca \<Rightarrow> nat option) \<Rightarrow> ('ca ksock \<Rightarrow> bool) \<Rightarrow> (nat \<Rightarrow> nat option option) \<Rightarrow>
   (nat \<Rightarrow> 'ca ksock option) \<Rightarrow> bool" where
  "socks_ok conn_of good C socks \<longleftrightarrow>
     (\<forall>sk. map_option (\<lambda>s. conn_of (sk_ca s)) (socks sk) = C sk) \<and>
     (\<forall>sk s. socks sk = Some s \<longrightarrow> good s)"

lemma socks_ok_put:
  assumes "socks_ok conn_of good C socks" and "socks sk = Some s0" and "good s"
    and "conn_of (sk_ca s) = conn_of (sk_ca s0)"
  shows "socks_ok conn_of good C (socks(sk \<mapsto> s))"
proof -
  have "map_option (\<lambda>s. conn_of (sk_ca s)) (socks sk) = C sk"
    using assms(1) by (simp only: socks_ok_def)
  with assms show ?thesis by (auto simp: socks_ok_def)
qed

lemma socks_ok_get:
  assumes "socks_ok conn_of good C socks" and "C sk = Some c"
  obtains s where "socks sk = Some s" "conn_of (sk_ca s) = c" "good s"
proof -
  have "map_option (\<lambda>s. conn_of (sk_ca s)) (socks sk) = Some c"
    using assms by (simp add: socks_ok_def)
  then obtain s where "socks sk = Some s" "conn_of (sk_ca s) = c" by auto
  with assms(1) that show ?thesis by (auto simp: socks_ok_def)
qed

lemma socks_ok_remove:
  "socks_ok conn_of good C socks \<Longrightarrow> socks_ok conn_of good (C(sk := None)) (socks(sk := None))"
  by (auto simp: socks_ok_def)

lemma socks_ok_add:
  "socks_ok conn_of good C socks \<Longrightarrow> good s \<Longrightarrow>
   socks_ok conn_of good (C(sk \<mapsto> conn_of (sk_ca s))) (socks(sk \<mapsto> s))"
  by (auto simp: socks_ok_def)

section \<open>The datapath of a module\<close>

text \<open>
  The table and the sockets are in step: every numbered slot is live and is the connection of the
  socket it names (no slot is leaked), and a socket's connection is numbered and names it.
\<close>

definition flows_ok ::
  "('ca, 'e) kworld set_params_fn \<Rightarrow> ('ca, 'e) kworld fetch_fn option \<Rightarrow> ('e, 'ts) time_api \<Rightarrow> 'ts \<Rightarrow>
   'e nl_api \<Rightarrow> (nat \<Rightarrow> nat option option) \<Rightarrow> ('ca, 'e) kworld spine_datapath \<Rightarrow> bool" where
  "flows_ok setp fetchm T tzero N C dp \<longleftrightarrow> dp_wf dp \<and> unat (dp_max_connections dp) \<le> 65535 \<and>
     uses_env (kw_now T tzero) (kw_since T tzero) (kw_send N) dp \<and> uses_cc setp fetchm dp \<and>
     (\<forall>i < length (slots dp). conn_index (slots dp ! i) \<noteq> 0 \<longrightarrow>
        live_slot dp i \<and> C (conn_impl (slots dp ! i)) = Some (Some i)) \<and>
     (\<forall>sk i. C sk = Some (Some i) \<longrightarrow>
        live_slot dp i \<and> conn_impl (slots dp ! i) = sk \<and> conn_index (slots dp ! i) \<noteq> 0)"

lemma flows_okD:
  assumes "flows_ok setp fetchm T tzero N C dp"
  shows "dp_wf dp" "unat (dp_max_connections dp) \<le> 65535"
    "uses_env (kw_now T tzero) (kw_since T tzero) (kw_send N) dp"
    "dp_set_params dp = Some setp" "dp_fetch_measurements dp = fetchm" "uses_cc setp fetchm dp"
  using assms by (simp_all add: flows_ok_def uses_cc_def)

lemma flows_ok_conn:
  assumes "flows_ok setp fetchm T tzero N C dp" and "C sk = Some (Some i)"
  shows "live_slot dp i" "conn_impl (slots dp ! i) = sk" "conn_index (slots dp ! i) \<noteq> 0"
  using assms by (simp_all add: flows_ok_def)

lemma flows_ok_numbered:
  "flows_ok setp fetchm T tzero N C dp \<Longrightarrow> i < length (slots dp) \<Longrightarrow>
   conn_index (slots dp ! i) \<noteq> 0 \<Longrightarrow> live_slot dp i"
  by (simp add: flows_ok_def)

lemma flows_ok_owner:
  "flows_ok setp fetchm T tzero N C dp \<Longrightarrow> i < length (slots dp) \<Longrightarrow>
   conn_index (slots dp ! i) \<noteq> 0 \<Longrightarrow> C (conn_impl (slots dp ! i)) = Some (Some i)"
  by (simp add: flows_ok_def)

text \<open>
  The invariant survives any change of one slot that keeps it live and keeps the datapath's
  callbacks: a new state of the same flow, a new flow in a free slot, or a slot given back.
\<close>

lemma flows_ok_change:
  assumes ok: "flows_ok setp fetchm T tzero N C dp" and wf: "dp_wf dp'"
    and env: "uses_env (kw_now T tzero) (kw_since T tzero) (kw_send N) dp'"
    and cc: "uses_cc setp fetchm dp'" and max: "dp_max_connections dp' = dp_max_connections dp"
    and len: "length (slots dp') = length (slots dp)"
    and other: "\<And>k. k < length (slots dp) \<Longrightarrow> k \<noteq> i \<Longrightarrow> slots dp' ! k = slots dp ! k"
    and slot: "i < length (slots dp) \<Longrightarrow> conn_index (slots dp' ! i) \<noteq> 0 \<Longrightarrow>
      live_slot dp' i \<and> C' (conn_impl (slots dp' ! i)) = Some (Some i)"
    and conns: "\<And>sk k. k \<noteq> i \<Longrightarrow> C' sk = Some (Some k) \<longleftrightarrow> C sk = Some (Some k)"
    and conn: "\<And>sk. C' sk = Some (Some i) \<Longrightarrow>
      live_slot dp' i \<and> conn_impl (slots dp' ! i) = sk \<and> conn_index (slots dp' ! i) \<noteq> 0"
  shows "flows_ok setp fetchm T tzero N C' dp'"
proof -
  have live: "live_slot dp' k" if "live_slot dp k" "k \<noteq> i" for k
    using that len other [of k] by (simp add: live_slot_def)
  have "\<forall>k < length (slots dp'). conn_index (slots dp' ! k) \<noteq> 0 \<longrightarrow>
      live_slot dp' k \<and> C' (conn_impl (slots dp' ! k)) = Some (Some k)"
  proof (intro allI impI)
    fix k assume k: "k < length (slots dp')" "conn_index (slots dp' ! k) \<noteq> 0"
    show "live_slot dp' k \<and> C' (conn_impl (slots dp' ! k)) = Some (Some k)"
    proof (cases "k = i")
      case True
      with k slot len show ?thesis by simp
    next
      case False
      with k len other [of k] flows_ok_numbered [OF ok, of k] flows_ok_owner [OF ok, of k] conns [of k] live
      show ?thesis by simp
    qed
  qed
  moreover have "\<forall>sk k. C' sk = Some (Some k) \<longrightarrow>
      live_slot dp' k \<and> conn_impl (slots dp' ! k) = sk \<and> conn_index (slots dp' ! k) \<noteq> 0"
  proof (intro allI impI)
    fix sk k assume k: "C' sk = Some (Some k)"
    show "live_slot dp' k \<and> conn_impl (slots dp' ! k) = sk \<and> conn_index (slots dp' ! k) \<noteq> 0"
    proof (cases "k = i")
      case True
      with k conn show ?thesis by simp
    next
      case False
      have "C sk = Some (Some k)" using conns [OF False] k by simp
      note old = flows_ok_conn [OF ok this]
      have "k < length (slots dp)" using old(1) by (rule live_slot_bound)
      with old live other [of k] False show ?thesis by simp
    qed
  qed
  ultimately show ?thesis
    using wf env cc max flows_okD(2) [OF ok] by (simp add: flows_ok_def)
qed

lemma flows_ok_touches:
  assumes ok: "flows_ok setp fetchm T tzero N C dp" and tr: "touches i dp dp'" and wf: "dp_wf dp'"
    and live: "live_slot dp i \<Longrightarrow> live_slot dp' i"
  shows "flows_ok setp fetchm T tzero N C dp'"
proof (rule flows_ok_change [OF ok wf, where i = i])
  show "uses_env (kw_now T tzero) (kw_since T tzero) (kw_send N) dp'"
    using uses_env_touches [OF tr] flows_okD(3) [OF ok] by blast
  show "uses_cc setp fetchm dp'" using uses_cc_touches [OF tr] flows_okD(6) [OF ok] by blast
  show "dp_max_connections dp' = dp_max_connections dp" "length (slots dp') = length (slots dp)"
    using touches_callbacks [OF tr] by simp_all
  show "slots dp' ! k = slots dp ! k" if "k < length (slots dp)" "k \<noteq> i" for k
    using tr that by (simp add: touches_def)
  have flow: "i < length (slots dp) \<Longrightarrow> conn_index (slots dp' ! i) = conn_index (slots dp ! i) \<and>
      conn_impl (slots dp' ! i) = conn_impl (slots dp ! i)"
    using tr by (simp add: touches_def same_flow_def)
  show "live_slot dp' i \<and> C (conn_impl (slots dp' ! i)) = Some (Some i)"
    if "i < length (slots dp)" "conn_index (slots dp' ! i) \<noteq> 0"
    using that flow flows_ok_numbered [OF ok, of i] flows_ok_owner [OF ok, of i] live by simp
  show "C sk = Some (Some k) \<longleftrightarrow> C sk = Some (Some k)" for sk k ..
  show "live_slot dp' i \<and> conn_impl (slots dp' ! i) = sk \<and> conn_index (slots dp' ! i) \<noteq> 0"
    if "C sk = Some (Some i)" for sk
    using flows_ok_conn [OF ok that] flow live live_slot_bound [of dp i] by simp
qed

lemma flows_ok_turn_off:
  "flows_ok setp fetchm T tzero N C dp \<Longrightarrow> flows_ok setp fetchm T tzero N C (turn_off_fto_timer dp)"
  by (simp add: flows_ok_def) (simp add: turn_off_fto_timer_def uses_env_def uses_cc_def)

text \<open>Receiving a packet of the controller.\<close>

lemma flows_ok_recv:
  assumes ok: "flows_ok setp fetchm T tzero N C dp" and p: "controller_payload p"
  shows "\<exists>dp'. spine_nl_recv (Some (spine_read_msg cs)) (Some dp) (nl_packet p) = Inr (Some dp') \<and>
    flows_ok setp fetchm T tzero N C dp' \<and> length (slots dp') = length (slots dp)"
proof -
  let ?off = "turn_off_fto_timer dp"
  have off: "flows_ok setp fetchm T tzero N C ?off" using ok by (rule flows_ok_turn_off)
  have len: "length (slots (with_pending ?off i up)) = length (slots dp)" if "live_slot dp i" for i up
    using touches_callbacks(7) [OF touches_with_pending [where dp = ?off and i = i and up = up]] that by simp
  have upd: "flows_ok setp fetchm T tzero N C (with_pending ?off i up)"
    if "live_slot dp i" "update_wf up" for i up
  proof (rule flows_ok_touches [OF off touches_with_pending])
    show "live_slot ?off i" using that(1) by simp
    then show "dp_wf (with_pending ?off i up)" "live_slot (with_pending ?off i up) i"
      using flows_okD(1) [OF off] that(2) by (auto intro!: dp_wf_with_pending)
  qed
  have "\<forall>i < length (slots dp). conn_index (slots dp ! i) \<noteq> 0 \<longrightarrow> live_slot dp i"
    using flows_ok_numbered [OF ok] by blast
  from recv_controller_packet [OF flows_okD(1,2) [OF ok] this p, of cs] obtain dp' where
    recv: "spine_nl_recv (Some (spine_read_msg cs)) (Some dp) (nl_packet p) = Inr (Some dp')"
    and dp': "dp' = dp \<or> dp' = ?off \<or> (\<exists>i up. live_slot dp i \<and> update_wf up \<and> dp' = with_pending ?off i up)"
    by blast
  from dp' have "flows_ok setp fetchm T tzero N C dp' \<and> length (slots dp') = length (slots dp)"
    using ok off upd len by (elim disjE exE conjE) simp_all
  with recv show ?thesis by blast
qed

text \<open>Opening a connection for a new socket.\<close>

lemma flows_ok_start:
  assumes ok: "flows_ok setp fetchm T tzero N C dp" and new: "C sk = None"
    and free: "Suc j < length (slots dp)" "conn_index (slots dp ! j) = 0"
      "\<forall>i < j. conn_index (slots dp ! i) \<noteq> 0"
    and alloc: "kcalloc w = (True, w1)" and info: "length (fi_congAlg info) = MAX_CONG_ALG_SIZE"
  shows "\<exists>dp' w'. spine_connection_start kcalloc dp sk info w = Inr (Some j, dp', w') \<and>
    kw_socks w' = kw_socks w1 \<and> flows_ok setp fetchm T tzero N (C(sk \<mapsto> Some j)) dp' \<and>
    length (slots dp') = length (slots dp)"
proof -
  note D = flows_okD [OF ok]
  have ff: "first_free (slots dp) 0 = Some j"
    using free by (intro first_free_eq) (simp_all add: slot_free_def)
  let ?c = "fresh_conn (slots dp ! j) j sk info"
  let ?dp3 = "dp\<lparr>dp_connections := Some ((slots dp)[j := ?c])\<rparr>"
  obtain dp' w' where start: "spine_connection_start kcalloc dp sk info w = Inr (Some j, dp', w')"
    and socks: "kw_socks w' = kw_socks w1" and wf: "dp_wf dp'" and live: "live_slot dp' j"
    and env: "uses_env (kw_now T tzero) (kw_since T tzero) (kw_send N) dp'"
    and tr: "touches j ?dp3 dp'"
    using kernel_env.spine_connection_start_ok [where P = "\<lambda>s. s = kw_socks w1" and impl = sk
      and kcalloc = kcalloc and w = w, OF D(3,1,2) ff free(1) alloc refl info] by blast
  have "Suc j \<le> 65535" using free(1) D(1,2) by (simp add: dp_wf_def)
  then have "unat (word_of_nat (Suc j) :: u16) = Suc j" by (rule unat_sid)
  then have c: "conn_index ?c \<noteq> 0" "conn_impl ?c = sk"
    by (auto simp: fresh_conn_def simp del: of_nat_Suc)
  have j: "j < length (slots dp)" using free(1) by simp
  have mine: "conn_index (slots dp' ! j) \<noteq> 0" "conn_impl (slots dp' ! j) = sk"
    using tr j c by (simp_all add: touches_def same_flow_def)
  have "flows_ok setp fetchm T tzero N (C(sk \<mapsto> Some j)) dp'"
  proof (rule flows_ok_change [OF ok wf env, where i = j])
    show "uses_cc setp fetchm dp'" using uses_cc_touches [OF tr] D(6) by (simp add: uses_cc_def)
    show "dp_max_connections dp' = dp_max_connections dp" "length (slots dp') = length (slots dp)"
      using touches_callbacks [OF tr] by simp_all
    show "slots dp' ! k = slots dp ! k" if "k < length (slots dp)" "k \<noteq> j" for k
      using tr that by (simp add: touches_def)
    show "live_slot dp' j \<and> (C(sk \<mapsto> Some j)) (conn_impl (slots dp' ! j)) = Some (Some j)"
      using live mine by simp
    show "(C(sk \<mapsto> Some j)) sk' = Some (Some k) \<longleftrightarrow> C sk' = Some (Some k)" if "k \<noteq> j" for sk' k
      using that new by (cases "sk' = sk") simp_all
    show "live_slot dp' j \<and> conn_impl (slots dp' ! j) = sk' \<and> conn_index (slots dp' ! j) \<noteq> 0"
      if "(C(sk \<mapsto> Some j)) sk' = Some (Some j)" for sk'
    proof (cases "sk' = sk")
      case False
      with that have "C sk' = Some (Some j)" by simp
      from flows_ok_conn(3) [OF ok this] free(2) show ?thesis by simp
    qed (use live mine in simp)
  qed
  moreover have "length (slots dp') = length (slots dp)" using touches_callbacks(7) [OF tr] by simp
  ultimately show ?thesis using start socks by blast
qed

text \<open>Closing the connection of a socket.\<close>

lemma flows_ok_free:
  assumes ok: "flows_ok setp fetchm T tzero N C dp" and sk: "C sk = Some (Some i)"
  shows "\<exists>dp' w'. spine_connection_free dp (conn_index (slots dp ! i)) w = Inr (dp', w') \<and>
    kw_socks w' = kw_socks w \<and>
    spine_connection_lookup dp' (conn_index (slots dp ! i)) = Inr None \<and>
    flows_ok setp fetchm T tzero N (C(sk := None)) dp' \<and> length (slots dp') = length (slots dp)"
proof -
  note D = flows_okD [OF ok] and mine = flows_ok_conn [OF ok sk]
  have i: "i < length (slots dp)" using mine(1) by (rule live_slot_bound)
  let ?c = "(slots dp ! i)\<lparr>conn_state := PFreed, conn_index := 0\<rparr>"
  let ?dp' = "dp\<lparr>dp_connections := Some ((slots dp)[i := ?c])\<rparr>"
  obtain w' where free: "spine_connection_free dp (conn_index (slots dp ! i)) w = Inr (?dp', w')"
    and socks: "kw_socks w' = kw_socks w"
    using kernel_env.spine_connection_free_ok
      [where P = "\<lambda>s. s = kw_socks w", OF D(3) refl D(1) mine(1) refl mine(3) D(2)] by blast
  have "conn_wf i ?c" using dp_wf_slot [OF D(1) i] by (simp add: conn_wf_def)
  with D(1) i have wf: "dp_wf ?dp'" by (rule dp_wf_put)
  have max: "unat (dp_max_connections ?dp') \<le> 65535" using D(2) by simp
  have "k < length (slots dp) \<Longrightarrow> k \<noteq> i \<Longrightarrow> conn_index (slots dp ! k) \<noteq> conn_index (slots dp ! i)" for k
    using dp_wf_slot [OF D(1), of k] dp_wf_slot [OF D(1) i] mine(3) by (auto simp: conn_wf_def)
  then have none: "spine_connection_lookup ?dp' (conn_index (slots dp ! i)) = Inr None"
    using i mine(3) by (auto simp: lookup_eq [OF wf max] nth_list_update)
  have "flows_ok setp fetchm T tzero N (C(sk := None)) ?dp'"
  proof (rule flows_ok_change [OF ok wf, where i = i])
    show "uses_env (kw_now T tzero) (kw_since T tzero) (kw_send N) ?dp'" "uses_cc setp fetchm ?dp'"
      using D(3,6) by (simp_all add: uses_env_def uses_cc_def)
    show "(C(sk := None)) sk' = Some (Some k) \<longleftrightarrow> C sk' = Some (Some k)" if "k \<noteq> i" for sk' k
      using that sk by simp
    show "live_slot ?dp' i \<and> conn_impl (slots ?dp' ! i) = sk' \<and> conn_index (slots ?dp' ! i) \<noteq> 0"
      if "(C(sk := None)) sk' = Some (Some i)" for sk'
    proof -
      from that have "sk' \<noteq> sk" "C sk' = Some (Some i)" by (simp_all split: if_splits)
      with flows_ok_conn(2) [OF ok this(2)] mine(2) show ?thesis by simp
    qed
  qed (use i in simp_all)
  moreover have "length (slots ?dp') = length (slots dp)" by simp
  ultimately show ?thesis using free socks none by blast
qed

text \<open>Opening and closing as the modules do it, when no allocation fails.\<close>

lemma open_conn_ok:
  assumes ok: "flows_ok setp fetchm T tzero N C dp" and new: "C sk = None"
    and free: "Suc j < length (slots dp)" "conn_index (slots dp ! j) = 0"
      "\<forall>i < j. conn_index (slots dp ! i) \<noteq> 0"
    and mem: "\<forall>e. fst (A e)" and name: "length name \<le> MAX_CONG_ALG_SIZE"
  shows "\<exists>dp' w'. spine_connection_start (kw_alloc A) dp sk (dp_info_of tp name alg) w = Inr (Some j, dp', w') \<and>
    kw_socks w' = kw_socks w \<and> flows_ok setp fetchm T tzero N (C(sk \<mapsto> Some j)) dp' \<and>
    length (slots dp') = length (slots dp)"
proof -
  obtain w1 where a: "kw_alloc A w = (True, w1)"
    using mem [rule_format, of "kw_env w"] by (cases "A (kw_env w)") (auto simp: kw_alloc_def)
  have "length (fi_congAlg (dp_info_of tp name alg)) = MAX_CONG_ALG_SIZE"
    using name by (simp add: dp_info_of_def)
  from flows_ok_start [OF ok new free, of "kw_alloc A" w w1 "dp_info_of tp name alg", OF a this]
  show ?thesis using kw_alloc_socks [OF a] by auto
qed

lemma close_conn_ok:
  assumes ok: "flows_ok setp fetchm T tzero N C dp" and w: "socks_ok conn_of good C (kw_socks w)"
    and sk: "C sk = Some (Some i)"
  shows "\<exists>dp' w'. rbind (sock_ref w sk) (\<lambda>s. case conn_of (sk_ca s) of
        None \<Rightarrow> Inr (dp, w)
      | Some i \<Rightarrow> rbind (conn_ref dp i) (\<lambda>c. spine_connection_free dp (conn_index c) w)) = Inr (dp', w') \<and>
    flows_ok setp fetchm T tzero N (C(sk := None)) dp' \<and> length (slots dp') = length (slots dp) \<and>
    socks_ok conn_of good (C(sk := None)) ((kw_socks w')(sk := None))"
proof -
  obtain s where s: "kw_socks w sk = Some s" "conn_of (sk_ca s) = Some i" by (rule socks_ok_get [OF w sk])
  have i: "i < length (slots dp)" using flows_ok_conn(1) [OF ok sk] by (rule live_slot_bound)
  obtain dp' w' where "spine_connection_free dp (conn_index (slots dp ! i)) w = Inr (dp', w')"
    and "kw_socks w' = kw_socks w" and "flows_ok setp fetchm T tzero N (C(sk := None)) dp'"
    and "length (slots dp') = length (slots dp)"
    using flows_ok_free [OF ok sk, of w] by blast
  with s i socks_ok_remove [OF w, of sk] show ?thesis by simp
qed

section \<open>The contract of a module's callbacks\<close>

locale flow_module =
  fixes conn_of :: "'ca \<Rightarrow> nat option"
    and good :: "'ca ksock \<Rightarrow> bool"
    and setp :: "('ca, 'e) kworld set_params_fn"
    and fetchm :: "('ca, 'e) kworld fetch_fn option"
  assumes setp_good: "kw_socks w (conn_impl c) = Some s \<Longrightarrow> good s \<Longrightarrow> ps \<noteq> [] \<Longrightarrow>
      \<exists>w' s'. setp c ps (word_of_nat (length ps)) w = Inr w' \<and>
        kw_socks w' = (kw_socks w)(conn_impl c \<mapsto> s') \<and> good s' \<and> conn_of (sk_ca s') = conn_of (sk_ca s)"
    and fetch_good: "fetchm = Some fetch \<Longrightarrow> kw_socks w (conn_impl c) = Some s \<Longrightarrow> good s \<Longrightarrow>
      length ms = MAX_MEASUREMENT_FIELDS \<Longrightarrow>
      \<exists>ms' n. fetch c ms 0 r w = Inr (ms', n, w) \<and> length ms' = MAX_MEASUREMENT_FIELDS \<and>
        unat n \<le> MAX_MEASUREMENT_FIELDS"

text \<open>A module that keeps it fulfils the library's own contract, for every one of its sockets.\<close>

sublocale flow_module \<subseteq> cc: cc_module "kw_now T tzero" "kw_since T tzero" "kw_send N"
  "\<lambda>w. socks_ok conn_of good C (kw_socks w) \<and> C k \<noteq> None" setp fetchm k
  for T :: "('e, 'ts) time_api" and tzero :: 'ts and N :: "'e nl_api" and C and k
proof
  fix w :: "('ca, 'e) kworld" and c :: spine_connection and ps :: "u64 list"
  assume ok: "socks_ok conn_of good C (kw_socks w) \<and> C k \<noteq> None" and c: "conn_impl c = k" and ps: "ps \<noteq> []"
  then obtain s where s: "kw_socks w k = Some s" "good s" by (meson socks_ok_get not_Some_eq)
  with c ps setp_good [of w c s ps] obtain w' s' where
    "setp c ps (word_of_nat (length ps)) w = Inr w'" "kw_socks w' = (kw_socks w)(k \<mapsto> s')"
    "good s'" "conn_of (sk_ca s') = conn_of (sk_ca s)" by auto
  with ok s(1) socks_ok_put [of conn_of good C "kw_socks w" k s s']
  show "\<exists>w'. setp c ps (word_of_nat (length ps)) w = Inr w' \<and>
      socks_ok conn_of good C (kw_socks w') \<and> C k \<noteq> None" by simp
next
  fix fetch :: "('ca, 'e) kworld fetch_fn" and w :: "('ca, 'e) kworld" and c :: spine_connection
    and ms :: "u64 list" and r :: u32
  assume f: "fetchm = Some fetch" and ok: "socks_ok conn_of good C (kw_socks w) \<and> C k \<noteq> None"
    and c: "conn_impl c = k" and ms: "length ms = MAX_MEASUREMENT_FIELDS"
  then obtain s where "kw_socks w k = Some s" "good s" by (meson socks_ok_get not_Some_eq)
  with fetch_good [OF f, of w c s ms r] c ms ok
  show "\<exists>ms' n w'. fetch c ms 0 r w = Inr (ms', n, w') \<and> length ms' = MAX_MEASUREMENT_FIELDS \<and>
      unat n \<le> MAX_MEASUREMENT_FIELDS \<and> socks_ok conn_of good C (kw_socks w') \<and> C k \<noteq> None"
    by auto
qed

context flow_module
begin

text \<open>The call every acknowledgement handler makes: invoke the library if there is a connection.\<close>

lemma invoke_conn_ok:
  assumes ok: "flows_ok setp fetchm T tzero N C dp" and w: "socks_ok conn_of good C (kw_socks w)"
    and sk: "C sk = Some c"
  shows "\<exists>dp' w'. (case c of None \<Rightarrow> Inr (dp, w)
      | Some i \<Rightarrow> rbind (spine_invoke dp (Some i) w) (\<lambda>(ok, dp', w'). Inr (dp', w'))) = Inr (dp', w') \<and>
    flows_ok setp fetchm T tzero N C dp' \<and> length (slots dp') = length (slots dp) \<and>
    socks_ok conn_of good C (kw_socks w')"
proof (cases c)
  case None
  with ok w show ?thesis by simp
next
  case (Some i)
  note D = flows_okD [OF ok] and mine = flows_ok_conn [OF ok sk [unfolded Some]]
  have "socks_ok conn_of good C (kw_socks w) \<and> C sk \<noteq> None" using w sk by simp
  from cc.spine_invoke_ok [OF D(3,6) this D(1) mine(1,2)]
  obtain ret dp' w' where inv: "spine_invoke dp (Some i) w = Inr (ret, dp', w')"
    and w': "socks_ok conn_of good C (kw_socks w')" and wf: "dp_wf dp'" and tr: "touches i dp dp'"
    and live: "live_slot dp' i" by blast
  have "flows_ok setp fetchm T tzero N C dp'"
    using ok tr wf live by (rule flows_ok_touches)
  with inv w' Some touches_callbacks(7) [OF tr] show ?thesis by simp
qed

end

end
