(* ===== verification/Command.thy ===== *)
theory Command
  imports Flow_Module "HOL-Library.Multiset"
begin

text \<open>
  From the packet of a command to the setter of a module: the senders of msg_sender.py write one
  field per parameter, tcp_vanilla's in the order of a Python set, that is in any order. Staged by
  register number and collected from register 0, the parameters reach the setter in their place.
\<close>

section \<open>Staging a command\<close>

text \<open>The slot after a mailbox was filled: the same connection, the new content.\<close>

lemma with_pending_slot:
  assumes "i < length (slots dp)" and "conn_state (slots dp ! i) = PLive st"
  shows "slots (with_pending dp i up) ! i = (slots dp ! i)\<lparr>conn_state := PLive (st\<lparr>pending_update := up\<rparr>)\<rparr>"
    and "length (slots (with_pending dp i up)) = length (slots dp)"
    and "dp_set_params (with_pending dp i up) = dp_set_params dp"
    and "dp_fetch_measurements (with_pending dp i up) = dp_fetch_measurements dp"
    and "dp_send_msg (with_pending dp i up) = dp_send_msg dp"
  using assms by (simp_all add: with_pending_def)

lemma turn_off_callbacks [simp]:
  "dp_set_params (turn_off_fto_timer dp) = dp_set_params dp"
  "dp_fetch_measurements (turn_off_fto_timer dp) = dp_fetch_measurements dp"
  "dp_send_msg (turn_off_fto_timer dp) = dp_send_msg dp"
  by (simp_all add: turn_off_fto_timer_def)

definition command_fields :: "u64 list \<Rightarrow> UpdateField list" where
  "command_fields ps = map (\<lambda>k. control_field (word_of_nat k) (ps ! k)) [0..<length ps]"

abbreviation reg_of :: "UpdateField \<Rightarrow> nat" where
  "reg_of f \<equiv> unat (uf_reg_index f)"

lemma find_unique:
  "distinct (map g fs) \<Longrightarrow> f \<in> set fs \<Longrightarrow> find (\<lambda>x. g x = g f) fs = Some f"
  by (induction fs) auto

lemma find_none: "r \<notin> g ` set fs \<Longrightarrow> find (\<lambda>x. g x = r) fs = None"
  by (induction fs) auto

text \<open>The content of a register after fields for distinct registers were staged.\<close>

lemma staged_nth:
  assumes "distinct (map reg_of fs)" and "update_wf up" and "r < MAX_CONTROL_REG"
  shows "control_registers (fold apply_update fs up) ! r =
      (case find (\<lambda>f. reg_of f = r) fs of Some f \<Rightarrow> uf_new_value f | None \<Rightarrow> control_registers up ! r) \<and>
    control_is_pending (fold apply_update fs up) ! r =
      (find (\<lambda>f. reg_of f = r) fs \<noteq> None \<or> control_is_pending up ! r)"
  using assms
proof (induction fs arbitrary: up)
  case (Cons f fs)
  have wf: "update_wf (apply_update f up)" "distinct (map reg_of fs)" using Cons.prems by simp_all
  note IH = Cons.IH [OF wf(2,1) Cons.prems(3)]
  have none: "find (\<lambda>x. reg_of x = r) fs = None" if "reg_of f = r"
    using Cons.prems(1) that by (intro find_none) auto
  have len: "length (control_registers up) = MAX_CONTROL_REG" "length (control_is_pending up) = MAX_CONTROL_REG"
    using Cons.prems(2) by (simp_all add: update_wf_def)
  have one: "control_registers (apply_update f up) ! r = (if reg_of f = r then uf_new_value f else control_registers up ! r)"
      "control_is_pending (apply_update f up) ! r = (reg_of f = r \<or> control_is_pending up ! r)"
    using len Cons.prems(3) by (cases "reg_of f = r"; auto simp: apply_update_def Let_def)+
  show ?case
    using IH none by (cases "reg_of f = r") (auto simp: one split: option.splits)
qed simp

lemma command_fields_regs:
  assumes "length ps \<le> MAX_CONTROL_REG"
  shows "map reg_of (command_fields ps) = [0..<length ps]"
proof -
  have "unat (word_of_nat k :: u32) = k" if "k < length ps" for k
    using assms that by (intro unat_word_of_nat_small) (simp add: MAX_CONTROL_REG_def)
  then show ?thesis by (intro nth_equalityI) (simp_all add: command_fields_def control_field_def)
qed

lemma valid_command:
  "length ps \<le> MAX_CONTROL_REG \<Longrightarrow> mset fs = mset (command_fields ps) \<Longrightarrow> list_all valid_update fs"
proof -
  assume len: "length ps \<le> MAX_CONTROL_REG" and perm: "mset fs = mset (command_fields ps)"
  have "valid_update (control_field (word_of_nat k) x)" if "k < length ps" for k x
  proof -
    have "unat (word_of_nat k :: u32) = k"
      using len that by (intro unat_word_of_nat_small) (simp add: MAX_CONTROL_REG_def)
    with len that show ?thesis
      by (simp add: valid_update_def control_field_def PY_VOLATILE_CONTROL_REG_def VOLATILE_CONTROL_REG_def)
  qed
  then show ?thesis
    using mset_eq_setD [OF perm] by (auto simp: list_all_iff command_fields_def)
qed

text \<open>What an invocation collects after a command was staged in an empty mailbox.\<close>

lemma collect_command:
  assumes len: "length ps \<le> MAX_CONTROL_REG" and perm: "mset fs = mset (command_fields ps)"
  defines "up \<equiv> fold apply_update fs zero_update"
  shows "collect_params (control_is_pending up) (control_registers up) = ps"
    and "\<not> measure_is_pending up"
proof -
  have regs: "map reg_of (command_fields ps) = [0..<length ps]" using len by (rule command_fields_regs)
  have "mset (map reg_of fs) = mset [0..<length ps]"
    using arg_cong [OF perm, of "image_mset reg_of"] by (simp flip: regs)
  then have dist: "distinct (map reg_of fs)" and dom: "reg_of ` set fs = {..<length ps}"
    by (metis distinct_upt mset_eq_imp_distinct_iff, metis atLeast_upt mset_eq_setD set_map)
  have fs: "set fs = set (command_fields ps)" using perm by (rule mset_eq_setD)
  have nth: "command_fields ps ! k = control_field (word_of_nat k) (ps ! k)" if "k < length ps" for k
    using that by (simp add: command_fields_def)
  have hit: "find (\<lambda>f. reg_of f = k) fs = Some (control_field (word_of_nat k) (ps ! k))" if "k < length ps" for k
  proof -
    have "length (command_fields ps) = length ps" by (simp add: command_fields_def)
    then have "command_fields ps ! k \<in> set fs" unfolding fs using that by simp
    moreover have "reg_of (command_fields ps ! k) = k"
      using arg_cong [OF regs, of "\<lambda>xs. xs ! k"] that by (simp add: command_fields_def)
    ultimately show ?thesis using find_unique [OF dist, of "command_fields ps ! k"] nth [OF that] by simp
  qed
  have miss: "find (\<lambda>f. reg_of f = k) fs = None" if "length ps \<le> k" for k
    using dom that by (intro find_none) auto
  have wf: "update_wf up" by (simp add: up_def)
  then have ul: "length (control_registers up) = MAX_CONTROL_REG" "length (control_is_pending up) = MAX_CONTROL_REG"
    by (simp_all add: update_wf_def)
  have st: "control_registers up ! k = (case find (\<lambda>f. reg_of f = k) fs of Some f \<Rightarrow> uf_new_value f | None \<Rightarrow> control_registers zero_update ! k)"
      "control_is_pending up ! k = (find (\<lambda>f. reg_of f = k) fs \<noteq> None \<or> control_is_pending zero_update ! k)"
    if "k < MAX_CONTROL_REG" for k
    using staged_nth [OF dist update_wf_zero that] by (simp_all add: up_def)
  have zero: "control_is_pending zero_update ! k = False" if "k < MAX_CONTROL_REG" for k
    using that by (simp add: zero_update_def)
  have pend: "control_is_pending up = replicate (length ps) True @ replicate (MAX_CONTROL_REG - length ps) False"
    using len ul st(2) hit miss zero by (intro nth_equalityI) (auto simp: nth_append)
  have "take (length ps) (control_registers up) = ps"
    using len ul st(1) hit by (intro nth_equalityI) (auto simp: control_field_def)
  moreover have "takeWhile id (control_is_pending up) = replicate (length ps) True"
    unfolding pend by (simp add: takeWhile_append takeWhile_replicate)
  ultimately show "collect_params (control_is_pending up) (control_registers up) = ps"
    using collect_params_eq [of "control_is_pending up" "control_registers up"] ul by simp
  have "measure_is_pending (fold apply_update gs u) = measure_is_pending u" for gs u
    by (induction gs arbitrary: u) (simp_all add: apply_update_def Let_def)
  then show "\<not> measure_is_pending up" by (simp add: up_def zero_update_def)
qed

section \<open>The senders of the modules with several parameters\<close>

definition CUBIC_BIC_SCALE_REG :: u32 where [c_consts]: "CUBIC_BIC_SCALE_REG = 0"
definition CUBIC_BETA_REG :: u32 where [c_consts]: "CUBIC_BETA_REG = 1"

definition send_scubic_message :: "u32 \<Rightarrow> u64 \<Rightarrow> u64 \<Rightarrow> u8 list" where
  "send_scubic_message sock_id cubic_beta cubic_bic_scale =
     update_packet sock_id [control_field CUBIC_BETA_REG cubic_beta,
       control_field CUBIC_BIC_SCALE_REG cubic_bic_scale]"

text \<open>
  The keys of the Python set vanilla_action_keys and the register getattr finds for each. The set
  is iterated in an order of Python's choice, the argument \<open>keys\<close>; a missing key sends nothing.
\<close>

datatype vanilla_key = Vanilla_alpha | Vanilla_beta | Vanilla_gamma | Vanilla_delta

fun vanilla_reg :: "vanilla_key \<Rightarrow> u32" where
  "vanilla_reg Vanilla_alpha = 0"
| "vanilla_reg Vanilla_beta = 1"
| "vanilla_reg Vanilla_gamma = 2"
| "vanilla_reg Vanilla_delta = 3"

definition send_vanilla_message ::
  "vanilla_key list \<Rightarrow> (vanilla_key \<rightharpoonup> u64) \<Rightarrow> u32 \<Rightarrow> u8 list option" where
  "send_vanilla_message keys msg_data sock_id =
     (if list_ex (\<lambda>key. msg_data key = None) keys then None
      else Some (update_packet sock_id (map (\<lambda>key. control_field (vanilla_reg key) (the (msg_data key))) keys)))"

lemma send_vanilla_fields:
  assumes "mset keys = mset [Vanilla_alpha, Vanilla_beta, Vanilla_gamma, Vanilla_delta]"
  shows "mset (map (\<lambda>key. control_field (vanilla_reg key) (val key)) keys) =
    mset (command_fields (map val [Vanilla_alpha, Vanilla_beta, Vanilla_gamma, Vanilla_delta]))"
  using assms by (simp add: command_fields_def upt_rec numeral_eq_Suc)

lemma send_scubic_fields:
  "mset [control_field CUBIC_BETA_REG beta, control_field CUBIC_BIC_SCALE_REG scale] =
   mset (command_fields [scale, beta])"
  by (simp add: command_fields_def c_consts)

section \<open>Delivering a command\<close>

text \<open>
  Received for an announced connection with an empty mailbox and handed over by the next
  invocation, a command in any order of its fields reaches the module's setter as its parameters.
\<close>

lemma command_delivered:
  fixes T :: "('e, 'ts) time_api"
  assumes ok: "flows_ok setp fetchm T tzero N C dp" and sk: "C sk = Some (Some i)"
    and st: "conn_state (slots dp ! i) = PLive \<lparr>sent_create = True, pending_update = zero_update\<rparr>"
    and sid: "conn_index (slots dp ! i) = ucast sid" "(ucast sid :: u16) \<noteq> 0"
    and perm: "mset fs = mset (command_fields ps)" and len: "ps \<noteq> []" "length ps \<le> MAX_CONTROL_REG"
    and set: "\<And>c. conn_impl c = sk \<Longrightarrow> flow_info c = flow_info (slots dp ! i) \<Longrightarrow>
      setp c ps (word_of_nat (length ps)) w = Inr w'"
  shows "\<exists>dp1 dp2. spine_nl_recv (Some (spine_read_msg char_signed)) (Some dp)
      (nl_packet (update_packet sid fs)) = Inr (Some dp1) \<and>
    spine_invoke dp1 (Some i) w = Inr (0, dp2, w') \<and> pending_of dp2 i = zero_update"
proof -
  note D = flows_okD [OF ok] and live = flows_ok_conn(1) [OF ok sk] and impl = flows_ok_conn(2) [OF ok sk]
  have i: "i < length (slots dp)" using live by (rule live_slot_bound)
  let ?off = "turn_off_fto_timer dp" and ?up = "fold apply_update fs zero_update"
  let ?dp1 = "with_pending ?off i ?up"
  have pend: "pending_of dp i = zero_update" using st by (simp add: pending_of_def)
  have "length fs = length ps" using arg_cong [OF perm, of size] by (simp add: command_fields_def)
  with len have n: "0 < length fs" "length fs \<le> 20" by (auto simp: MAX_CONTROL_REG_def)
  have plen: "length (update_packet sid fs) = 12 + 13 * length fs" by simp
  have "spine_read_msg char_signed dp (update_packet sid fs @ []) (16 + int (length (update_packet sid fs))) =
      Inr (SPINE_OK, with_pending ?off i (fold apply_update fs (pending_of dp i)))"
    using n plen valid_command [OF len(2) perm]
    by (intro read_valid_update_packet [OF D(1,2) live sid]) simp_all
  then have recv: "spine_nl_recv (Some (spine_read_msg char_signed)) (Some dp)
      (nl_packet (update_packet sid fs)) = Inr (Some ?dp1)"
    using pend n plen by (intro nl_recv_packet [where ret = SPINE_OK]) simp_all
  have st': "conn_state (slots ?off ! i) = PLive \<lparr>sent_create = True, pending_update = zero_update\<rparr>"
    and i': "i < length (slots ?off)" using st i by simp_all
  note wp = with_pending_slot [OF i' st', of ?up]
  let ?c = "slots ?dp1 ! i"
  have c: "conn_state ?c = PLive \<lparr>sent_create = True, pending_update = ?up\<rparr>" "conn_impl ?c = sk"
    "flow_info ?c = flow_info (slots dp ! i)" "conn_datapath ?c"
    using impl dp_wf_slot [OF D(1) i] st by (simp_all add: wp conn_wf_def)
  have enf: "enforce_params ?dp1 ?c ps w = Inr w'"
    using set [OF c(2,3)] D(4) wp(3) len(1) by (simp add: enforce_params_def)
  have ans: "answer_measure_request ?dp1 i ?c ?up w' = Inr (0, ?dp1, w')"
    using collect_command(2) [OF len(2) perm] by (simp add: answer_measure_request_def)
  have live1: "live_slot ?dp1 i" using live by simp
  have "spine_invoke ?dp1 (Some i) w = Inr (0, with_pending ?dp1 i zero_update, w')"
    using spine_invoke_announced [of i ?dp1, OF _ c(1) _ c(4), of w] i wp(2)
      collect_command(1) [OF len(2) perm] enf ans put_pending_eq [OF live1, of zero_update] by simp
  with recv pending_with_pending [OF live1, of zero_update] show ?thesis by blast
qed

end
