(* ===== verification/Demo.thy ===== *)
theory Demo
  imports Netlink
begin

text \<open>
  Concrete inputs for the witnesses: a kernel whose clock ticks, whose allocations and sends
  succeed, a table of connections, a TCP stack and a socket. Nothing here models the program.
\<close>

section \<open>A concrete kernel for the witnesses\<close>

text \<open>A clock that ticks on every reading, buffers that can be had, a multicast that succeeds.\<close>

definition demo_time :: "(u64, int) time_api" where
  "demo_time = \<lparr>ktime_get_real_ts64 = (\<lambda>e. (uint e, e + 1000)), timespec64_sub = (\<lambda>a b. a - b),
     timespec64_add_ns = (\<lambda>a b. a + uint b), timespec64_to_ns = (\<lambda>a. word_of_int a)\<rparr>"

definition demo_nl :: "u64 nl_api" where
  "demo_nl = \<lparr>nlmsg_new = (\<lambda>n e. (True, e)), nlmsg_multicast = (\<lambda>msg e. (0, e))\<rparr>"

type_synonym demo_world = "(unit, u64) kworld"

definition demo_world :: demo_world where
  "demo_world = \<lparr>kw_socks = (\<lambda>_. None), kw_id = 0, kw_env = 5000\<rparr>"

definition demo_alloc :: "demo_world \<Rightarrow> bool \<times> demo_world" where
  "demo_alloc w = (True, w)"

definition demo_no_alloc :: "demo_world \<Rightarrow> bool \<times> demo_world" where
  "demo_no_alloc w = (False, w)"

definition demo_info :: spine_datapath_info where
  "demo_info = zero_info\<lparr>fi_mss := 1448, fi_alg := SPINE_NEO\<rparr>"

definition demo_dp :: "spine_connection list \<Rightarrow> demo_world spine_datapath" where
  "demo_dp cs = \<lparr>dp_set_params = Some (\<lambda>c ps n w. Inr w), dp_fetch_measurements = None,
     dp_send_msg = Some (kw_send demo_nl), dp_time_zero = 0, dp_now = Some (kw_now demo_time 0),
     dp_since_usecs = Some (kw_since demo_time 0), dp_after_usecs = Some (kw_after demo_time 0),
     dp_max_connections = word_of_nat (length cs), dp_connections = Some cs, dp_fto_us = 1000,
     dp_last_msg_sent = 0, dp_in_fallback = False\<rparr>"

definition demo_used :: "nat \<Rightarrow> spine_connection" where
  "demo_used i = fresh_conn zero_connection i 0 demo_info"

lemma conn_wf_demo_used: "Suc i \<le> 65535 \<Longrightarrow> conn_wf i (demo_used i)"
  unfolding demo_used_def by (rule conn_wf_fresh) (simp_all add: demo_info_def zero_info_def)

lemma slots_demo [simp]: "slots (demo_dp cs) = cs"
  by (simp add: slots_def demo_dp_def)

lemma demo_set_params: "dp_set_params (demo_dp cs) = Some (\<lambda>c ps n w. Inr w)"
  by (simp add: demo_dp_def)

lemma env_demo: "uses_env (kw_now demo_time 0) (kw_since demo_time 0) (kw_send demo_nl) (demo_dp cs)"
  by (simp add: uses_env_def demo_dp_def)

lemma dp_wf_demo:
  "length cs \<le> 65535 \<Longrightarrow> list_all (\<lambda>i. conn_wf i (cs ! i)) [0..<length cs] \<Longrightarrow> dp_wf (demo_dp cs)"
  by (auto simp: dp_wf_def demo_dp_def list_all_iff slots_def unat_word_of_nat_small)

lemma max_demo [simp]: "length cs \<le> 65535 \<Longrightarrow> unat (dp_max_connections (demo_dp cs)) = length cs"
  by (auto simp: demo_dp_def intro!: unat_word_of_nat_small)

text \<open>A table of three slots, the first in use.\<close>

definition demo_table :: "spine_connection list" where
  "demo_table = [demo_used 0, zero_connection, zero_connection]"

lemma demo_table_wf: "dp_wf (demo_dp demo_table)"
  by (rule dp_wf_demo) (simp_all add: demo_table_def conn_wf_demo_used upt_conv_Cons)

lemma demo_used_fields [simp]:
  "conn_index (demo_used i) = word_of_nat (Suc i)" "conn_state (demo_used i) = PLive zero_priv_state"
  "conn_datapath (demo_used i)" "conn_impl (demo_used i) = 0"
  "last_create_msg_sent (demo_used i) = 0"
  by (simp_all add: demo_used_def fresh_conn_def zero_connection_def)

lemma conn_index_zero [simp]: "conn_index zero_connection = 0"
  by (simp add: zero_connection_def)

definition demo_header :: SpineMsgHeader where
  "demo_header = \<lparr>hdr_Type = STATE, hdr_Len = 8, hdr_SocketId = 1\<rparr>"

lemma demo_table_max: "unat (dp_max_connections (demo_dp demo_table)) \<le> 65535"
  by (simp add: demo_table_def)

definition demo_pending :: staged_update where
  "demo_pending = apply_update (control_field 2 9) (apply_update (control_field 0 7) zero_update)"

lemma demo_pending_bits: "control_is_pending demo_pending = True # False # True # replicate 17 False"
proof -
  have "replicate 20 False = False # False # False # replicate 17 False"
    by (simp add: numeral_eq_Suc)
  moreover have "(a # b # c # xs)[2 := v] = a # b # v # xs" for a b c v :: bool and xs
    by (simp add: numeral_2_eq_2)
  ultimately show ?thesis
    by (simp add: demo_pending_def apply_update_def control_field_def zero_update_def
        MAX_CONTROL_REG_def Let_def)
qed

definition demo_announced :: spine_connection where
  "demo_announced = (demo_used 0)\<lparr>conn_state := PLive \<lparr>sent_create = True, pending_update = demo_pending\<rparr>\<rparr>"

lemma demo_announced_wf: "dp_wf (demo_dp [demo_announced, zero_connection])"
proof (rule dp_wf_demo)
  have "update_wf demo_pending" by (simp add: demo_pending_def)
  then have "conn_wf 0 demo_announced"
    unfolding demo_announced_def using conn_wf_demo_used [of 0]
    by (intro conn_wf_state) simp_all
  then show "list_all (\<lambda>i. conn_wf i ([demo_announced, zero_connection] ! i))
      [0..<length [demo_announced, zero_connection]]"
    by (simp add: upt_conv_Cons)
qed simp

section \<open>A socket\<close>

definition demo_sock :: tcp_sock where
  "demo_sock = \<lparr>snd_cwnd = 10, snd_cwnd_clamp = 4294967295, snd_ssthresh = 2147483647,
     packets_out = 8, srtt_us = 80000, mss_cache = 1448, data_segs_out = 40, tcp_mstamp = 100000,
     tp_lost = 0, tp_delivered = 32, lsndtime = 0, snd_nxt = 0, ecn_flags = 0, inet_saddr = 1,
     inet_daddr = 2, inet_sport = 3, inet_dport = 4, icsk_ca_state = TCP_CA_Open,
     sk_pacing_rate = 2097152, sk_max_pacing_rate = 18446744073709551615,
     sk_pacing_status = SK_PACING_NEEDED\<rparr>"

definition demo_tcp :: tcp_api where
  "demo_tcp = \<lparr>tcp_mss_to_mtu = (\<lambda>tp mss. mss + 52), tcp_packets_in_flight = packets_out,
     tcp_in_slow_start = (\<lambda>tp. snd_cwnd tp < snd_ssthresh tp), tcp_is_cwnd_limited = (\<lambda>tp. True),
     tcp_slow_start = (\<lambda>tp acked. (0, tp\<lparr>snd_cwnd := snd_cwnd tp + acked\<rparr>)),
     tcp_cong_avoid_ai = (\<lambda>tp cnt acked. tp), tcp_reno_undo_cwnd = snd_cwnd,
     INET_ECN_dontxmit = (\<lambda>tp. tp)\<rparr>"

end
