(* ===== verification/Spine_Properties.thy ===== *)
theory Spine_Properties
  imports Demo
begin

text \<open>
  Properties of the datapath library: the connection table, the handshake, the mailbox. Where
  an operation calls the clock or the transport, the statement is about the kernel's own
  (theories \<open>Tcp_Spine\<close> and \<open>Netlink\<close>), through the interpretation \<open>kernel_env\<close>.
\<close>

section \<open>The connection table\<close>



text \<open>With a free slot before the last one and memory for the private state, a start claims
  the first free slot j: it returns that slot, numbered j + 1, holding the caller's socket and
  flow description and a live private state; the table stays well-formed and every other slot
  is as before, however the create message fared.\<close>

theorem start_claims_first_free:
  fixes T :: "('e, 'ts) time_api" and dp :: "('ca, 'e) kworld spine_datapath"
  assumes "uses_env (kw_now T tzero) (kw_since T tzero) (kw_send N) dp"
    and "dp_wf dp" and "unat (dp_max_connections dp) \<le> 65535"
    and "length (fi_congAlg info) = MAX_CONG_ALG_SIZE" and "kcalloc w = (True, w1)"
    and "Suc j < length (slots dp)" and "conn_index (slots dp ! j) = 0"
    and "\<forall>i < j. conn_index (slots dp ! i) \<noteq> 0"
  shows "\<exists>dp' w'. spine_connection_start kcalloc dp impl info w = Inr (Some j, dp', w') \<and>
    dp_wf dp' \<and> live_slot dp' j \<and> length (slots dp') = length (slots dp) \<and>
    (let c = slots dp' ! j in unat (conn_index c) = Suc j \<and> conn_impl c = impl \<and>
       flow_info c = info \<and> conn_datapath c) \<and>
    (\<forall>i < length (slots dp). i \<noteq> j \<longrightarrow> slots dp' ! i = slots dp ! i)"
proof -
  have free: "first_free (slots dp) 0 = Some j"
    using assms(6-8) by (intro first_free_eq) (simp_all add: slot_free_def)
  let ?c = "fresh_conn (slots dp ! j) j impl info"
  obtain dp' w' where start: "spine_connection_start kcalloc dp impl info w = Inr (Some j, dp', w')"
    and wf: "dp_wf dp'" and live: "live_slot dp' j"
    and tr: "touches j (dp\<lparr>dp_connections := Some ((slots dp)[j := ?c])\<rparr>) dp'"
    using kernel_env.spine_connection_start_ok
      [where P = "\<lambda>_. True" and impl = impl and kcalloc = kcalloc and w = w, OF assms(1-3) free assms(6,5) TrueI assms(4)] by blast
  have len: "length (slots dp) = unat (dp_max_connections dp)" using assms(2) by (simp add: dp_wf_def)
  have "same_flow ?c (slots dp' ! j)" using tr assms(6) by (simp add: touches_def)
  moreover have "unat (word_of_nat (Suc j) :: u16) = Suc j"
    using assms(3,6) len by (intro unat_sid) simp
  ultimately have "let c = slots dp' ! j in unat (conn_index c) = Suc j \<and> conn_impl c = impl \<and>
       flow_info c = info \<and> conn_datapath c"
    by (simp add: same_flow_def fresh_conn_def Let_def del: of_nat_Suc)
  with start wf live tr show ?thesis by (auto simp: touches_def)
qed

theorem start_claims_first_free_witness:
  "\<exists>dp' w'. spine_connection_start demo_alloc (demo_dp demo_table) 4 demo_info demo_world =
      Inr (Some 1, dp', w') \<and>
    dp_wf dp' \<and> live_slot dp' 1 \<and> length (slots dp') = length (slots (demo_dp demo_table)) \<and>
    (let c = slots dp' ! 1 in unat (conn_index c) = Suc 1 \<and> conn_impl c = 4 \<and>
       flow_info c = demo_info \<and> conn_datapath c) \<and>
    (\<forall>i < length (slots (demo_dp demo_table)). i \<noteq> 1 \<longrightarrow> slots dp' ! i = slots (demo_dp demo_table) ! i)"
  by (rule start_claims_first_free [OF env_demo demo_table_wf])
    (simp_all add: demo_table_def demo_info_def zero_info_def demo_alloc_def)

text \<open>The last slot of the table is never handed out: when it is the only free one, a start
  claims it, returns NULL without touching the world, and leaves it marked as in use with no
  owner, so that every later start fails too.\<close>

theorem start_loses_last_slot:
  fixes dp :: "'w spine_datapath"
  assumes "dp_wf dp" and "unat (dp_max_connections dp) \<le> 65535"
    and "Suc j = length (slots dp)" and "conn_index (slots dp ! j) = 0"
    and "\<forall>i < j. conn_index (slots dp ! i) \<noteq> 0"
  shows "\<exists>dp'. spine_connection_start kcalloc dp impl info w = Inr (None, dp', w) \<and>
    slots dp' = (slots dp)[j := (slots dp ! j)\<lparr>conn_index := word_of_nat (Suc j)\<rparr>] \<and>
    (\<forall>impl' info' w'. spine_connection_start kcalloc dp' impl' info' w' = Inr (None, dp', w'))"
proof -
  let ?dp' = "dp\<lparr>dp_connections := Some (claimed (slots dp) j)\<rparr>"
  have free: "first_free (slots dp) 0 = Some j"
    using assms(3-5) by (intro first_free_eq) (simp_all add: slot_free_def)
  have len: "length (slots dp) = unat (dp_max_connections dp)" using assms(1) by (simp add: dp_wf_def)
  have wf: "dp_wf ?dp'" using assms(1-3) len by (intro dp_wf_claimed) simp_all
  have "unat (word_of_nat (Suc j) :: u16) = Suc j" using assms(2,3) len by (intro unat_sid) simp
  then have "(word_of_nat (Suc j) :: u16) \<noteq> 0" by auto
  then have "first_free (slots ?dp') 0 = None"
    using assms(3,5) by (auto simp: first_free_None slot_free_def claimed_nth less_Suc_eq
        simp del: of_nat_Suc)
  then have "spine_connection_start kcalloc ?dp' impl' info' w' = Inr (None, ?dp', w')" for impl' info' w'
    using wf assms(2) by (intro start_full) simp_all
  moreover have "spine_connection_start kcalloc dp impl info w = Inr (None, ?dp', w)"
    using assms(1-3) free by (intro start_last_slot)
  ultimately show ?thesis by (intro exI [of _ ?dp']) (simp add: claimed_def)
qed

theorem start_loses_last_slot_witness:
  "\<exists>dp'. spine_connection_start demo_alloc (demo_dp [demo_used 0, zero_connection]) 4 demo_info demo_world =
      Inr (None, dp', demo_world) \<and>
    slots dp' = (slots (demo_dp [demo_used 0, zero_connection]))
      [1 := (slots (demo_dp [demo_used 0, zero_connection]) ! 1)\<lparr>conn_index := word_of_nat (Suc 1)\<rparr>] \<and>
    (\<forall>impl' info' w'. spine_connection_start demo_alloc dp' impl' info' w' = Inr (None, dp', w'))"
  by (rule start_loses_last_slot)
    (auto intro!: dp_wf_demo simp: conn_wf_demo_used upt_conv_Cons)

text \<open>C38: When the private state of a claimed slot cannot be allocated, the start returns NULL and
  the slot keeps its number: it is found by a lookup, and a well-formed update for it makes the
  reader of messages dereference a NULL pointer.\<close>

theorem start_without_memory_leaks_slot:
  fixes dp :: "'w spine_datapath"
  assumes "dp_wf dp" and "unat (dp_max_connections dp) \<le> 65535"
    and "kcalloc w = (False, w1)" and "length (fi_congAlg info) = MAX_CONG_ALG_SIZE"
    and "Suc j < length (slots dp)" and "conn_index (slots dp ! j) = 0"
    and "\<forall>i < j. conn_index (slots dp ! i) \<noteq> 0"
  shows "\<exists>dp'. spine_connection_start kcalloc dp impl info w = Inr (None, dp', w1) \<and>
    spine_connection_lookup dp' (word_of_nat (Suc j)) = Inr (Some j) \<and>
    spine_read_msg char_signed dp' (update_packet (word_of_nat (Suc j)) [control_field 0 1]) 25 =
      Inl Null_Deref"
proof -
  let ?c = "(slots dp ! j)\<lparr>conn_index := word_of_nat (Suc j), conn_impl := impl, flow_info := info,
      conn_state := PNull\<rparr>"
  let ?dp' = "dp\<lparr>dp_connections := Some ((slots dp)[j := ?c])\<rparr>"
  have j: "j < length (slots dp)" using assms(5) by simp
  have len: "length (slots dp) = unat (dp_max_connections dp)" using assms(1) by (simp add: dp_wf_def)
  have small: "Suc j \<le> 65535" using assms(2,5) len by simp
  have sid: "unat (word_of_nat (Suc j) :: u16) = Suc j" using small by (rule unat_sid)
  then have sid0: "(word_of_nat (Suc j) :: u16) \<noteq> 0" by auto
  have free: "first_free (slots dp) 0 = Some j"
    using assms(5-7) by (intro first_free_eq) (simp_all add: slot_free_def)
  have start: "spine_connection_start kcalloc dp impl info w = Inr (None, ?dp', w1)"
    using assms(1,2) free assms(5,3) by (rule start_alloc_failure)
  have "conn_wf j ?c" using assms(4) sid by (simp add: conn_wf_def del: of_nat_Suc)
  with assms(1) j have wf: "dp_wf ?dp'" by (rule dp_wf_put)
  have max: "unat (dp_max_connections ?dp') \<le> 65535" using assms(2) by simp
  have look: "spine_connection_lookup ?dp' (word_of_nat (Suc j)) = Inr (Some j)"
    using lookup_used_slot [OF wf max, of j] j sid0 by (simp del: of_nat_Suc)
  have trunc: "ucast (word_of_nat (Suc j) :: u32) = (word_of_nat (Suc j) :: u16)"
    using small by (intro ucast_of_nat_small) simp_all
  let ?h = "\<lparr>hdr_Type = UPDATE_FIELDS, hdr_Len = word_of_nat (12 + length [control_field 0 1] * 13),
      hdr_SocketId = word_of_nat (Suc j)\<rparr>"
  have "spine_read_msg char_signed ?dp' (update_packet (word_of_nat (Suc j)) [control_field 0 1] @ []) 25 =
      read_update_fields char_signed (turn_off_fto_timer ?dp') j ?h
        (to_le 4 (word_of_nat (length [control_field 0 1]) :: u32) @
         concat (map update_field_bytes [control_field 0 1]) @ [])"
    using j sid0 trunc
    by (intro read_update_packet_slot [OF wf max]) (simp_all add: update_packet_eq del: of_nat_Suc)
  also have "\<dots> = Inl Null_Deref"
    using j check_update_count [of "[control_field 0 1]" ?h char_signed 0]
    by (simp add: read_update_fields_def get_spine_priv_state_def)
  finally show ?thesis using start look by (intro exI [of _ ?dp']) (simp del: of_nat_Suc)
qed

theorem start_without_memory_leaks_slot_witness:
  "\<exists>dp'. spine_connection_start demo_no_alloc (demo_dp demo_table) 4 demo_info demo_world =
      Inr (None, dp', demo_world) \<and>
    spine_connection_lookup dp' (word_of_nat (Suc 1)) = Inr (Some 1) \<and>
    spine_read_msg True dp' (update_packet (word_of_nat (Suc 1)) [control_field 0 1]) 25 = Inl Null_Deref"
  by (rule start_without_memory_leaks_slot [OF demo_table_wf])
    (simp_all add: demo_table_def demo_info_def zero_info_def demo_no_alloc_def)

text \<open>Freeing a connection by its number marks its private state freed and its slot unused and
  changes nothing else in the datapath; the number is then unknown, and freeing it again does
  nothing.\<close>

theorem free_releases_slot:
  fixes T :: "('e, 'ts) time_api" and dp :: "('ca, 'e) kworld spine_datapath"
  assumes "uses_env (kw_now T tzero) (kw_since T tzero) (kw_send N) dp"
    and "dp_wf dp" and "unat (dp_max_connections dp) \<le> 65535"
    and "live_slot dp i" and "conn_index (slots dp ! i) = sid" and "sid \<noteq> 0"
  shows "\<exists>dp' w'. spine_connection_free dp sid w = Inr (dp', w') \<and> kw_socks w' = kw_socks w \<and>
    dp' = dp\<lparr>dp_connections := Some ((slots dp)[i :=
      (slots dp ! i)\<lparr>conn_state := PFreed, conn_index := 0\<rparr>])\<rparr> \<and> dp_wf dp' \<and>
    spine_connection_lookup dp' sid = Inr None \<and> spine_connection_free dp' sid w' = Inr (dp', w')"
proof -
  let ?c = "(slots dp ! i)\<lparr>conn_state := PFreed, conn_index := 0\<rparr>"
  let ?dp' = "dp\<lparr>dp_connections := Some ((slots dp)[i := ?c])\<rparr>"
  have i: "i < length (slots dp)" using assms(4) by (rule live_slot_bound)
  obtain w' where free: "spine_connection_free dp sid w = Inr (?dp', w')"
    and socks: "kw_socks w' = kw_socks w"
    using kernel_env.spine_connection_free_ok
      [where P = "\<lambda>s. s = kw_socks w", OF assms(1) refl assms(2,4-6,3)] by blast
  have "conn_wf i ?c" using dp_wf_slot [OF assms(2) i] by (simp add: conn_wf_def)
  with assms(2) i have wf: "dp_wf ?dp'" by (rule dp_wf_put)
  have max: "unat (dp_max_connections ?dp') \<le> 65535" using assms(3) by simp
  have other: "j < length (slots dp) \<Longrightarrow> j \<noteq> i \<Longrightarrow> conn_index (slots dp ! j) \<noteq> sid" for j
    using dp_wf_slot [OF assms(2), of j] dp_wf_slot [OF assms(2) i] assms(5,6) by (auto simp: conn_wf_def)
  have none: "spine_connection_lookup ?dp' sid = Inr None"
    using other i assms(6) by (auto simp: lookup_eq [OF wf max] nth_list_update)
  have "spine_connection_free ?dp' sid w' = Inr (?dp', w')"
    by (rule free_unknown [OF wf max none])
  with free socks wf none show ?thesis by blast
qed

theorem free_releases_slot_witness:
  "\<exists>dp' w'. spine_connection_free (demo_dp demo_table) 1 demo_world = Inr (dp', w') \<and>
    kw_socks w' = kw_socks demo_world \<and>
    dp' = (demo_dp demo_table)\<lparr>dp_connections := Some ((slots (demo_dp demo_table))[0 :=
      (slots (demo_dp demo_table) ! 0)\<lparr>conn_state := PFreed, conn_index := 0\<rparr>])\<rparr> \<and> dp_wf dp' \<and>
    spine_connection_lookup dp' 1 = Inr None \<and> spine_connection_free dp' 1 w' = Inr (dp', w')"
  by (rule free_releases_slot [OF env_demo demo_table_wf])
    (simp_all add: demo_table_def live_slot_def)

section \<open>Messages from user space\<close>

text \<open>An update packet of the controller with fewer than 128 updates, all for control registers
  below 20, addressed to a live connection, stages every update in order in that connection's
  mailbox, reports success, turns the fallback timer off and changes nothing else.\<close>

theorem update_packet_delivered:
  assumes "dp_wf dp" and "unat (dp_max_connections dp) \<le> 65535" and "live_slot dp i"
    and "conn_index (slots dp ! i) = ucast sid" and "(ucast sid :: u16) \<noteq> 0"
    and "0 < length fs" and "length fs < 128" and "list_all valid_update fs"
    and "int (length (update_packet sid fs)) \<le> bufsize" and "bufsize < 2 ^ 31"
  shows "spine_read_msg char_signed dp (update_packet sid fs @ rest) bufsize =
    Inr (SPINE_OK, with_pending (turn_off_fto_timer dp) i (fold apply_update fs (pending_of dp i)))"
  using assms by (rule read_valid_update_packet)

theorem update_packet_delivered_witness:
  "spine_read_msg True (demo_dp demo_table) (update_packet 1 [control_field 0 1] @ []) 41 =
    Inr (SPINE_OK, with_pending (turn_off_fto_timer (demo_dp demo_table)) 0
      (fold apply_update [control_field 0 1] (pending_of (demo_dp demo_table) 0)))"
  by (rule update_packet_delivered [OF demo_table_wf])
    (simp_all add: demo_table_def live_slot_def valid_update_def control_field_def
      PY_VOLATILE_CONTROL_REG_def VOLATILE_CONTROL_REG_def MAX_CONTROL_REG_def update_packet_eq)

text \<open>Only the low 16 bits of the packet's 32-bit connection id count: ids that differ by a
  multiple of 65536 reach the same connection.\<close>

theorem socket_id_truncated:
  assumes "(ucast sid :: u16) = ucast sid'"
  shows "spine_read_msg char_signed dp (header_bytes
      \<lparr>hdr_Type = UPDATE_FIELDS, hdr_Len = l, hdr_SocketId = sid\<rparr> @ body) bufsize =
    spine_read_msg char_signed dp (header_bytes
      \<lparr>hdr_Type = UPDATE_FIELDS, hdr_Len = l, hdr_SocketId = sid'\<rparr> @ body) bufsize"
  using assms
  by (simp add: spine_read_msg_def read_header_header_bytes read_update_fields_def
      check_update_fields_msg_def Let_def cong: option.case_cong)

theorem socket_id_truncated_witness:
  "spine_read_msg True (demo_dp demo_table) (header_bytes
      \<lparr>hdr_Type = UPDATE_FIELDS, hdr_Len = 9, hdr_SocketId = 65537\<rparr> @ [0]) 9 =
    spine_read_msg True (demo_dp demo_table) (header_bytes
      \<lparr>hdr_Type = UPDATE_FIELDS, hdr_Len = 9, hdr_SocketId = 1\<rparr> @ [0]) 9"
  by (rule socket_id_truncated) simp

text \<open>C39: A packet of the controller that updates a control register numbered 20 or more, after any
  valid updates, makes the reader write outside the mailbox's register arrays: the index comes
  from user space and is not checked.\<close>

theorem register_index_unchecked:
  assumes "dp_wf dp" and "unat (dp_max_connections dp) \<le> 65535" and "live_slot dp i"
    and "conn_index (slots dp ! i) = ucast sid" and "(ucast sid :: u16) \<noteq> 0"
    and "length fs < 127" and "list_all valid_update fs" and "MAX_CONTROL_REG \<le> unat reg"
    and "int (length (update_packet sid (fs @ [control_field reg x]))) \<le> bufsize" and "bufsize < 2 ^ 31"
  shows "spine_read_msg char_signed dp (update_packet sid (fs @ [control_field reg x])) bufsize =
    Inl Out_Of_Bounds"
proof -
  let ?fs = "fs @ [control_field reg x]" and ?dp = "turn_off_fto_timer dp"
  from assms(3) obtain st where i: "i < length (slots dp)" and st: "conn_state (slots dp ! i) = PLive st"
    by (auto simp: live_slot_def)
  have up: "update_wf (pending_update st)"
    using pending_wf [OF assms(1,3)] st by (simp add: pending_of_def)
  have n: "length ?fs < 128" using assms(6) by simp
  let ?h = "\<lparr>hdr_Type = UPDATE_FIELDS, hdr_Len = word_of_nat (12 + length ?fs * 13), hdr_SocketId = sid\<rparr>"
  have cnt: "unat (word_of_nat (length ?fs) :: u32) = length ?fs"
    using n by (intro unat_word_of_nat_small) simp
  have "stage_multiple_updates (pending_update st) (Suc (length fs + 0))
      (concat (map update_field_bytes fs) @ update_field_bytes (control_field reg x) @ []) = Inl Out_Of_Bounds"
    using up assms(7,8) by (intro stage_out_of_bounds) (simp_all add: control_field_def c_consts)
  then have stage: "stage_multiple_updates (pending_update st) (unat (word_of_nat (length ?fs) :: u32))
      (concat (map update_field_bytes ?fs)) = Inl Out_Of_Bounds"
    by (simp only: cnt) simp
  have "spine_read_msg char_signed dp (update_packet sid ?fs @ []) bufsize =
      read_update_fields char_signed ?dp i ?h
        (to_le 4 (word_of_nat (length ?fs) :: u32) @ concat (map update_field_bytes ?fs) @ [])"
    by (rule read_update_packet [OF assms(1-5) n assms(9,10)])
  also have "\<dots> = Inl Out_Of_Bounds"
  proof -
    have "(word_of_nat (length ?fs) :: u32) \<noteq> 0" using cnt by (metis Zero_not_Suc length_append_singleton unsigned_0)
    then show ?thesis
      using check_update_count [OF n, of ?h char_signed 0 "concat (map update_field_bytes ?fs) @ []"] i st stage
      by (simp only: read_update_fields_def) (simp add: get_spine_priv_state_def del: to_le.simps of_nat_Suc)
  qed
  finally show ?thesis by simp
qed

theorem register_index_unchecked_witness:
  "spine_read_msg True (demo_dp demo_table) (update_packet 1 ([control_field 0 1] @ [control_field 20 7])) 54 =
    Inl Out_Of_Bounds"
  by (rule register_index_unchecked [where i = 0, OF demo_table_wf])
    (simp_all add: demo_table_def live_slot_def valid_update_def control_field_def
      PY_VOLATILE_CONTROL_REG_def VOLATILE_CONTROL_REG_def MAX_CONTROL_REG_def update_packet_eq)

lemma read_msg_frame:
  assumes "dp_wf dp" and "unat (dp_max_connections dp) \<le> 65535"
    and "spine_read_msg char_signed dp buf bufsize = Inr (ret, dp')"
  shows "dp_wf dp' \<and> (dp' = dp \<or> dp' = turn_off_fto_timer dp \<or>
    (\<exists>i up. dp' = with_pending (turn_off_fto_timer dp) i up \<and> live_slot dp i \<and>
      spine_connection_lookup dp (ucast (hdr_SocketId (header_of_bytes (take 8 buf)))) = Inr (Some i)))"
proof -
  let ?dp = "turn_off_fto_timer dp" and ?sid = "ucast (hdr_SocketId (header_of_bytes (take 8 buf))) :: u16"
  have wf: "dp_wf ?dp" using assms(1) by simp
  have look: "spine_connection_lookup ?dp ?sid = spine_connection_lookup dp ?sid"
    using assms(1,2) wf by (simp add: lookup_eq)
  from read_msg_cases [OF assms(3)]
  consider "dp' = dp" | "dp' = ?dp"
    | i h msg where "spine_connection_lookup ?dp ?sid = Inr (Some i)"
        "read_update_fields char_signed ?dp i h msg = Inr (ret, dp') \<or>
         read_measure_request char_signed ?dp i h msg = Inr (ret, dp')"
    by blast
  then show ?thesis
  proof cases
    case (3 i h msg)
    then have "dp' = ?dp \<or> (\<exists>up. live_slot ?dp i \<and> update_wf up \<and> dp' = with_pending ?dp i up)"
      using read_update_fields_frame [OF wf] read_measure_request_frame [OF wf] by blast
    then show ?thesis using wf 3(1) look dp_wf_with_pending [OF wf, of i] by auto
  qed (use assms(1) wf in simp_all)
qed

text \<open>C19: Whatever bytes arrive, a read that does not fault keeps the table well-formed and
  changes at most the fallback timer and the mailbox of one connection: one that is live and
  that a lookup of the id in the message finds.\<close>

theorem read_msg_touches_one_mailbox:
  assumes "dp_wf dp" and "unat (dp_max_connections dp) \<le> 65535"
    and "spine_read_msg char_signed dp buf bufsize = Inr (ret, dp')"
  shows "dp_wf dp' \<and> (dp' = dp \<or> dp' = turn_off_fto_timer dp \<or>
    (\<exists>i up. dp' = with_pending (turn_off_fto_timer dp) i up \<and> live_slot dp i \<and>
      spine_connection_lookup dp (ucast (hdr_SocketId (header_of_bytes (take 8 buf)))) = Inr (Some i)))"
  using assms by (rule read_msg_frame)

theorem read_msg_touches_one_mailbox_witness:
  "\<exists>ret dp'. spine_read_msg True (demo_dp demo_table) (header_bytes demo_header) 8 = Inr (ret, dp') \<and>
    dp_wf dp' \<and> (dp' = demo_dp demo_table \<or> dp' = turn_off_fto_timer (demo_dp demo_table) \<or>
    (\<exists>i up. dp' = with_pending (turn_off_fto_timer (demo_dp demo_table)) i up \<and>
      live_slot (demo_dp demo_table) i \<and> spine_connection_lookup (demo_dp demo_table)
        (ucast (hdr_SocketId (header_of_bytes (take 8 (header_bytes demo_header))))) = Inr (Some i)))"
proof -
  have "spine_read_msg True (demo_dp demo_table) (header_bytes demo_header @ []) 8 =
      Inr (SPINE_OK, turn_off_fto_timer (demo_dp demo_table))"
    by (subst read_msg_dispatch [OF demo_table_wf demo_table_max, where i = 0])
      (simp_all add: demo_header_def demo_table_def c_consts)
  then show ?thesis
    using read_msg_touches_one_mailbox [OF demo_table_wf demo_table_max, of True "header_bytes demo_header @ []" 8]
    by auto
qed

section \<open>Invocation by the module\<close>

text \<open>C28: An invocation of an announced connection without a pending measurement request calls the
  module's setter once, with exactly the values of the registers before the first one that is
  not pending, or not at all when register 0 is not pending; it then empties the whole mailbox,
  so that registers staged behind a gap are dropped without being enforced.\<close>

theorem invoke_hands_over_prefix:
  assumes "dp_wf dp" and "i < length (slots dp)" and "conn_state (slots dp ! i) = PLive st"
    and "sent_create st" and "dp_set_params dp = Some setp"
    and "\<not> measure_is_pending (pending_update st)"
    and "k = length (takeWhile id (control_is_pending (pending_update st)))"
  shows "spine_invoke dp (Some i) w =
    (if k = 0 then Inr (0, with_pending dp i zero_update, w)
     else rbind (setp (slots dp ! i) (take k (control_registers (pending_update st))) (word_of_nat k) w)
       (\<lambda>w'. Inr (0, with_pending dp i zero_update, w')))"
proof -
  let ?up = "pending_update st"
  have up: "update_wf ?up" and linked: "conn_datapath (slots dp ! i)"
    using dp_wf_slot [OF assms(1,2)] assms(3) by (auto simp: conn_wf_def)
  have ps: "collect_params (control_is_pending ?up) (control_registers ?up) =
      take k (control_registers ?up)"
    using up assms(7) by (simp add: collect_params_eq update_wf_def)
  have k: "k \<le> length (control_registers ?up)"
    using up assms(7) length_takeWhile_le [of id "control_is_pending ?up"] by (simp add: update_wf_def)
  have live: "live_slot dp i" using assms(2,3) by (simp add: live_slot_def)
  have ans: "answer_measure_request dp i (slots dp ! i) ?up w' = Inr (0, dp, w')" for w'
    using assms(6) by (simp add: answer_measure_request_def)
  have enf: "enforce_params dp (slots dp ! i) (take k (control_registers ?up)) w =
      (if k = 0 then Inr w
       else setp (slots dp ! i) (take k (control_registers ?up)) (word_of_nat k) w)"
    using assms(5) k by (auto simp: enforce_params_def min_absorb2)
  show ?thesis
    unfolding spine_invoke_announced [OF assms(2-4) linked] ps enf
    by (simp add: ans put_pending_eq [OF live])
qed

theorem invoke_hands_over_prefix_witness:
  "spine_invoke (demo_dp [demo_announced, zero_connection]) (Some 0) demo_world =
    (if (1 :: nat) = 0 then Inr (0, with_pending (demo_dp [demo_announced, zero_connection]) 0 zero_update, demo_world)
     else rbind ((\<lambda>c ps n w. Inr w) (slots (demo_dp [demo_announced, zero_connection]) ! 0)
        (take 1 (control_registers demo_pending)) (word_of_nat 1) demo_world)
       (\<lambda>w'. Inr (0, with_pending (demo_dp [demo_announced, zero_connection]) 0 zero_update, w')))"
proof -
  have k: "1 = length (takeWhile id (control_is_pending demo_pending))"
    by (simp add: demo_pending_bits)
  let ?st = "\<lparr>sent_create = True, pending_update = demo_pending\<rparr>"
  have "\<not> measure_is_pending demo_pending"
    by (simp add: demo_pending_def apply_update_def zero_update_def Let_def)
  then show ?thesis
    using invoke_hands_over_prefix [where st = ?st and setp = "\<lambda>c ps n w. Inr w" and k = 1 and w = demo_world,
        OF demo_announced_wf] k
    by (simp add: demo_announced_def demo_set_params)
qed

text \<open>Until user space has been told of a connection, an invocation only tries to send the
  create message: it succeeds whatever the transport answers, calls neither callback of the
  module (no socket changes), and keeps everything staged in the mailbox.\<close>

theorem invoke_before_announcement_keeps_mailbox:
  fixes T :: "('e, 'ts) time_api" and dp :: "('ca, 'e) kworld spine_datapath"
  assumes "uses_env (kw_now T tzero) (kw_since T tzero) (kw_send N) dp" and "dp_wf dp"
    and "i < length (slots dp)" and "conn_state (slots dp ! i) = PLive st" and "\<not> sent_create st"
  shows "\<exists>dp' w'. spine_invoke dp (Some i) w = Inr (SPINE_OK, dp', w') \<and> dp_wf dp' \<and>
    kw_socks w' = kw_socks w \<and> touches i dp dp' \<and> live_slot dp' i \<and> pending_of dp' i = pending_update st"
proof -
  have linked: "conn_datapath (slots dp ! i)"
    using dp_wf_slot [OF assms(2,3)] assms(4) by (auto simp: conn_wf_def)
  obtain ret dp1 w1 where create: "send_conn_create dp i w = Inr (ret, dp1, w1)"
    and socks: "kw_socks w1 = kw_socks w" and wf1: "dp_wf dp1" and tr1: "touches i dp dp1"
    and st1: "conn_state (slots dp1 ! i) = conn_state (slots dp ! i)"
    using kernel_env.send_conn_create_ok [where P = "\<lambda>s. s = kw_socks w", OF assms(1) refl assms(2,3)]
    by blast
  have i1: "i < length (slots dp1)" using touches_callbacks(7) [OF tr1] assms(3) by simp
  have live1: "live_slot dp1 i" "pending_of dp1 i = pending_update st"
    using st1 assms(4) i1 by (simp_all add: live_slot_def pending_of_def)
  obtain dp2 where succ: "spine_conn_create_success dp1 i = Inr dp2" and wf2: "dp_wf dp2"
    and tr2: "touches i dp1 dp2" and live2: "live_slot dp2 i"
    using spine_conn_create_success_ok [OF wf1 live1(1)] by blast
  have pend2: "pending_of dp2 i = pending_update st"
    using succ st1 assms(4) i1
    by (auto simp: spine_conn_create_success_def get_spine_priv_state_def pending_of_def)
  have inv: "spine_invoke dp (Some i) w =
      (if ret < 0 then Inr (SPINE_OK, dp1, w1) else Inr (SPINE_OK, dp2, w1))"
    using assms(3-5) linked create succ by (simp add: spine_invoke_def get_spine_priv_state_def)
  have tr: "touches i dp dp2" using tr1 tr2 by (rule touches_trans)
  show ?thesis
  proof (cases "ret < 0")
    case True
    with inv wf1 socks tr1 live1 show ?thesis by simp
  next
    case False
    with inv wf2 socks tr live2 pend2 show ?thesis by simp
  qed
qed

theorem invoke_before_announcement_keeps_mailbox_witness:
  "\<exists>dp' w'. spine_invoke (demo_dp demo_table) (Some 0) demo_world = Inr (SPINE_OK, dp', w') \<and> dp_wf dp' \<and>
    kw_socks w' = kw_socks demo_world \<and> touches 0 (demo_dp demo_table) dp' \<and> live_slot dp' 0 \<and>
    pending_of dp' 0 = pending_update zero_priv_state"
  by (rule invoke_before_announcement_keeps_mailbox [OF env_demo demo_table_wf])
    (simp_all add: demo_table_def zero_priv_state_def)

text \<open>A slot that is claimed again within 100 ms of its previous owner's create message never
  announces its new owner at the start: the timestamp of the old message survives in the slot,
  so the start returns the connection with no message sent and the create still unsent.\<close>

theorem reused_slot_suppresses_create:
  fixes T :: "('e, 'ts) time_api" and dp :: "('ca, 'e) kworld spine_datapath"
  assumes "uses_env (kw_now T tzero) (kw_since T tzero) (kw_send N) dp"
    and "dp_wf dp" and "unat (dp_max_connections dp) \<le> 65535" and "kcalloc w = (True, w1)"
    and "Suc j < length (slots dp)" and "conn_index (slots dp ! j) = 0"
    and "\<forall>i < j. conn_index (slots dp ! i) \<noteq> 0"
    and "last_create_msg_sent (slots dp ! j) \<noteq> 0"
    and "kw_since T tzero (last_create_msg_sent (slots dp ! j)) w1 = (us, w2)"
    and "us < CREATE_TIMEOUT_US"
  shows "spine_connection_start kcalloc dp impl info w = Inr (Some j, dp\<lparr>dp_connections :=
      Some ((slots dp)[j := (slots dp ! j)\<lparr>conn_index := word_of_nat (Suc j), conn_impl := impl,
        flow_info := info, conn_state := PLive \<lparr>sent_create = False, pending_update = zero_update\<rparr>,
        conn_datapath := True\<rparr>])\<rparr>, w2)"
proof -
  have free: "first_free (slots dp) 0 = Some j"
    using assms(5-7) by (intro first_free_eq) (simp_all add: slot_free_def)
  let ?c = "fresh_conn (slots dp ! j) j impl info"
  let ?dp3 = "dp\<lparr>dp_connections := Some ((slots dp)[j := ?c])\<rparr>"
  have "create_pending ?dp3 ?c w1 = Inr (True, w2)"
    using assms(1,8-10) by (simp add: create_pending_def fresh_conn_def uses_env_def)
  then have "send_conn_create ?dp3 j w1 = Inr (SPINE_CREATE_PENDING, ?dp3, w2)"
    using assms(5) by (simp add: send_conn_create_def)
  then show ?thesis
    using start_claimed [of dp j kcalloc w w1 impl info, OF assms(2,3) free assms(5,4)]
    by (simp add: SPINE_CREATE_PENDING_def fresh_conn_def zero_priv_state_def Let_def)
qed

definition demo_recycled :: spine_connection where
  "demo_recycled = zero_connection\<lparr>last_create_msg_sent := 3000\<rparr>"

theorem reused_slot_suppresses_create_witness:
  "spine_connection_start demo_alloc (demo_dp [demo_recycled, zero_connection]) 4 demo_info demo_world =
    Inr (Some 0, (demo_dp [demo_recycled, zero_connection])\<lparr>dp_connections :=
      Some ((slots (demo_dp [demo_recycled, zero_connection]))[0 :=
        (slots (demo_dp [demo_recycled, zero_connection]) ! 0)\<lparr>conn_index := word_of_nat (Suc 0), conn_impl := 4,
        flow_info := demo_info, conn_state := PLive \<lparr>sent_create = False, pending_update = zero_update\<rparr>,
        conn_datapath := True\<rparr>])\<rparr>, demo_world\<lparr>kw_env := 6000\<rparr>)"
proof (rule reused_slot_suppresses_create [OF env_demo])
  show "dp_wf (demo_dp [demo_recycled, zero_connection])"
    by (rule dp_wf_demo) (simp_all add: demo_recycled_def upt_conv_Cons)
  show "kw_since demo_time 0 (last_create_msg_sent (slots (demo_dp [demo_recycled, zero_connection]) ! 0))
      demo_world = (2, demo_world\<lparr>kw_env := 6000\<rparr>)"
    by (simp add: kw_since_def spine_since_def demo_time_def demo_world_def demo_recycled_def
        NSEC_PER_USEC_def)
qed (simp_all add: demo_alloc_def demo_recycled_def zero_connection_def CREATE_TIMEOUT_US_def)

section \<open>The clock\<close>

text \<open>
  The documented behaviour of the kernel's timestamps: a timestamp is a number of nanoseconds
  \<open>ns\<close>, to which addition adds and which subtraction subtracts.
\<close>

definition clock_laws :: "('ts \<Rightarrow> int) \<Rightarrow> ('e, 'ts) time_api \<Rightarrow> bool" where
  "clock_laws ns T \<longleftrightarrow>
     (\<forall>a b. timespec64_to_ns T (timespec64_sub T a b) = word_of_int (ns a - ns b)) \<and>
     (\<forall>a x. ns (timespec64_add_ns T a x) = ns a + uint x)"

text \<open>The clock pair is consistent: with \<open>before\<close> taken from \<open>spine_now\<close>, a later
  \<open>spine_since\<close> is the whole number of microseconds between the two readings of the kernel's
  clock (for times after the module was loaded and spans below 2^63 ns).\<close>

theorem spine_since_elapsed:
  fixes T :: "('e, 'ts) time_api" and ns :: "'ts \<Rightarrow> int"
  assumes "clock_laws ns T"
    and "ktime_get_real_ts64 T e0 = (ts0, e1)" and "ktime_get_real_ts64 T e2 = (ts1, e3)"
    and "ns tzero \<le> ns ts0" and "ns ts0 - ns tzero < 2 ^ 64"
    and "ns ts0 \<le> ns ts1" and "ns ts1 - ns ts0 < 2 ^ 63"
  shows "spine_since T tzero (fst (spine_now T tzero e0)) e2 =
    (word_of_int ((ns ts1 - ns ts0) div 1000), e3)"
proof -
  have now: "spine_now T tzero e0 = (word_of_int (ns ts0 - ns tzero), e1)"
    using assms(1,2) by (simp add: spine_now_def clock_laws_def)
  have "uint (word_of_int (ns ts0 - ns tzero) :: u64) = ns ts0 - ns tzero"
    using assms(4,5) by (intro uint_word_of_int_small) simp_all
  then have diff: "timespec64_to_ns T (timespec64_sub T ts1
      (timespec64_add_ns T tzero (word_of_int (ns ts0 - ns tzero)))) = word_of_int (ns ts1 - ns ts0)"
    using assms(1) by (simp only: clock_laws_def) simp
  have "sint (word_of_int (ns ts1 - ns ts0) :: u64) = ns ts1 - ns ts0"
    using assms(6,7) by (intro sint_word_of_int_small) simp_all
  then show ?thesis
    using now diff assms(3,6)
    by (simp add: spine_since_def NSEC_PER_USEC_def sdiv_nonneg)
qed

theorem spine_since_elapsed_witness:
  "spine_since demo_time 7 (fst (spine_now demo_time 7 5000)) 9500 =
    (word_of_int (((9500 :: int) - 5000) div 1000), 10500)"
  by (rule spine_since_elapsed [where ns = "\<lambda>t. t" and ?e1.0 = 6000])
    (simp_all add: clock_laws_def demo_time_def)

end
