(* ===== verification/Lifecycle.thy ===== *)
theory Lifecycle
  imports Spine_Properties
begin

text \<open>
  The life of a connection slot as a transition relation: unused, claimed by a start that failed
  (orphaned), in use but not yet announced to user space, announced, and unused again. Every call
  of the library that returns, whatever the module's callbacks and the allocator do, moves at most
  one slot, and that slot along this relation.
\<close>

section \<open>Phases\<close>

datatype phase = Unused | Orphaned | Announcing | Announced

definition phase_of :: "spine_connection \<Rightarrow> phase" where
  "phase_of c = (if conn_index c = 0 then Unused
     else case conn_state c of
       PLive st \<Rightarrow> if sent_create st then Announced else Announcing
     | _ \<Rightarrow> Orphaned)"

inductive life :: "phase \<Rightarrow> phase \<Rightarrow> bool" where
  claim: "life Unused Announcing"
| claim_announced: "life Unused Announced"
| claim_lost: "life Unused Orphaned"
| announce: "life Announcing Announced"
| release: "p \<noteq> Unused \<Longrightarrow> life p Unused"

inductive_simps life_from_Announced: "life Announced p"
inductive_simps life_from_Orphaned: "life Orphaned p"

lemma phase_Unused [simp]: "phase_of c = Unused \<longleftrightarrow> conn_index c = 0"
  by (auto simp: phase_of_def split: priv_ptr.splits if_splits)

lemma phase_cong: "conn_index c' = conn_index c \<Longrightarrow> conn_state c' = conn_state c \<Longrightarrow> phase_of c' = phase_of c"
  by (simp add: phase_of_def)

section \<open>Calls of the library\<close>

text \<open>A call that returns; between calls anything may happen to the world.\<close>

datatype lib_op =
    Op_Start nat spine_datapath_info
  | Op_Free u16
  | Op_Invoke nat
  | Op_Read "u8 list" int
  | Op_World

inductive lib_step ::
  "('w \<Rightarrow> bool \<times> 'w) \<Rightarrow> bool \<Rightarrow> lib_op \<Rightarrow> 'w spine_datapath \<times> 'w \<Rightarrow> 'w spine_datapath \<times> 'w \<Rightarrow> bool"
  for kcalloc cs where
  start: "spine_connection_start kcalloc dp impl info w = Inr (r, dp', w') \<Longrightarrow>
    length (fi_congAlg info) = MAX_CONG_ALG_SIZE \<Longrightarrow> lib_step kcalloc cs (Op_Start impl info) (dp, w) (dp', w')"
| free: "spine_connection_free dp sid w = Inr (dp', w') \<Longrightarrow> lib_step kcalloc cs (Op_Free sid) (dp, w) (dp', w')"
| invoke: "spine_invoke dp (Some i) w = Inr (ret, dp', w') \<Longrightarrow> lib_step kcalloc cs (Op_Invoke i) (dp, w) (dp', w')"
| read: "spine_read_msg cs dp buf n = Inr (ret, dp') \<Longrightarrow> lib_step kcalloc cs (Op_Read buf n) (dp, w) (dp', w)"
| world: "lib_step kcalloc cs Op_World (dp, w) (dp, w')"

inductive lib_run ::
  "('w \<Rightarrow> bool \<times> 'w) \<Rightarrow> bool \<Rightarrow> lib_op list \<Rightarrow> 'w spine_datapath \<times> 'w \<Rightarrow> 'w spine_datapath \<times> 'w \<Rightarrow> bool"
  for kcalloc cs where
  finish: "lib_run kcalloc cs [] s s"
| more: "lib_step kcalloc cs op s s' \<Longrightarrow> lib_run kcalloc cs ops s' s'' \<Longrightarrow> lib_run kcalloc cs (op # ops) s s''"

section \<open>What a call does to a slot\<close>

definition moves :: "lib_op \<Rightarrow> spine_connection \<Rightarrow> spine_connection \<Rightarrow> bool" where
  "moves op c c' \<longleftrightarrow>
     same_flow c c' \<and> (phase_of c' = phase_of c \<or> phase_of c = Announcing \<and> phase_of c' = Announced) \<and>
       (last_create_msg_sent c' = last_create_msg_sent c \<or> (\<exists>i. op = Op_Invoke i)) \<or>
     conn_index c = 0 \<and> conn_index c' \<noteq> 0 \<and> (\<exists>impl info. op = Op_Start impl info) \<or>
     conn_index c \<noteq> 0 \<and> conn_index c' = 0 \<and> op = Op_Free (conn_index c)"

lemma moves_refl [simp]: "moves op c c"
  by (simp add: moves_def)

lemma moves_life: "moves op c c' \<Longrightarrow> phase_of c' = phase_of c \<or> life (phase_of c) (phase_of c')"
proof -
  have claim: "life Unused p" if "p \<noteq> Unused" for p
    using that by (cases p) (auto intro: life.intros)
  assume "moves op c c'"
  then consider "phase_of c' = phase_of c" | "phase_of c = Announcing" "phase_of c' = Announced"
    | "phase_of c = Unused" "phase_of c' \<noteq> Unused" | "phase_of c \<noteq> Unused" "phase_of c' = Unused"
    unfolding moves_def phase_Unused by blast
  then show ?thesis by cases (metis life.intros claim)+
qed

text \<open>Only an invocation or a start sends a create message.\<close>

lemma moves_quiet:
  "moves op c c' \<Longrightarrow> conn_index c \<noteq> 0 \<Longrightarrow> conn_index c' \<noteq> 0 \<Longrightarrow> (\<And>i. op \<noteq> Op_Invoke i) \<Longrightarrow>
   last_create_msg_sent c' = last_create_msg_sent c"
  by (auto simp: moves_def)

text \<open>At most slot \<open>i\<close> moves.\<close>

definition one_move :: "lib_op \<Rightarrow> nat \<Rightarrow> 'w spine_datapath \<Rightarrow> 'w spine_datapath \<Rightarrow> bool" where
  "one_move op i dp dp' \<longleftrightarrow> length (slots dp') = length (slots dp) \<and>
     (\<forall>k < length (slots dp). k \<noteq> i \<longrightarrow> slots dp' ! k = slots dp ! k) \<and>
     (i < length (slots dp) \<longrightarrow> moves op (slots dp ! i) (slots dp' ! i))"

lemma one_move_same: "slots dp' = slots dp \<Longrightarrow> one_move op i dp dp'"
  by (simp add: one_move_def)

lemma one_move_put:
  "i < length (slots dp) \<Longrightarrow> moves op (slots dp ! i) c \<Longrightarrow>
   slots dp' = (slots dp)[i := c] \<Longrightarrow> one_move op i dp dp'"
  by (simp add: one_move_def)

lemma one_move_touches:
  assumes "touches i dp dp'" and "phase_of (slots dp' ! i) = phase_of (slots dp ! i) \<or>
    phase_of (slots dp ! i) = Announcing \<and> phase_of (slots dp' ! i) = Announced"
    and "last_create_msg_sent (slots dp' ! i) = last_create_msg_sent (slots dp ! i) \<or> (\<exists>i. op = Op_Invoke i)"
  shows "one_move op i dp dp'"
  using assms by (auto simp: touches_def one_move_def moves_def)

text \<open>The invariant of the datapath: the table is in order and the callbacks are the kernel's.\<close>

definition lib_inv :: "('e, 'ts) time_api \<Rightarrow> 'ts \<Rightarrow> 'e nl_api \<Rightarrow> ('ca, 'e) kworld spine_datapath \<Rightarrow> bool" where
  "lib_inv T tzero N dp \<longleftrightarrow> dp_wf dp \<and> unat (dp_max_connections dp) \<le> 65535 \<and>
     uses_env (kw_now T tzero) (kw_since T tzero) (kw_send N) dp"

lemma lib_invD:
  assumes "lib_inv T tzero N dp"
  shows "dp_wf dp" "unat (dp_max_connections dp) \<le> 65535"
    "uses_env (kw_now T tzero) (kw_since T tzero) (kw_send N) dp"
  using assms by (simp_all add: lib_inv_def)

lemma lib_inv_touches: "lib_inv T tzero N dp \<Longrightarrow> touches i dp dp' \<Longrightarrow> dp_wf dp' \<Longrightarrow> lib_inv T tzero N dp'"
  using uses_env_touches [of i dp dp'] by (simp add: lib_inv_def touches_callbacks)

lemma lib_inv_put:
  "lib_inv T tzero N dp \<Longrightarrow> i < length (slots dp) \<Longrightarrow> conn_wf i c \<Longrightarrow>
   lib_inv T tzero N (dp\<lparr>dp_connections := Some ((slots dp)[i := c])\<rparr>)"
  using dp_wf_put [of dp i c] by (simp add: lib_inv_def uses_env_def)

section \<open>Start and release\<close>

lemma start_moves:
  fixes T :: "('e, 'ts) time_api" and dp :: "('ca, 'e) kworld spine_datapath"
  assumes inv: "lib_inv T tzero N dp" and info: "length (fi_congAlg info) = MAX_CONG_ALG_SIZE"
    and start: "spine_connection_start kcalloc dp impl info w = Inr (r, dp', w')"
  shows "lib_inv T tzero N dp' \<and> (\<exists>i. one_move (Op_Start impl info) i dp dp')"
proof (cases "first_free (slots dp) 0")
  case None
  with start start_full [OF lib_invD(1,2) [OF inv] None, of kcalloc impl info w] inv
  show ?thesis by (auto intro: one_move_same)
next
  case (Some j)
  note D = lib_invD [OF inv]
  have j: "j < length (slots dp)" and zero: "conn_index (slots dp ! j) = 0"
    using first_free_Some [OF Some] by (simp_all add: slot_free_def)
  have small: "Suc j \<le> 65535" using j D(1,2) by (simp add: dp_wf_def)
  then have new: "unat (word_of_nat (Suc j) :: u16) = Suc j" by (rule unat_sid)
  then have nz: "(word_of_nat (Suc j) :: u16) \<noteq> 0" by auto
  have cwf: "conn_wf j (slots dp ! j)" using D(1) j by (rule dp_wf_slot)
  have claim: "moves (Op_Start impl info) (slots dp ! j) c" if "conn_index c = word_of_nat (Suc j)" for c
    using zero nz that by (simp add: moves_def)
  obtain ok w1 where alloc: "kcalloc w = (ok, w1)" by force
  consider "Suc j = length (slots dp)" | "Suc j < length (slots dp)" "\<not> ok" | "Suc j < length (slots dp)" "ok"
    using j by linarith
  then show ?thesis
  proof cases
    case 1
    let ?c = "(slots dp ! j)\<lparr>conn_index := word_of_nat (Suc j)\<rparr>"
    have "conn_wf j ?c" using cwf new by (simp add: conn_wf_def del: of_nat_Suc)
    then have "lib_inv T tzero N (dp\<lparr>dp_connections := Some ((slots dp)[j := ?c])\<rparr>)"
      using lib_inv_put [OF inv j] by blast
    moreover have "dp' = dp\<lparr>dp_connections := Some ((slots dp)[j := ?c])\<rparr>"
      using start start_last_slot [OF D(1,2) Some 1, of kcalloc impl info w] by (simp add: claimed_def)
    ultimately show ?thesis
      using one_move_put [OF j claim, of ?c dp'] by (auto simp del: of_nat_Suc)
  next
    case 2
    let ?c = "(slots dp ! j)\<lparr>conn_index := word_of_nat (Suc j), conn_impl := impl, flow_info := info, conn_state := PNull\<rparr>"
    have "conn_wf j ?c" using new info by (simp add: conn_wf_def del: of_nat_Suc)
    then have "lib_inv T tzero N (dp\<lparr>dp_connections := Some ((slots dp)[j := ?c])\<rparr>)"
      using lib_inv_put [OF inv j] by blast
    moreover have "dp' = dp\<lparr>dp_connections := Some ((slots dp)[j := ?c])\<rparr>"
      using start start_alloc_failure [OF D(1,2) Some 2(1), of kcalloc w w1 impl info] alloc 2(2) by simp
    ultimately show ?thesis
      using one_move_put [OF j claim, of ?c dp'] by (auto simp del: of_nat_Suc)
  next
    case 3
    let ?c = "fresh_conn (slots dp ! j) j impl info"
    have "kcalloc w = (True, w1)" using alloc 3(2) by simp
    then have "lib_inv T tzero N dp' \<and> touches j (dp\<lparr>dp_connections := Some ((slots dp)[j := ?c])\<rparr>) dp'"
      using kernel_env.spine_connection_start_ok
        [where P = "\<lambda>_. True" and impl = impl and kcalloc = kcalloc and w = w, OF D(3,1,2) Some 3(1) _ TrueI info]
        start touches_callbacks(6) [of j "dp\<lparr>dp_connections := Some ((slots dp)[j := ?c])\<rparr>" dp'] D(2)
      by (auto simp: lib_inv_def)
    then have inv': "lib_inv T tzero N dp'" and tr: "touches j (dp\<lparr>dp_connections := Some ((slots dp)[j := ?c])\<rparr>) dp'"
      by simp_all
    have "same_flow ?c (slots dp' ! j)" using tr j by (simp add: touches_def)
    then have "conn_index (slots dp' ! j) = word_of_nat (Suc j)"
      by (simp add: same_flow_def fresh_conn_def del: of_nat_Suc)
    then have "moves (Op_Start impl info) (slots dp ! j) (slots dp' ! j)" by (rule claim)
    with tr inv' show ?thesis by (auto simp: one_move_def touches_def intro!: exI [of _ j])
  qed
qed

lemma free_known:
  assumes wf: "dp_wf dp" and few: "unat (dp_max_connections dp) \<le> 65535"
    and i: "i < length (slots dp)" and sid: "conn_index (slots dp ! i) = sid" "sid \<noteq> 0"
    and free: "spine_connection_free dp sid w = Inr (dp', w')"
  shows "\<exists>s. (\<forall>st. s \<noteq> PLive st) \<and>
    dp' = dp\<lparr>dp_connections := Some ((slots dp)[i := (slots dp ! i)\<lparr>conn_state := s, conn_index := 0\<rparr>])\<rparr>"
proof -
  have "unat sid = Suc i" using dp_wf_slot [OF wf i] sid by (auto simp: conn_wf_def)
  then have pos: "unat (sid - 1) = i" using sid(2) by (simp add: unat_minus_one)
  have "length (slots dp) = unat (dp_max_connections dp)" using wf by (simp add: dp_wf_def)
  with \<open>unat sid = Suc i\<close> i have inr: "\<not> ucast sid > dp_max_connections dp"
    by (simp add: word_less_nat_alt unat_ucast_up)
  obtain msg where msg: "write_release_msg (replicate REPORT_MSG_SIZE 0) (int RELEASE_MSG_SIZE)
      (ucast sid) = Inr (12, msg)"
    using write_release_msg_ok [of "replicate 900 0"]
    by (simp add: REPORT_MSG_SIZE_def RELEASE_MSG_SIZE_def)
  have eq: "dp\<lparr>dp_connections := Some ((slots dp)[i := (slots dp ! i)\<lparr>conn_index := 0\<rparr>])\<rparr> =
      dp\<lparr>dp_connections := Some ((slots dp)[i := (slots dp ! i)\<lparr>conn_state := PNull, conn_index := 0\<rparr>])\<rparr>"
    if "conn_state (slots dp ! i) = PNull"
  proof -
    have "(slots dp ! i)\<lparr>conn_index := 0\<rparr> = (slots dp ! i)\<lparr>conn_state := PNull, conn_index := 0\<rparr>"
      using that by (intro spine_connection.equality) simp_all
    then show ?thesis by simp
  qed
  show ?thesis
  proof (cases "conn_state (slots dp ! i)")
    case PNull
    with free have "dp' = dp\<lparr>dp_connections := Some ((slots dp)[i := (slots dp ! i)\<lparr>conn_index := 0\<rparr>])\<rparr>"
      using i sid pos inr msg
      by (auto simp: spine_connection_free_def free_spine_priv_state_def get_spine_priv_state_def
          Let_def rbind_eq_Inr)
    with eq [OF PNull] show ?thesis by (intro exI [of _ PNull]) simp
  next
    case (PLive st)
    with free have "dp' = dp\<lparr>dp_connections := Some ((slots dp)[i := (slots dp ! i)\<lparr>conn_state := PFreed, conn_index := 0\<rparr>])\<rparr>"
      using i sid pos inr msg
      by (auto simp: spine_connection_free_def free_spine_priv_state_def get_spine_priv_state_def
          Let_def rbind_eq_Inr)
    then show ?thesis by (intro exI [of _ PFreed]) simp
  next
    case PFreed
    with free i sid pos inr show ?thesis
      by (simp add: spine_connection_free_def free_spine_priv_state_def get_spine_priv_state_def Let_def)
  qed
qed

lemma free_moves:
  assumes inv: "lib_inv T tzero N dp" and free: "spine_connection_free dp sid w = Inr (dp', w')"
  shows "lib_inv T tzero N dp' \<and> (\<exists>i. one_move (Op_Free sid) i dp dp')"
proof (cases rule: lookup_cases [OF lib_invD(1,2) [OF inv], of sid])
  case 1
  with free free_unknown [OF lib_invD(1,2) [OF inv] 1, of w] inv show ?thesis by (auto intro: one_move_same)
next
  case (2 i)
  note D = lib_invD [OF inv]
  obtain s where s: "\<forall>st. s \<noteq> PLive st" and
    dp': "dp' = dp\<lparr>dp_connections := Some ((slots dp)[i := (slots dp ! i)\<lparr>conn_state := s, conn_index := 0\<rparr>])\<rparr>"
    using free_known [OF D(1,2) 2(2-4) free] by blast
  let ?c = "(slots dp ! i)\<lparr>conn_state := s, conn_index := 0\<rparr>"
  have "conn_wf i ?c" using dp_wf_slot [OF D(1) 2(2)] s by (simp add: conn_wf_def)
  then have "lib_inv T tzero N dp'" unfolding dp' using lib_inv_put [OF inv 2(2)] by blast
  moreover have "moves (Op_Free sid) (slots dp ! i) ?c" using 2(3,4) by (simp add: moves_def)
  then have "one_move (Op_Free sid) i dp dp'" using 2(2) dp' by (intro one_move_put [of i dp _ ?c]) simp_all
  ultimately show ?thesis by blast
qed

section \<open>Messages and invocations\<close>

lemma phase_with_pending:
  assumes "live_slot dp i"
  shows "phase_of (slots (with_pending dp i up) ! i) = phase_of (slots dp ! i)"
    and "last_create_msg_sent (slots (with_pending dp i up) ! i) = last_create_msg_sent (slots dp ! i)"
  using assms by (auto simp: live_slot_def with_pending_def phase_of_def)

lemma read_moves:
  assumes inv: "lib_inv T tzero N dp" and read: "spine_read_msg cs dp buf n = Inr (ret, dp')"
  shows "lib_inv T tzero N dp' \<and> (\<exists>i. one_move (Op_Read buf n) i dp dp')"
proof -
  note D = lib_invD [OF inv]
  let ?off = "turn_off_fto_timer dp"
  have wf: "dp_wf dp'" and "dp' = dp \<or> dp' = ?off \<or> (\<exists>i up. dp' = with_pending ?off i up \<and> live_slot dp i)"
    using read_msg_frame [OF D(1,2) read] by blast+
  moreover have off: "lib_inv T tzero N ?off"
    using inv by (simp add: lib_inv_def) (simp add: turn_off_fto_timer_def uses_env_def)
  moreover have "lib_inv T tzero N (with_pending ?off i up) \<and> one_move (Op_Read buf n) i dp (with_pending ?off i up)"
    if "live_slot dp i" "dp' = with_pending ?off i up" for i up
  proof
    have live: "live_slot ?off i" using that(1) by simp
    note tr = touches_with_pending [OF live, of up]
    show "lib_inv T tzero N (with_pending ?off i up)"
      using lib_inv_touches [OF off tr] wf that(2) by simp
    have "one_move (Op_Read buf n) i ?off (with_pending ?off i up)"
      using tr phase_with_pending [OF live] by (intro one_move_touches) simp_all
    then show "one_move (Op_Read buf n) i dp (with_pending ?off i up)" by (simp add: one_move_def)
  qed
  ultimately show ?thesis using inv one_move_same [of dp dp] one_move_same [of ?off dp] by auto
qed

text \<open>An answered request touches nothing but the fallback timer, whatever the fetch function does.\<close>

lemma update_fto_timer_frame:
  "update_fto_timer dp w = Inr (dp', w') \<Longrightarrow> \<exists>t. dp' = dp\<lparr>dp_last_msg_sent := t\<rparr>"
  by (auto simp: update_fto_timer_def rbind_eq_Inr case_prod_beta split: if_splits
      intro: exI [of _ "dp_last_msg_sent dp"])

lemma answer_frame:
  assumes "answer_measure_request dp i c up w = Inr (ret, dp', w')"
  shows "\<exists>t. dp' = dp\<lparr>dp_last_msg_sent := t\<rparr>"
proof -
  have same: "\<exists>t. dp = dp\<lparr>dp_last_msg_sent := t\<rparr>" by (intro exI [of _ "dp_last_msg_sent dp"]) simp
  have send: "\<exists>t. dp' = dp\<lparr>dp_last_msg_sent := t\<rparr>"
    if "send_measurement dp i req ms n w1 = Inr (ret, dp', w')" for req ms n w1
    using that same update_fto_timer_frame [of dp _ dp' w']
    by (auto simp: send_measurement_def rbind_eq_Inr split: if_splits)
  show ?thesis
    using assms same send
    by (auto simp: answer_measure_request_def rbind_eq_Inr Let_def split: if_splits option.splits)
qed

lemma invoke_unannounced:
  fixes T :: "('e, 'ts) time_api" and dp :: "('ca, 'e) kworld spine_datapath"
  assumes inv: "lib_inv T tzero N dp" and i: "i < length (slots dp)"
    and st: "conn_state (slots dp ! i) = PLive st" "\<not> sent_create st"
    and run: "rbind (send_conn_create dp i w) (\<lambda>(ret, dp1, w1). if ret < 0 then Inr (SPINE_OK, dp1, w1)
      else rbind (spine_conn_create_success dp1 i) (\<lambda>dp2. Inr (SPINE_OK, dp2, w1))) = Inr (ret, dp', w')"
  shows "lib_inv T tzero N dp' \<and> one_move (Op_Invoke k) i dp dp'"
proof -
  note D = lib_invD [OF inv]
  obtain r dp1 w1 where create: "send_conn_create dp i w = Inr (r, dp1, w1)"
    and wf1: "dp_wf dp1" and tr1: "touches i dp dp1"
    and st1: "conn_state (slots dp1 ! i) = conn_state (slots dp ! i)"
    using kernel_env.send_conn_create_ok [where P = "\<lambda>_. True", OF D(3) TrueI D(1) i, of w] by blast
  have idx: "conn_index (slots dp1 ! i) = conn_index (slots dp ! i)"
    using tr1 i by (simp add: touches_def same_flow_def)
  have i1: "i < length (slots dp1)" using i touches_callbacks(7) [OF tr1] by simp
  show ?thesis
  proof (cases "r < 0")
    case True
    with run create have dp': "dp' = dp1" by simp
    show ?thesis unfolding dp'
      using lib_inv_touches [OF inv tr1 wf1] one_move_touches [OF tr1] phase_cong [OF idx st1] by blast
  next
    case False
    with run create have succ: "spine_conn_create_success dp1 i = Inr dp'" by (auto simp: rbind_eq_Inr)
    have "live_slot dp1 i" using st1 st(1) i1 by (simp add: live_slot_def)
    then have wf': "dp_wf dp'" and tr': "touches i dp1 dp'"
      using spine_conn_create_success_ok [OF wf1, of i] succ by auto
    have tr: "touches i dp dp'" using tr1 tr' by (rule touches_trans)
    have "conn_state (slots dp' ! i) = PLive (st\<lparr>sent_create := True\<rparr>)"
      using succ i1 st1 st(1) by (auto simp: spine_conn_create_success_def get_spine_priv_state_def)
    moreover have "conn_index (slots dp' ! i) = conn_index (slots dp ! i)"
      using tr i by (simp add: touches_def same_flow_def)
    ultimately have "phase_of (slots dp' ! i) = phase_of (slots dp ! i) \<or>
        phase_of (slots dp ! i) = Announcing \<and> phase_of (slots dp' ! i) = Announced"
      using st by (simp add: phase_of_def)
    with lib_inv_touches [OF inv tr wf'] one_move_touches [OF tr] show ?thesis by blast
  qed
qed

lemma invoke_moves:
  fixes T :: "('e, 'ts) time_api" and dp :: "('ca, 'e) kworld spine_datapath"
  assumes inv: "lib_inv T tzero N dp" and run: "spine_invoke dp (Some i) w = Inr (ret, dp', w')"
  shows "lib_inv T tzero N dp' \<and> one_move (Op_Invoke k) i dp dp'"
proof -
  note D = lib_invD [OF inv]
  have i: "i < length (slots dp)"
    using run conn_ref_oob [of dp i] by (force simp: spine_invoke_def rbind_eq_Inr is_ok_iff)
  show ?thesis
  proof (cases "conn_state (slots dp ! i)")
    case PNull
    with run i have "dp' = dp" by (auto simp: spine_invoke_def get_spine_priv_state_def split: if_splits)
    with inv show ?thesis by (auto intro: one_move_same)
  next
    case PFreed
    with run i show ?thesis by (simp add: spine_invoke_def get_spine_priv_state_def)
  next
    case (PLive st)
    show ?thesis
    proof (cases "sent_create st")
      case False
      with run i PLive have "rbind (send_conn_create dp i w) (\<lambda>(ret, dp1, w1). if ret < 0 then Inr (SPINE_OK, dp1, w1)
          else rbind (spine_conn_create_success dp1 i) (\<lambda>dp2. Inr (SPINE_OK, dp2, w1))) = Inr (ret, dp', w')"
        by (simp add: spine_invoke_def get_spine_priv_state_def split: if_splits)
      from invoke_unannounced [OF inv i PLive False this] show ?thesis by blast
    next
      case True
      with run i PLive obtain w1 r dp1 w2 where
        ans: "answer_measure_request dp i (slots dp ! i) (pending_update st) w1 = Inr (r, dp1, w2)"
        and put: "put_pending dp1 i zero_update = Inr dp'"
        by (auto simp: spine_invoke_def get_spine_priv_state_def Let_def rbind_eq_Inr split: if_splits)
      obtain t where dp1: "dp1 = dp\<lparr>dp_last_msg_sent := t\<rparr>" using answer_frame [OF ans] by blast
      then have live: "live_slot dp1 i" and dp': "dp' = with_pending dp1 i zero_update"
        using put_pending_Inr [OF put] i by simp_all
      have tr: "touches i dp dp'"
        using touches_trans [OF touches_timer [of i dp t], folded dp1, OF touches_with_pending [OF live]] dp' by simp
      have "dp_wf dp'" using dp_wf_with_pending [OF _ live, of zero_update] D(1) dp' dp1 by simp
      moreover have "phase_of (slots dp' ! i) = phase_of (slots dp ! i)"
        using phase_with_pending [OF live, of zero_update] dp' dp1 by simp
      ultimately show ?thesis
        using lib_inv_touches [OF inv tr] one_move_touches [OF tr] by blast
    qed
  qed
qed

section \<open>Every call, every run\<close>

lemma lib_step_moves:
  fixes T :: "('e, 'ts) time_api" and s s' :: "('ca, 'e) kworld spine_datapath \<times> ('ca, 'e) kworld"
  assumes "lib_step kcalloc cs op s s'" and "lib_inv T tzero N (fst s)"
  shows "lib_inv T tzero N (fst s') \<and> (\<exists>i. one_move op i (fst s) (fst s'))"
  using assms
proof cases
  case (start dp impl info w r dp' w')
  with start_moves [of T tzero N dp info kcalloc impl w r dp' w'] assms(2) show ?thesis by simp
next
  case (free dp sid w dp' w')
  with free_moves [of T tzero N dp sid w dp' w'] assms(2) show ?thesis by simp
next
  case (invoke dp i w ret dp' w')
  with invoke_moves [of T tzero N dp i w ret dp' w' i] assms(2) show ?thesis by auto
next
  case (read dp buf n ret dp' w)
  with read_moves [of T tzero N dp cs buf n ret dp'] assms(2) show ?thesis by simp
next
  case world
  with assms(2) show ?thesis by (auto intro: one_move_same)
qed

text \<open>The step as a slot sees it.\<close>

lemma lib_step_slot:
  fixes T :: "('e, 'ts) time_api" and s s' :: "('ca, 'e) kworld spine_datapath \<times> ('ca, 'e) kworld"
  assumes "lib_step kcalloc cs op s s'" and "lib_inv T tzero N (fst s)" and "k < length (slots (fst s))"
  shows "k < length (slots (fst s')) \<and> moves op (slots (fst s) ! k) (slots (fst s') ! k)"
proof -
  obtain i where one: "one_move op i (fst s) (fst s')" using lib_step_moves [OF assms(1,2)] by blast
  show ?thesis
  proof (cases "k = i")
    case True
    with one assms(3) show ?thesis by (simp add: one_move_def)
  next
    case False
    with one assms(3) have "slots (fst s') ! k = slots (fst s) ! k" by (simp add: one_move_def)
    with one assms(3) show ?thesis by (simp add: one_move_def)
  qed
qed

text \<open>In use, in the hands of a module.\<close>

abbreviation in_use :: "spine_connection \<Rightarrow> bool" where
  "in_use c \<equiv> phase_of c = Announcing \<or> phase_of c = Announced"

definition keeps :: "spine_connection \<Rightarrow> spine_connection \<Rightarrow> bool" where
  "keeps c c' \<longleftrightarrow> same_flow c c' \<and> in_use c' \<and> (phase_of c = Announced \<longrightarrow> phase_of c' = Announced)"

lemma keeps_trans: "keeps a b \<Longrightarrow> keeps b c \<Longrightarrow> keeps a c"
  by (auto simp: keeps_def same_flow_def)

lemma moves_keeps:
  assumes "moves op c c'" and "in_use c" and "op \<noteq> Op_Free (conn_index c)"
  shows "keeps c c'"
proof -
  have "conn_index c \<noteq> 0" using assms(2) by (auto simp: phase_of_def)
  then show ?thesis using assms by (auto simp: moves_def keeps_def)
qed

lemma in_use_live: "i < length (slots dp) \<Longrightarrow> in_use (slots dp ! i) \<Longrightarrow> live_slot dp i"
  by (auto simp: phase_of_def live_slot_def split: priv_ptr.splits if_splits)

lemma lib_run_keeps:
  fixes T :: "('e, 'ts) time_api" and s s' :: "('ca, 'e) kworld spine_datapath \<times> ('ca, 'e) kworld"
  assumes "lib_run kcalloc cs ops s s'" and "lib_inv T tzero N (fst s)" and "k < length (slots (fst s))"
    and "in_use (slots (fst s) ! k)" and "Op_Free (conn_index (slots (fst s) ! k)) \<notin> set ops"
  shows "lib_inv T tzero N (fst s') \<and> k < length (slots (fst s')) \<and> keeps (slots (fst s) ! k) (slots (fst s') ! k)"
  using assms
proof (induction rule: lib_run.induct)
  case (finish s)
  then show ?case by (simp add: keeps_def)
next
  case (more op s s' ops s'')
  note slot = lib_step_slot [OF more.hyps(1) more.prems(1,2)]
  have kp: "keeps (slots (fst s) ! k) (slots (fst s') ! k)"
    using slot more.prems(3,4) by (intro moves_keeps [of op]) auto
  then have "in_use (slots (fst s') ! k)" "conn_index (slots (fst s') ! k) = conn_index (slots (fst s) ! k)"
    by (simp_all add: keeps_def same_flow_def)
  then have "lib_inv T tzero N (fst s'') \<and> k < length (slots (fst s'')) \<and> keeps (slots (fst s') ! k) (slots (fst s'') ! k)"
    using more.IH lib_step_moves [OF more.hyps(1) more.prems(1)] slot more.prems(4) by auto
  with keeps_trans [OF kp] show ?case by blast
qed

section \<open>Properties\<close>

text \<open>C9: The life of a slot: whatever the callbacks of the module, the allocator and the sender of a message
  do, every call of the library that returns keeps the table in order and changes the phase of at
  most one slot, along the transitions unused - announcing - announced - unused; besides, a start
  may announce at once or leave the slot orphaned.\<close>

theorem library_calls_follow_life_cycle:
  fixes T :: "('e, 'ts) time_api" and dp dp' :: "('ca, 'e) kworld spine_datapath"
  assumes "lib_inv T tzero N dp" and "lib_step kcalloc char_signed op (dp, w) (dp', w')"
  shows "lib_inv T tzero N dp' \<and> length (slots dp') = length (slots dp) \<and>
    (\<exists>i. (\<forall>k < length (slots dp). k \<noteq> i \<longrightarrow> slots dp' ! k = slots dp ! k) \<and>
      (i < length (slots dp) \<longrightarrow> phase_of (slots dp' ! i) = phase_of (slots dp ! i) \<or>
        life (phase_of (slots dp ! i)) (phase_of (slots dp' ! i))))"
proof -
  have "lib_inv T tzero N (fst (dp, w))" using assms(1) by simp
  from lib_step_moves [OF assms(2) this]
  obtain i where "lib_inv T tzero N dp'" and one: "one_move op i dp dp'" by auto
  moreover have "i < length (slots dp) \<longrightarrow> phase_of (slots dp' ! i) = phase_of (slots dp ! i) \<or>
      life (phase_of (slots dp ! i)) (phase_of (slots dp' ! i))"
    using one moves_life by (auto simp: one_move_def)
  ultimately show ?thesis by (auto simp: one_move_def)
qed

text \<open>A connection is stable until it is released: over any sequence of calls that return - starts and
  releases of other flows, invocations, messages with arbitrary bytes - in which its own number is
  not freed, a slot in use keeps its number, its socket and its flow description, its private state
  stays live, and once announced it stays announced.\<close>

theorem connection_stable_until_freed:
  fixes T :: "('e, 'ts) time_api" and dp dp' :: "('ca, 'e) kworld spine_datapath"
  assumes "lib_inv T tzero N dp" and "lib_run kcalloc char_signed ops (dp, w) (dp', w')"
    and "k < length (slots dp)" and "in_use (slots dp ! k)"
    and "Op_Free (conn_index (slots dp ! k)) \<notin> set ops"
  shows "live_slot dp' k \<and> same_flow (slots dp ! k) (slots dp' ! k) \<and> in_use (slots dp' ! k) \<and>
    (phase_of (slots dp ! k) = Announced \<longrightarrow> phase_of (slots dp' ! k) = Announced)"
proof -
  have "lib_inv T tzero N (fst (dp, w))" "k < length (slots (fst (dp, w)))" "in_use (slots (fst (dp, w)) ! k)"
    "Op_Free (conn_index (slots (fst (dp, w)) ! k)) \<notin> set ops" using assms by simp_all
  from lib_run_keeps [OF assms(2) this] show ?thesis
    using in_use_live [of k dp'] by (auto simp: keeps_def)
qed

lemma demo_lib_inv: "lib_inv demo_time 0 demo_nl (demo_dp demo_table)"
  using demo_table_wf demo_table_max env_demo [of demo_table] by (simp add: lib_inv_def)

lemma demo_start_step:
  "\<exists>dp' w'. lib_step demo_alloc True (Op_Start 4 demo_info) (demo_dp demo_table, demo_world) (dp', w')"
proof -
  have "first_free (slots (demo_dp demo_table)) 0 = Some 1"
    by (intro first_free_eq) (simp_all add: demo_table_def slot_free_def)
  moreover have "Suc 1 < length (slots (demo_dp demo_table))" by (simp add: demo_table_def)
  moreover have info: "length (fi_congAlg demo_info) = MAX_CONG_ALG_SIZE" by (simp add: demo_info_def zero_info_def)
  moreover have "demo_alloc demo_world = (True, demo_world)" by (simp add: demo_alloc_def)
  ultimately obtain dp' w' where
    "spine_connection_start demo_alloc (demo_dp demo_table) 4 demo_info demo_world = Inr (Some 1, dp', w')"
    using kernel_env.spine_connection_start_ok
      [where P = "\<lambda>_. True" and impl = 4 and kcalloc = demo_alloc, OF env_demo demo_table_wf demo_table_max _ _ _ TrueI]
    by blast
  with info show ?thesis by (blast intro: lib_step.start)
qed

theorem library_calls_follow_life_cycle_witness:
  "\<exists>dp' w'. lib_step demo_alloc True (Op_Start 4 demo_info) (demo_dp demo_table, demo_world) (dp', w') \<and>
    lib_inv demo_time 0 demo_nl dp' \<and> length (slots dp') = length (slots (demo_dp demo_table)) \<and>
    (\<exists>i. (\<forall>k < length (slots (demo_dp demo_table)). k \<noteq> i \<longrightarrow> slots dp' ! k = slots (demo_dp demo_table) ! k) \<and>
      (i < length (slots (demo_dp demo_table)) \<longrightarrow>
        phase_of (slots dp' ! i) = phase_of (slots (demo_dp demo_table) ! i) \<or>
        life (phase_of (slots (demo_dp demo_table) ! i)) (phase_of (slots dp' ! i))))"
proof -
  obtain dp' w' where "lib_step demo_alloc True (Op_Start 4 demo_info) (demo_dp demo_table, demo_world) (dp', w')"
    using demo_start_step by blast
  from this library_calls_follow_life_cycle [OF demo_lib_inv this] show ?thesis by blast
qed

theorem connection_stable_until_freed_witness:
  "\<exists>dp' w'. lib_run demo_alloc True [Op_World, Op_Start 4 demo_info] (demo_dp demo_table, demo_world) (dp', w') \<and>
    live_slot dp' 0 \<and> same_flow (demo_used 0) (slots dp' ! 0) \<and> in_use (slots dp' ! 0)"
proof -
  obtain dp' w' where "lib_step demo_alloc True (Op_Start 4 demo_info) (demo_dp demo_table, demo_world) (dp', w')"
    using demo_start_step by blast
  then have run: "lib_run demo_alloc True [Op_World, Op_Start 4 demo_info] (demo_dp demo_table, demo_world) (dp', w')"
    by (blast intro: lib_run.intros lib_step.world)
  have used: "slots (demo_dp demo_table) ! 0 = demo_used 0" by (simp add: demo_table_def)
  have "in_use (slots (demo_dp demo_table) ! 0)" unfolding used by (simp add: phase_of_def zero_priv_state_def)
  moreover have "0 < length (slots (demo_dp demo_table))" by (simp add: demo_table_def)
  ultimately show ?thesis
    using run connection_stable_until_freed [OF demo_lib_inv run, of 0] unfolding used by auto
qed

end
