(* ===== verification/Announce.thy ===== *)
theory Announce
  imports Lifecycle
begin

text \<open>
  The announcement of a connection is retried until it succeeds: with a controller listening, a
  connection in use is announced at the latest by the first invocation that comes once the
  timeout since its last create message has passed, whatever calls of the library happened
  before.
\<close>

section \<open>The transport with a listener, and the create message\<close>

text \<open>Socket buffers are granted, and the multicast finds a listener.\<close>

definition listening :: "'e nl_api \<Rightarrow> bool" where
  "listening N \<longleftrightarrow> (\<forall>n e. fst (nlmsg_new N n e)) \<and> (\<forall>msg e. 0 \<le> fst (nlmsg_multicast N msg e))"

definition create_packet :: "spine_connection \<Rightarrow> u8 list" where
  "create_packet c = header_bytes \<lparr>hdr_Type = CREATE, hdr_Len = 96, hdr_SocketId = ucast (conn_index c)\<rparr> @
     create_bytes (create_msg_of c)"

text \<open>A create message may be sent: none was, or the last one is old enough.\<close>

definition create_due ::
  "('e, 'ts) time_api \<Rightarrow> 'ts \<Rightarrow> spine_connection \<Rightarrow> ('ca, 'e) kworld \<Rightarrow> bool" where
  "create_due T tzero c w \<longleftrightarrow> last_create_msg_sent c = 0 \<or>
     CREATE_TIMEOUT_US \<le> fst (kw_since T tzero (last_create_msg_sent c) w)"

lemma send_listening:
  assumes "listening N"
  shows "\<exists>e. kw_send N msg (int (length msg)) w = Inr (0, w\<lparr>kw_env := snd (nlmsg_multicast N msg e)\<rparr>)"
proof -
  have "fst (nlmsg_new N (int (length msg)) (kw_env w))" using assms by (simp add: listening_def)
  then obtain e1 where e1: "nlmsg_new N (int (length msg)) (kw_env w) = (True, e1)"
    by (cases "nlmsg_new N (int (length msg)) (kw_env w)") simp
  obtain r e2 where m: "nlmsg_multicast N msg e1 = (r, e2)" by fastforce
  then have "0 \<le> r" using assms by (metis fst_conv listening_def)
  then have "kw_send N msg (int (length msg)) w = Inr (0, w\<lparr>kw_env := snd (nlmsg_multicast N msg e1)\<rparr>)"
    using e1 m by (simp add: kw_send_def nl_sendmsg_def memcpy_from_def)
  then show ?thesis by blast
qed

section \<open>One invocation\<close>

lemma in_use_index: "in_use c \<Longrightarrow> conn_index c \<noteq> 0"
  by (auto simp: phase_of_def)

lemma phase_Announcing: "phase_of c = Announcing \<longleftrightarrow>
    conn_index c \<noteq> 0 \<and> (\<exists>st. conn_state c = PLive st \<and> \<not> sent_create st)"
  by (auto simp: phase_of_def split: priv_ptr.splits)

lemma create_listening:
  fixes T :: "('e, 'ts) time_api" and dp :: "('ca, 'e) kworld spine_datapath"
  assumes inv: "lib_inv T tzero N dp" and N: "listening N" and k: "k < length (slots dp)"
    and idx: "conn_index (slots dp ! k) \<noteq> 0"
  shows "\<exists>r dp' w'. send_conn_create dp k w = Inr (r, dp', w') \<and> kw_socks w' = kw_socks w \<and>
    (if create_due T tzero (slots dp ! k) w
     then r = 0 \<and> (\<exists>t. dp' = dp\<lparr>dp_connections := Some ((slots dp)[k := (slots dp ! k)\<lparr>last_create_msg_sent := t\<rparr>])\<rparr>) \<and>
       (\<exists>e. kw_env w' = snd (nlmsg_multicast N (create_packet (slots dp ! k)) e))
     else r < 0 \<and> dp' = dp)"
proof -
  note D = lib_invD [OF inv]
  let ?c = "slots dp ! k"
  have cwf: "conn_wf k ?c" using D(1) k by (rule dp_wf_slot)
  have idx1: "\<not> conn_index ?c < 1" using idx by (simp add: word_less_nat_alt unat_gt_0)
  have cb: "dp_now dp = Some (kw_now T tzero)" "dp_since_usecs dp = Some (kw_since T tzero)"
    "dp_send_msg dp = Some (kw_send N)" using D(3) by (simp_all add: uses_env_def)
  have len: "length (create_packet ?c) = 96"
    using create_codec.enc_len [OF create_msg_congAlg [OF cwf]] by (simp add: create_packet_def)
  have msg: "write_create_msg (replicate CREATE_MSG_SIZE 0) (int CREATE_MSG_SIZE)
      (ucast (conn_index ?c)) (create_msg_of ?c) = Inr (96, create_packet ?c)"
    using write_create_msg_ok [of "replicate 96 0"] create_msg_congAlg [OF cwf]
    by (simp add: CREATE_MSG_SIZE_def create_packet_def)
  have sent: "\<exists>dp' w'. send_conn_create dp k w = Inr (0, dp', w') \<and> kw_socks w' = kw_socks w \<and>
      (\<exists>t. dp' = dp\<lparr>dp_connections := Some ((slots dp)[k := ?c\<lparr>last_create_msg_sent := t\<rparr>])\<rparr>) \<and>
      (\<exists>e. kw_env w' = snd (nlmsg_multicast N (create_packet ?c) e))"
    if "create_pending dp ?c w = Inr (False, w1)" "kw_socks w1 = kw_socks w" for w1
  proof -
    obtain t w2 where now: "kw_now T tzero w1 = (t, w2)" by force
    then have "kw_socks w2 = kw_socks w1" by (auto simp: kw_now_def split: prod.splits)
    moreover obtain e where "kw_send N (create_packet ?c) 96 w2 = Inr (0, w2\<lparr>kw_env := snd (nlmsg_multicast N (create_packet ?c) e)\<rparr>)"
      using send_listening [OF N, of "create_packet ?c" w2] len by auto
    ultimately show ?thesis using that now msg cb k idx1 by (simp add: send_conn_create_def) blast
  qed
  show ?thesis
  proof (cases "last_create_msg_sent ?c = 0")
    case True
    then have "create_due T tzero ?c w" by (simp add: create_due_def)
    moreover have "create_pending dp ?c w = Inr (False, w)" using True by (simp add: create_pending_def)
    from sent [OF this refl] show ?thesis using calculation by simp
  next
    case False
    obtain us w1 where since: "kw_since T tzero (last_create_msg_sent ?c) w = (us, w1)" by force
    then have w1: "kw_socks w1 = kw_socks w" by (auto simp: kw_since_def split: prod.splits)
    have pend: "create_pending dp ?c w = Inr (us < CREATE_TIMEOUT_US, w1)"
      using False since cb(2) by (simp add: create_pending_def)
    have due: "create_due T tzero ?c w \<longleftrightarrow> \<not> us < CREATE_TIMEOUT_US"
      using False since by (simp add: create_due_def not_less)
    show ?thesis
    proof (cases "us < CREATE_TIMEOUT_US")
      case True
      then have "send_conn_create dp k w = Inr (SPINE_CREATE_PENDING, dp, w1)"
        using pend k by (simp add: send_conn_create_def)
      with due True w1 show ?thesis by (simp add: SPINE_CREATE_PENDING_def)
    next
      case False
      with pend have "create_pending dp ?c w = Inr (False, w1)" by simp
      from sent [OF this w1] show ?thesis using due False by simp
    qed
  qed
qed

lemma invoke_announces:
  fixes T :: "('e, 'ts) time_api" and dp :: "('ca, 'e) kworld spine_datapath"
  assumes inv: "lib_inv T tzero N dp" and N: "listening N" and k: "k < length (slots dp)"
    and idx: "conn_index (slots dp ! k) \<noteq> 0"
    and st: "conn_state (slots dp ! k) = PLive st" "\<not> sent_create st"
  shows "\<exists>dp' w'. spine_invoke dp (Some k) w = Inr (SPINE_OK, dp', w') \<and> kw_socks w' = kw_socks w \<and>
    (if create_due T tzero (slots dp ! k) w
     then (\<exists>t. dp' = dp\<lparr>dp_connections := Some ((slots dp)[k := (slots dp ! k)
         \<lparr>last_create_msg_sent := t, conn_state := PLive (st\<lparr>sent_create := True\<rparr>)\<rparr>])\<rparr>) \<and>
       (\<exists>e. kw_env w' = snd (nlmsg_multicast N (create_packet (slots dp ! k)) e))
     else dp' = dp)"
proof -
  let ?c = "slots dp ! k"
  have cdp: "conn_datapath ?c" using dp_wf_slot [OF lib_invD(1) [OF inv] k] st(1) by (simp add: conn_wf_def)
  obtain r dp1 w1 where create: "send_conn_create dp k w = Inr (r, dp1, w1)" and
    socks: "kw_socks w1 = kw_socks w" and res: "if create_due T tzero ?c w
      then r = 0 \<and> (\<exists>t. dp1 = dp\<lparr>dp_connections := Some ((slots dp)[k := ?c\<lparr>last_create_msg_sent := t\<rparr>])\<rparr>) \<and>
        (\<exists>e. kw_env w1 = snd (nlmsg_multicast N (create_packet ?c) e))
      else r < 0 \<and> dp1 = dp"
    using create_listening [OF inv N k idx] by blast
  show ?thesis
  proof (cases "create_due T tzero ?c w")
    case True
    with res obtain t where r: "r = 0" and
      dp1: "dp1 = dp\<lparr>dp_connections := Some ((slots dp)[k := ?c\<lparr>last_create_msg_sent := t\<rparr>])\<rparr>" and
      env: "\<exists>e. kw_env w1 = snd (nlmsg_multicast N (create_packet ?c) e)" by auto
    with True create socks k st cdp idx show ?thesis
      by (auto simp: spine_invoke_def get_spine_priv_state_def spine_conn_create_success_def)
  next
    case False
    with res create socks k st cdp show ?thesis by (simp add: spine_invoke_def get_spine_priv_state_def)
  qed
qed

lemma invoke_listening:
  fixes T :: "('e, 'ts) time_api" and dp :: "('ca, 'e) kworld spine_datapath"
  assumes inv: "lib_inv T tzero N dp" and N: "listening N" and k: "k < length (slots dp)"
    and ph: "phase_of (slots dp ! k) = Announcing"
  shows "\<exists>dp' w'. spine_invoke dp (Some k) w = Inr (SPINE_OK, dp', w') \<and>
    (if create_due T tzero (slots dp ! k) w
     then phase_of (slots dp' ! k) = Announced \<and>
       (\<exists>e. kw_env w' = snd (nlmsg_multicast N (create_packet (slots dp ! k)) e))
     else dp' = dp)"
proof -
  obtain st where idx: "conn_index (slots dp ! k) \<noteq> 0"
    and st: "conn_state (slots dp ! k) = PLive st" "\<not> sent_create st"
    using ph by (auto simp: phase_Announcing)
  obtain dp' w' where inv': "spine_invoke dp (Some k) w = Inr (SPINE_OK, dp', w')"
    and res: "if create_due T tzero (slots dp ! k) w
     then (\<exists>t. dp' = dp\<lparr>dp_connections := Some ((slots dp)[k := (slots dp ! k)
         \<lparr>last_create_msg_sent := t, conn_state := PLive (st\<lparr>sent_create := True\<rparr>)\<rparr>])\<rparr>) \<and>
       (\<exists>e. kw_env w' = snd (nlmsg_multicast N (create_packet (slots dp ! k)) e))
     else dp' = dp"
    using invoke_announces [OF inv N k idx st, of w] by blast
  have "phase_of (slots dp' ! k) = Announced" if "create_due T tzero (slots dp ! k) w"
    using res that k idx by (auto simp: phase_of_def)
  with inv' res show ?thesis by auto
qed

section \<open>The retry\<close>

text \<open>Until it is announced, no call changes the time of a connection's last create message.\<close>

lemma quiet_step:
  fixes T :: "('e, 'ts) time_api" and s s' :: "('ca, 'e) kworld spine_datapath \<times> ('ca, 'e) kworld"
  assumes step: "lib_step kcalloc cs op s s'" and inv: "lib_inv T tzero N (fst s)" and N: "listening N"
    and k: "k < length (slots (fst s))" and ph: "phase_of (slots (fst s) ! k) = Announcing"
    and op: "op \<noteq> Op_Free (conn_index (slots (fst s) ! k))"
  shows "phase_of (slots (fst s') ! k) = Announced \<or>
    last_create_msg_sent (slots (fst s') ! k) = last_create_msg_sent (slots (fst s) ! k)"
proof (cases "\<exists>i. op = Op_Invoke i")
  case False
  have mv: "moves op (slots (fst s) ! k) (slots (fst s') ! k)"
    using lib_step_slot [OF step inv k] by blast
  have "in_use (slots (fst s) ! k)" using ph by simp
  from moves_keeps [OF mv this op] have "in_use (slots (fst s') ! k)" by (simp add: keeps_def)
  then have "conn_index (slots (fst s') ! k) \<noteq> 0" by (rule in_use_index)
  with moves_quiet [OF mv] False in_use_index [of "slots (fst s) ! k"] ph show ?thesis by blast
next
  case True
  from step True show ?thesis
  proof cases
    case (invoke dp i w ret dp' w')
    show ?thesis
    proof (cases "i = k")
      case True
      obtain dp2 w2 where inv2: "spine_invoke dp (Some k) w = Inr (SPINE_OK, dp2, w2)"
        and "if create_due T tzero (slots dp ! k) w
          then phase_of (slots dp2 ! k) = Announced \<and>
            (\<exists>e. kw_env w2 = snd (nlmsg_multicast N (create_packet (slots dp ! k)) e))
          else dp2 = dp"
        using invoke_listening [of T tzero N dp k w] inv N k ph invoke(2) by auto
      then have "phase_of (slots dp2 ! k) = Announced \<or> dp2 = dp" by (metis (full_types))
      moreover have "dp2 = dp'" using inv2 invoke(4) True by simp
      ultimately show ?thesis using invoke(2,3) by auto
    next
      case False
      have "one_move (Op_Invoke i) i dp dp'"
        using invoke_moves [of T tzero N dp i w ret dp' w' i] inv invoke(2,4) by simp
      then have "slots dp' ! k = slots dp ! k" using False k invoke(2) by (simp add: one_move_def)
      with invoke(2,3) show ?thesis by simp
    qed
  qed simp_all
qed

lemma quiet_run:
  fixes T :: "('e, 'ts) time_api" and s s' :: "('ca, 'e) kworld spine_datapath \<times> ('ca, 'e) kworld"
  assumes "lib_run kcalloc cs ops s s'" and "listening N" and "lib_inv T tzero N (fst s)"
    and "k < length (slots (fst s))" and "in_use (slots (fst s) ! k)"
    and "Op_Free (conn_index (slots (fst s) ! k)) \<notin> set ops"
  shows "phase_of (slots (fst s') ! k) = Announced \<or> phase_of (slots (fst s') ! k) = Announcing \<and>
    last_create_msg_sent (slots (fst s') ! k) = last_create_msg_sent (slots (fst s) ! k)"
  using assms
proof (induction rule: lib_run.induct)
  case (finish s)
  then show ?case by auto
next
  case (more op s s' ops s'')
  have one: "lib_run kcalloc cs [op] s s'" using more.hyps(1) by (rule lib_run.more) (rule lib_run.finish)
  have kp: "lib_inv T tzero N (fst s')" "k < length (slots (fst s'))" "keeps (slots (fst s) ! k) (slots (fst s') ! k)"
    using lib_run_keeps [OF one more.prems(2,3,4)] more.prems(5) by auto
  then have use: "in_use (slots (fst s') ! k)" and idx: "conn_index (slots (fst s') ! k) = conn_index (slots (fst s) ! k)"
    by (simp_all add: keeps_def same_flow_def)
  have rest: "Op_Free (conn_index (slots (fst s') ! k)) \<notin> set ops" using more.prems(5) idx by simp
  note IH = more.IH [OF more.prems(1) kp(1,2) use rest]
  show ?case
  proof (cases "phase_of (slots (fst s') ! k) = Announced")
    case True
    have "keeps (slots (fst s') ! k) (slots (fst s'') ! k)"
      using lib_run_keeps [OF more.hyps(2) kp(1,2) use rest] by blast
    then show ?thesis using True by (simp add: keeps_def)
  next
    case False
    then have "phase_of (slots (fst s) ! k) = Announcing" using kp(3) more.prems(4) by (auto simp: keeps_def)
    from quiet_step [OF more.hyps(1) more.prems(2,1,3) this] more.prems(5) False
    have "last_create_msg_sent (slots (fst s') ! k) = last_create_msg_sent (slots (fst s) ! k)" by auto
    with IH show ?thesis by simp
  qed
qed

text \<open>C13: The announcement of a connection is retried until it succeeds: with a controller listening,
  take any connection in use, and any run of calls of the library that does not free it; if the
  timeout has passed since the create message that was its last one at the start of the run (or
  there was none), then the connection has been announced during the run, or the next invocation
  returns, hands its create message to the transport and leaves it announced.\<close>

theorem announcement_retried:
  fixes T :: "('e, 'ts) time_api" and dp dp' :: "('ca, 'e) kworld spine_datapath"
  assumes "lib_inv T tzero N dp" and "listening N" and "k < length (slots dp)" and "in_use (slots dp ! k)"
    and "lib_run kcalloc char_signed ops (dp, w) (dp', w')" and "Op_Free (conn_index (slots dp ! k)) \<notin> set ops"
    and "create_due T tzero (slots dp ! k) w'"
  shows "phase_of (slots dp' ! k) = Announced \<or>
    (\<exists>dp2 w2 e. spine_invoke dp' (Some k) w' = Inr (SPINE_OK, dp2, w2) \<and> phase_of (slots dp2 ! k) = Announced \<and>
      kw_env w2 = snd (nlmsg_multicast N (create_packet (slots dp ! k)) e))"
proof (cases "phase_of (slots dp' ! k) = Announced")
  case False
  have inv': "lib_inv T tzero N dp'" and k': "k < length (slots dp')" and kp: "keeps (slots dp ! k) (slots dp' ! k)"
    using lib_run_keeps [OF assms(5), unfolded fst_conv, OF assms(1,3,4,6)] by simp_all
  have ph: "phase_of (slots dp' ! k) = Announcing"
    and last: "last_create_msg_sent (slots dp' ! k) = last_create_msg_sent (slots dp ! k)"
    using quiet_run [OF assms(5,2), unfolded fst_conv, OF assms(1,3,4,6)] False by auto
  have "create_due T tzero (slots dp' ! k) w'" using assms(7) last by (simp add: create_due_def)
  moreover have "create_packet (slots dp' ! k) = create_packet (slots dp ! k)"
    using kp by (simp add: keeps_def same_flow_def create_packet_def create_msg_of_def)
  ultimately show ?thesis using invoke_listening [OF inv' assms(2) k' ph, of w'] by auto
qed simp

lemma demo_listening: "listening demo_nl"
  by (simp add: listening_def demo_nl_def)

theorem announcement_retried_witness:
  "phase_of (slots (demo_dp demo_table :: demo_world spine_datapath) ! 0) = Announced \<or>
    (\<exists>dp2 w2 e. spine_invoke (demo_dp demo_table) (Some 0) demo_world = Inr (SPINE_OK, dp2, w2) \<and>
      phase_of (slots dp2 ! 0) = Announced \<and>
      kw_env w2 = snd (nlmsg_multicast demo_nl (create_packet (slots (demo_dp demo_table :: demo_world spine_datapath) ! 0)) e))"
  by (rule announcement_retried [OF demo_lib_inv demo_listening, where ops = "[Op_World]" and w = demo_world
        and kcalloc = demo_alloc and char_signed = True])
    (auto simp: demo_table_def phase_of_def zero_priv_state_def create_due_def
      intro: lib_run.intros lib_step.intros simp del: lib_run.simps)

end
