(* ===== verification/Agent.thy ===== *)
theory Agent
  imports Flow_Map Command Announce
begin

text \<open>
  spine.py: the controller process between the environments and the kernel. A callback of the
  poller returns a status or raises an exception; what it sends is collected in order. JSON is
  parsed by Python's library: a message arrives as its fields, where \<open>None\<close> is a missing key.
\<close>

section \<open>Messages, state and outputs\<close>

datatype py_error = KeyError | StructError | TypeError | IndexError | NameError | OSError

datatype status = Continue | Cancel

definition NL_CREATE :: u16 where [c_consts]: "NL_CREATE = 0"
definition NL_READY :: u16 where [c_consts]: "NL_READY = 5"

datatype unix_type = INIT | START | END | ALIVE | OBSERVE | TERMINATE | MEASURE_REQ

text \<open>
  The action is a dict from key to value, null for no action; so is the request id. The integers a
  sender packs are taken in the range of their field.
\<close>

record unix_msg =
  um_type :: unix_type
  um_env_id :: string
  um_flow_id :: int
  um_dst_port :: "int option"
  um_action :: "(string \<rightharpoonup> u64) option option"
  um_request_id :: "u32 option option"

text \<open>Environments are connected by numbered sockets.\<close>

datatype sent = To_Kernel "u8 list" | To_Client nat "u32 \<times> u64 list"

record agent =
  ag_flows :: env_flows
  client_from_sock :: "u32 option \<rightharpoonup> nat"

definition agent_start :: agent where
  "agent_start = \<lparr>ag_flows = EnvFlows, client_from_sock = Map.empty\<rparr>"

section \<open>The senders\<close>

text \<open>
  \<open>nl_send\<close> is the sender of the algorithm the process was started for. Only \<open>send_neo_message\<close>
  serves a measurement request: \<open>send_scubic_message\<close> has no parameter \<open>msg_type\<close>, and
  \<open>send_vanilla_message\<close> looks for a key in the request id, an integer.
\<close>

datatype kernel_cc = CC_Vanilla "vanilla_key list" | CC_Neo | CC_Scubic

fun vanilla_name :: "vanilla_key \<Rightarrow> string" where
  "vanilla_name Vanilla_alpha = ''vanilla_alpha''"
| "vanilla_name Vanilla_beta = ''vanilla_beta''"
| "vanilla_name Vanilla_gamma = ''vanilla_gamma''"
| "vanilla_name Vanilla_delta = ''vanilla_delta''"

definition NEO_ACTION_REG :: u32 where [c_consts]: "NEO_ACTION_REG = 0"

definition send_neo_message :: "(string \<rightharpoonup> u64) \<Rightarrow> u32 \<Rightarrow> u8 list option" where
  "send_neo_message msg_data sock_id = (case msg_data ''neo_action'' of
     None \<Rightarrow> None
   | Some action \<Rightarrow> Some (update_packet sock_id [control_field NEO_ACTION_REG action]))"

fun nl_send :: "kernel_cc \<Rightarrow> (string \<rightharpoonup> u64) \<Rightarrow> u32 \<Rightarrow> u8 list option" where
  "nl_send (CC_Vanilla keys) data sock_id = send_vanilla_message keys (\<lambda>key. data (vanilla_name key)) sock_id"
| "nl_send CC_Neo data sock_id = send_neo_message data sock_id"
| "nl_send CC_Scubic data sock_id = (case (data ''cubic_beta'', data ''cubic_bic_scale'') of
     (Some beta, Some scale) \<Rightarrow> Some (send_scubic_message sock_id beta scale)
   | _ \<Rightarrow> None)"

fun nl_send_measure :: "kernel_cc \<Rightarrow> u32 \<Rightarrow> u32 \<Rightarrow> py_error + u8 list" where
  "nl_send_measure CC_Neo request_id sock_id = Inr (measure_packet sock_id request_id)"
| "nl_send_measure _ request_id sock_id = Inl TypeError"

section \<open>Messages of the kernel\<close>

text \<open>What is left in the object after \<open>MeasureMsg.from_raw\<close>, whose result is ignored.\<close>

definition measure_received :: "u8 list \<Rightarrow> u32 \<times> u64 list" where
  "measure_received buf = (case MeasureMsg_from_raw buf of
     Some (request_id, n, data) \<Rightarrow> (request_id, data)
   | None \<Rightarrow> if length buf < 8 then (0, []) else (of_le (take 4 buf), []))"

definition read_create :: "(string \<Rightarrow> int) \<Rightarrow> kflow \<Rightarrow> env_flows \<Rightarrow> env_flows" where
  "read_create hash flow ef = (case dst_port_to_env_id ef (kf_port flow) of
     None \<Rightarrow> ef
   | Some env_id \<Rightarrow> (case get_env_flows hash env_id ef of
       None \<Rightarrow> ef
     | Some m \<Rightarrow> bind_sock_id_to_env (kf_sock_id flow) env_id
         (set_env_flows hash env_id (snd (add_flow_with_sockId flow m)) ef)))"

definition read_netlink_message ::
  "(string \<Rightarrow> int) \<Rightarrow> u8 list option \<Rightarrow> agent \<Rightarrow> (py_error + status) \<times> sent list \<times> agent" where
  "read_netlink_message hash msg st = (case msg of
     None \<Rightarrow> (Inr Cancel, [], st)
   | Some hdr_raw \<Rightarrow> (case SpineMsgHeader_from_raw hdr_raw of
       None \<Rightarrow> (Inr Continue, [], st)
     | Some hdr \<Rightarrow>
         if hdr_Type hdr = NL_CREATE then
           (case CreateMsg_from_raw (drop 8 hdr_raw) of
              None \<Rightarrow> (Inl StructError, [], st)
            | Some cr \<Rightarrow> (Inr Continue, [], st\<lparr>ag_flows := read_create hash (from_create_msg cr hdr) (ag_flows st)\<rparr>))
         else if hdr_Type hdr = NL_READY then (Inr Continue, [], st)
         else if hdr_Type hdr = NL_MEASURE then
           (case client_from_sock st (Some (hdr_SocketId hdr)) of
              None \<Rightarrow> (Inl KeyError, [], st)
            | Some client \<Rightarrow> (Inr Continue, [To_Client client (measure_received (drop 8 hdr_raw))], st))
         else if hdr_Type hdr = NL_RELEASE then
           (Inr Continue, [], st\<lparr>ag_flows := release_sock_id_to_env (hdr_SocketId hdr) (ag_flows st)\<rparr>)
         else (Inr Continue, [], st)))"

section \<open>Messages of an environment\<close>

definition handle_start :: "(string \<Rightarrow> int) \<Rightarrow> unix_msg \<Rightarrow> active_flow_map \<Rightarrow> agent \<Rightarrow>
   (py_error + status) \<times> sent list \<times> agent" where
  "handle_start hash um m st = (case um_dst_port um of
     None \<Rightarrow> (Inl KeyError, [], st)
   | Some port \<Rightarrow> (Inr Continue, [], st\<lparr>ag_flows :=
       set_env_flows hash (um_env_id um) (add_flow_with_dst_port port (um_flow_id um) m)
         (bind_port_to_env port (um_env_id um) (ag_flows st))\<rparr>))"

definition handle_end :: "(string \<Rightarrow> int) \<Rightarrow> unix_msg \<Rightarrow> active_flow_map \<Rightarrow> agent \<Rightarrow>
   (py_error + status) \<times> sent list \<times> agent" where
  "handle_end hash um m st = (let (port, m') = remove_flow_by_flowId (um_flow_id um) m in
     (Inr Continue, [], st\<lparr>ag_flows :=
       release_port_to_env port (set_env_flows hash (um_env_id um) m' (ag_flows st))\<rparr>))"

definition handle_measure :: "kernel_cc \<Rightarrow> nat \<Rightarrow> unix_msg \<Rightarrow> active_flow_map \<Rightarrow> agent \<Rightarrow>
   (py_error + status) \<times> sent list \<times> agent" where
  "handle_measure cc client um m st =
     (let sock_id = get_sockId_by_flowId (um_flow_id um) m;
          st1 = st\<lparr>client_from_sock := (client_from_sock st)(sock_id \<mapsto> client)\<rparr> in
      case um_request_id um of
        None \<Rightarrow> (Inl KeyError, [], st1)
      | Some None \<Rightarrow> (Inr Continue, [], st1)
      | Some (Some request_id) \<Rightarrow> (case sock_id of
          None \<Rightarrow> (Inr Continue, [], st1)
        | Some sid \<Rightarrow> (case nl_send_measure cc request_id sid of
            Inl e \<Rightarrow> (Inl e, [], st1)
          | Inr packet \<Rightarrow> (Inr Continue, [To_Kernel packet], st1))))"

definition handle_alive :: "kernel_cc \<Rightarrow> unix_msg \<Rightarrow> active_flow_map \<Rightarrow> agent \<Rightarrow>
   (py_error + status) \<times> sent list \<times> agent" where
  "handle_alive cc um m st = (case get_sockId_by_flowId (um_flow_id um) m of
     None \<Rightarrow> (Inr Continue, [], st)
   | Some sid \<Rightarrow> (case um_action um of
       None \<Rightarrow> (Inl KeyError, [], st)
     | Some None \<Rightarrow> (Inr Continue, [], st)
     | Some (Some action) \<Rightarrow> (case nl_send cc action sid of
         None \<Rightarrow> (Inr Continue, [], st)
       | Some packet \<Rightarrow> (Inr Continue, [To_Kernel packet], st))))"

definition read_unix_message ::
  "(string \<Rightarrow> int) \<Rightarrow> kernel_cc \<Rightarrow> nat \<Rightarrow> unix_msg option \<Rightarrow> agent \<Rightarrow> (py_error + status) \<times> sent list \<times> agent" where
  "read_unix_message hash cc client raw st = (case raw of
     None \<Rightarrow> (Inr Cancel, [], st)
   | Some um \<Rightarrow> (case get_env_flows hash (um_env_id um) (ag_flows st) of
       None \<Rightarrow> (Inr Continue, [], st)
     | Some m \<Rightarrow> (case um_type um of
         START \<Rightarrow> handle_start hash um m st
       | TERMINATE \<Rightarrow> (Inr Cancel, [], st\<lparr>ag_flows := release_env hash (um_env_id um)
           (set_env_flows hash (um_env_id um) (remove_all_env_flows m) (ag_flows st))\<rparr>)
       | END \<Rightarrow> handle_end hash um m st
       | MEASURE_REQ \<Rightarrow> handle_measure cc client um m st
       | ALIVE \<Rightarrow> handle_alive cc um m st
       | _ \<Rightarrow> (Inr Cancel, [], st))))"

section \<open>The process\<close>

text \<open>
  poller.py runs the callback of every readable descriptor it watches. A callback that returns
  \<open>Cancel\<close> or raises an exception loses its descriptor: nothing is read from it any more. So does
  a descriptor in an error condition, as when the other side hangs up; no action has an error
  callback.
\<close>

datatype descriptor = Listen_Fd | Netlink_Fd | Env_Fd nat

record process =
  pr_agent :: agent
  watched :: "descriptor list"

definition process_start :: process where
  "process_start = \<lparr>pr_agent = agent_start, watched = [Listen_Fd, Netlink_Fd]\<rparr>"

definition poll_error :: "descriptor \<Rightarrow> process \<Rightarrow> process" where
  "poll_error fd p = p\<lparr>watched := removeAll fd (watched p)\<rparr>"

definition poll_callback ::
  "descriptor \<Rightarrow> (agent \<Rightarrow> (py_error + status) \<times> sent list \<times> agent) \<Rightarrow> process \<Rightarrow> sent list \<times> process" where
  "poll_callback fd callback p =
     (if fd \<notin> set (watched p) then ([], p)
      else let (res, out, st) = callback (pr_agent p) in
        (out, if res = Inr Continue then p\<lparr>pr_agent := st\<rparr> else poll_error fd (p\<lparr>pr_agent := st\<rparr>)))"

text \<open>
  The first message of a new environment, if there is one: a \<open>type\<close> that is missing or is none of
  the message types is \<open>None\<close>. Without a message \<open>json.loads\<close> raises an exception.
\<close>

record hello =
  he_type :: "unix_type option"
  he_env_id :: "string option"

definition accept_unix_conn ::
  "(string \<Rightarrow> int) \<Rightarrow> nat \<Rightarrow> hello option \<Rightarrow> process \<Rightarrow> (py_error + status) \<times> process" where
  "accept_unix_conn hash client message p = (case message of
     None \<Rightarrow> (Inl TypeError, p)
   | Some msg \<Rightarrow>
       if he_type msg \<noteq> Some INIT then (Inr Continue, p)
       else (case he_env_id msg of
           None \<Rightarrow> (Inl KeyError, p)
         | Some env_id \<Rightarrow> (Inr Continue,
             p\<lparr>pr_agent := (pr_agent p)\<lparr>ag_flows := register_env hash env_id (ag_flows (pr_agent p))\<rparr>,
               watched := Env_Fd client # watched p\<rparr>)))"

text \<open>
  What happens to the process: a message of the kernel, a message of an environment, a new
  environment with its first message, an error condition.
\<close>

datatype agent_event =
    From_Kernel "u8 list option"
  | From_Env nat "unix_msg option"
  | Accept nat "hello option"
  | Hang_Up descriptor

fun process_step :: "(string \<Rightarrow> int) \<Rightarrow> kernel_cc \<Rightarrow> agent_event \<Rightarrow> process \<Rightarrow> sent list \<times> process" where
  "process_step hash cc (From_Kernel msg) p = poll_callback Netlink_Fd (read_netlink_message hash msg) p"
| "process_step hash cc (From_Env client raw) p =
     poll_callback (Env_Fd client) (read_unix_message hash cc client raw) p"
| "process_step hash cc (Accept client message) p =
     (if Listen_Fd \<notin> set (watched p) then ([], p)
      else let (res, p1) = accept_unix_conn hash client message p in
        ([], if res = Inr Continue then p1 else poll_error Listen_Fd p1))"
| "process_step hash cc (Hang_Up fd) p = ([], poll_error fd p)"

fun process_run :: "(string \<Rightarrow> int) \<Rightarrow> kernel_cc \<Rightarrow> agent_event list \<Rightarrow> process \<Rightarrow> sent list \<times> process" where
  "process_run hash cc [] p = ([], p)"
| "process_run hash cc (e # es) p =
     (let (out, p1) = process_step hash cc e p; (outs, p2) = process_run hash cc es p1 in (out @ outs, p2))"

lemma process_run_append:
  "process_run hash cc (xs @ ys) p =
     (let (out, p1) = process_run hash cc xs p; (outs, p2) = process_run hash cc ys p1 in (out @ outs, p2))"
  by (induction xs arbitrary: p) (simp_all add: Let_def split: prod.splits)

text \<open>What an accept and an error do to the tables.\<close>

lemma poll_error_agent [simp]: "pr_agent (poll_error fd p) = pr_agent p"
  by (simp add: poll_error_def)

lemma accept_tables:
  assumes "process_step hash cc (Accept client message) p = (out, p')"
  obtains (same) "out = []" "pr_agent p' = pr_agent p"
    | (new) env where "out = []" "pr_agent p' = (pr_agent p)\<lparr>ag_flows := register_env hash env (ag_flows (pr_agent p))\<rparr>"
        "message = Some \<lparr>he_type = Some INIT, he_env_id = Some env\<rparr>" "Listen_Fd \<in> set (watched p)"
proof (cases "Listen_Fd \<in> set (watched p) \<and> (\<exists>env. message = Some \<lparr>he_type = Some INIT, he_env_id = Some env\<rparr>)")
  case True
  then obtain env where "message = Some \<lparr>he_type = Some INIT, he_env_id = Some env\<rparr>" by blast
  with True assms show ?thesis by (intro new [of env]) (auto simp: accept_unix_conn_def)
next
  case False
  have "snd (accept_unix_conn hash client message p) = p" if "Listen_Fd \<in> set (watched p)"
  proof (cases message)
    case (Some msg)
    with False that show ?thesis
      by (cases msg) (auto simp: accept_unix_conn_def split: option.split)
  qed (simp add: accept_unix_conn_def)
  with assms same show ?thesis by (auto simp: Let_def split: if_splits prod.splits)
qed

end
