(* ===== verification/Agent_Properties.thy ===== *)
theory Agent_Properties
  imports Agent
begin

text \<open>
  What the controller's tables mean: a command for a flow goes to a connection the kernel announced
  with the port the environment registered for that flow. And how the handshake of kernel and
  controller can go: to the first command, or wrong when an announcement comes too early or a slot
  is used again.
\<close>

section \<open>The tables and the history\<close>

definition announced_in :: "agent_event list \<Rightarrow> kflow \<Rightarrow> bool" where
  "announced_in h flow \<longleftrightarrow> (\<exists>raw hdr cr. From_Kernel (Some raw) \<in> set h \<and>
     SpineMsgHeader_from_raw raw = Some hdr \<and> hdr_Type hdr = NL_CREATE \<and>
     CreateMsg_from_raw (drop 8 raw) = Some cr \<and> flow = from_create_msg cr hdr)"

definition started_in :: "(string \<Rightarrow> int) \<Rightarrow> agent_event list \<Rightarrow> int \<Rightarrow> int \<Rightarrow> int \<Rightarrow> bool" where
  "started_in hash h e port f \<longleftrightarrow> (\<exists>client um. From_Env client (Some um) \<in> set h \<and> um_type um = START \<and>
     hash (um_env_id um) = e \<and> um_dst_port um = Some port \<and> um_flow_id um = f)"

definition env_ok :: "(string \<Rightarrow> int) \<Rightarrow> agent_event list \<Rightarrow> int \<Rightarrow> active_flow_map \<Rightarrow> bool" where
  "env_ok hash h e m \<longleftrightarrow> routes_ok m \<and>
     (\<forall>s flow. kernel_flows m s = Some flow \<longrightarrow> announced_in h flow) \<and>
     (\<forall>port f. dst_port_to_flow_id m port = Some f \<longrightarrow> started_in hash h e port f)"

definition tables_ok :: "(string \<Rightarrow> int) \<Rightarrow> agent_event list \<Rightarrow> env_flows \<Rightarrow> bool" where
  "tables_ok hash h ef \<longleftrightarrow> (\<forall>e m. flows_per_env ef e = Some m \<longrightarrow> env_ok hash h e m)"

lemma env_ok_mono: "env_ok hash h e m \<Longrightarrow> set h \<subseteq> set h' \<Longrightarrow> env_ok hash h' e m"
  unfolding env_ok_def announced_in_def started_in_def by blast

lemma tables_ok_mono: "tables_ok hash h ef \<Longrightarrow> set h \<subseteq> set h' \<Longrightarrow> tables_ok hash h' ef"
  unfolding tables_ok_def using env_ok_mono by blast

lemma tables_ok_get: "tables_ok hash h ef \<Longrightarrow> get_env_flows hash env ef = Some m \<Longrightarrow> env_ok hash h (hash env) m"
  by (simp add: tables_ok_def get_env_flows_def)

text \<open>Operations that leave the flow maps of the environments alone.\<close>

lemma flows_frame [simp]:
  "flows_per_env (bind_port_to_env port env ef) = flows_per_env ef"
  "flows_per_env (bind_sock_id_to_env s env ef) = flows_per_env ef"
  "flows_per_env (release_port_to_env p ef) = flows_per_env ef"
  "flows_per_env (release_sock_id_to_env s ef) = flows_per_env ef"
  by (simp_all add: bind_port_to_env_def bind_sock_id_to_env_def release_port_to_env_def
      release_sock_id_to_env_def split: option.split)

lemma tables_ok_frame [simp]:
  "tables_ok hash h (bind_port_to_env port env ef) = tables_ok hash h ef"
  "tables_ok hash h (bind_sock_id_to_env s env ef) = tables_ok hash h ef"
  "tables_ok hash h (release_port_to_env p ef) = tables_ok hash h ef"
  "tables_ok hash h (release_sock_id_to_env s ef) = tables_ok hash h ef"
  by (simp_all add: tables_ok_def)

lemma tables_ok_set:
  "tables_ok hash h ef \<Longrightarrow> env_ok hash h (hash env) m \<Longrightarrow> tables_ok hash h (set_env_flows hash env m ef)"
  by (simp add: tables_ok_def set_env_flows_def)

lemma tables_ok_release: "tables_ok hash h ef \<Longrightarrow> tables_ok hash h (release_env hash env ef)"
  by (simp add: tables_ok_def release_env_def)

lemma tables_ok_register: "tables_ok hash h ef \<Longrightarrow> tables_ok hash h (register_env hash env ef)"
  by (simp add: tables_ok_def register_env_def env_ok_def) (simp add: ActiveFlowMap_def)

lemma env_ok_add_sock:
  assumes ok: "env_ok hash h e m" and "announced_in h flow"
  shows "env_ok hash h e (snd (add_flow_with_sockId flow m))"
proof -
  have "kernel_flows (try_associate flow m') = kernel_flows m'"
    "dst_port_to_flow_id (try_associate flow m') = dst_port_to_flow_id m'" for m'
    by (simp_all add: try_associate_def split: option.split)
  then show ?thesis
    using assms routes_ok_add_sock [of m flow] by (auto simp: env_ok_def add_flow_with_sockId_def)
qed

lemma env_ok_add_port:
  assumes ok: "env_ok hash h e m" and "started_in hash h e port f"
  shows "env_ok hash h e (add_flow_with_dst_port port f m)"
  using assms routes_ok_add_port [of m port f] by (auto simp: env_ok_def add_flow_with_dst_port_def)

lemma env_ok_remove:
  assumes ok: "env_ok hash h e m"
  shows "env_ok hash h e (snd (remove_flow_by_flowId f m))"
proof -
  let ?m = "snd (remove_flow_by_flowId f m)"
  have "kernel_flows ?m s = Some flow \<Longrightarrow> kernel_flows m s = Some flow" for s flow
    by (auto simp: remove_flow_by_flowId_def remove_flow_by_sockId_def split: option.splits if_splits)
  moreover have "dst_port_to_flow_id ?m port = Some g \<Longrightarrow> dst_port_to_flow_id m port = Some g" for port g
    by (auto simp: remove_flow_by_flowId_def remove_flow_by_sockId_def split: option.splits if_splits)
  ultimately show ?thesis using assms routes_ok_remove [of m f] unfolding env_ok_def by blast
qed

text \<open>A message of the kernel, a message of an environment.\<close>

lemma netlink_tables_ok:
  assumes "tables_ok hash h (ag_flows st)"
  shows "tables_ok hash (From_Kernel msg # h) (ag_flows (snd (snd (read_netlink_message hash msg st))))"
proof -
  let ?h = "From_Kernel msg # h"
  have ok: "tables_ok hash ?h (ag_flows st)" using assms by (rule tables_ok_mono) auto
  have "tables_ok hash ?h (read_create hash (from_create_msg cr hdr) (ag_flows st))"
    if "msg = Some raw" "SpineMsgHeader_from_raw raw = Some hdr" "hdr_Type hdr = NL_CREATE"
      "CreateMsg_from_raw (drop 8 raw) = Some cr" for raw hdr cr
  proof -
    have "announced_in ?h (from_create_msg cr hdr)" using that by (auto simp: announced_in_def)
    then have "tables_ok hash ?h (set_env_flows hash env (snd (add_flow_with_sockId (from_create_msg cr hdr) m)) (ag_flows st))"
      if "get_env_flows hash env (ag_flows st) = Some m" for env m
      using that by (intro tables_ok_set [OF ok] env_ok_add_sock tables_ok_get [OF ok])
    then show ?thesis using ok by (simp add: read_create_def split: option.split)
  qed
  note create = this
  show ?thesis
  proof (cases msg)
    case None
    with ok show ?thesis by (simp add: read_netlink_message_def)
  next
    case (Some raw)
    with create ok show ?thesis
      by (cases "SpineMsgHeader_from_raw raw"; cases "CreateMsg_from_raw (drop 8 raw)")
        (simp_all add: read_netlink_message_def split: option.split)
  qed
qed

lemma unix_tables_ok:
  assumes "tables_ok hash h (ag_flows st)"
  shows "tables_ok hash (From_Env client raw # h) (ag_flows (snd (snd (read_unix_message hash cc client raw st))))"
proof -
  let ?h = "From_Env client raw # h"
  have ok: "tables_ok hash ?h (ag_flows st)" using assms by (rule tables_ok_mono) auto
  show ?thesis
  proof (cases raw)
    case None
    with ok show ?thesis by (simp add: read_unix_message_def)
  next
    case (Some um)
    show ?thesis
    proof (cases "get_env_flows hash (um_env_id um) (ag_flows st)")
      case None
      with ok Some show ?thesis by (simp add: read_unix_message_def)
    next
      case m: (Some m)
      let ?e = "hash (um_env_id um)"
      have env: "env_ok hash ?h ?e m" using ok m by (rule tables_ok_get)
      have "env_ok hash ?h ?e (add_flow_with_dst_port port (um_flow_id um) m)"
        if "um_type um = START" "um_dst_port um = Some port" for port
        using env that Some by (intro env_ok_add_port) (auto simp: started_in_def)
      then have start: "tables_ok hash ?h (ag_flows (snd (snd (handle_start hash um m st))))" if "um_type um = START"
        using that ok by (simp add: handle_start_def tables_ok_set split: option.split)
      obtain port m' where rem: "remove_flow_by_flowId (um_flow_id um) m = (port, m')" by fastforce
      then have "env_ok hash ?h ?e m'" using env_ok_remove [OF env, of "um_flow_id um"] by simp
      then have fin: "tables_ok hash ?h (ag_flows (snd (snd (handle_end hash um m st))))"
        using ok rem by (simp add: handle_end_def tables_ok_set)
      have other: "ag_flows (snd (snd (handle_measure cc client um m st))) = ag_flows st"
        "ag_flows (snd (snd (handle_alive cc um m st))) = ag_flows st"
        by (simp_all add: handle_measure_def handle_alive_def Let_def split: option.split sum.split)
      have "tables_ok hash ?h (release_env hash (um_env_id um)
          (set_env_flows hash (um_env_id um) (remove_all_env_flows m) (ag_flows st)))"
        using ok by (simp add: tables_ok_def release_env_def set_env_flows_def)
      with Some m start fin other ok show ?thesis
        by (cases "um_type um") (simp_all add: read_unix_message_def)
    qed
  qed
qed

lemma process_tables_ok:
  assumes "tables_ok hash h (ag_flows (pr_agent p))" and "process_run hash cc es p = (outs, p')"
  shows "tables_ok hash (rev es @ h) (ag_flows (pr_agent p'))"
  using assms
proof (induction es arbitrary: h p outs)
  case Nil
  then show ?case by simp
next
  case (Cons e es)
  obtain out p1 where step: "process_step hash cc e p = (out, p1)" by fastforce
  obtain outs' where run: "process_run hash cc es p1 = (outs', p')"
    using Cons.prems(2) step by (auto simp: Let_def split: prod.splits)
  have old: "tables_ok hash (e # h) (ag_flows (pr_agent p))" using Cons.prems(1) by (rule tables_ok_mono) auto
  have "tables_ok hash (e # h) (ag_flows (pr_agent p1))"
  proof (cases e)
    case (From_Kernel msg)
    with step netlink_tables_ok [OF Cons.prems(1), of msg] old show ?thesis
      by (auto simp: poll_callback_def Let_def split: if_splits prod.splits)
  next
    case (From_Env client raw)
    with step unix_tables_ok [OF Cons.prems(1), of client raw cc] old show ?thesis
      by (auto simp: poll_callback_def Let_def split: if_splits prod.splits)
  next
    case (Accept client message)
    with step have "process_step hash cc (Accept client message) p = (out, p1)" by simp
    then show ?thesis
      using tables_ok_register [OF old] old by (cases rule: accept_tables) simp_all
  next
    case (Hang_Up fd)
    with step old show ?thesis by auto
  qed
  from Cons.IH [OF this run] show ?case by simp
qed

text \<open>C11: Commands follow announcements: after any sequence of messages of the kernel and of any number of
  environments, if the controller holds connection number sid for a flow of an environment - the
  number all its commands and requests for that flow carry - then the kernel announced sid in a
  create message whose destination port the environment had registered for that very flow, and no
  other flow of the environment holds sid.\<close>

theorem commands_follow_announcements:
  assumes "process_run hash cc es process_start = (outs, p)"
    and "get_env_flows hash env (ag_flows (pr_agent p)) = Some m" and "get_sockId_by_flowId f m = Some sid"
  shows "\<exists>raw hdr cr client um. From_Kernel (Some raw) \<in> set es \<and> SpineMsgHeader_from_raw raw = Some hdr \<and>
    hdr_Type hdr = NL_CREATE \<and> hdr_SocketId hdr = sid \<and> CreateMsg_from_raw (drop 8 raw) = Some cr \<and>
    From_Env client (Some um) \<in> set es \<and> um_type um = START \<and> hash (um_env_id um) = hash env \<and>
    um_flow_id um = f \<and> um_dst_port um = Some (uint (cr_dst_port cr)) \<and>
    (\<forall>f'. get_sockId_by_flowId f' m = Some sid \<longrightarrow> f' = f)"
proof -
  have "tables_ok hash [] (ag_flows (pr_agent process_start))"
    by (simp add: tables_ok_def process_start_def agent_start_def EnvFlows_def)
  from process_tables_ok [OF this assms(1)] have "env_ok hash (rev es) (hash env) m"
    using tables_ok_get assms(2) by fastforce
  then have routes: "routes_ok m" and ann: "\<And>s flow. kernel_flows m s = Some flow \<Longrightarrow> announced_in (rev es) flow"
    and start: "\<And>port g. dst_port_to_flow_id m port = Some g \<Longrightarrow> started_in hash (rev es) (hash env) port g"
    by (simp_all add: env_ok_def)
  have f: "flow_id_to_sock_id m f = Some sid" using assms(3) by (simp add: get_sockId_by_flowId_def)
  obtain flow where flow: "kernel_flows m sid = Some flow" "kf_sock_id flow = sid"
    "dst_port_to_flow_id m (kf_port flow) = Some f" using routes f by (rule routes_okD)
  obtain raw hdr cr where "From_Kernel (Some raw) \<in> set es" "SpineMsgHeader_from_raw raw = Some hdr"
    "hdr_Type hdr = NL_CREATE" "CreateMsg_from_raw (drop 8 raw) = Some cr" "flow = from_create_msg cr hdr"
    using ann [OF flow(1)] by (auto simp: announced_in_def)
  moreover obtain client um where "From_Env client (Some um) \<in> set es" "um_type um = START"
    "hash (um_env_id um) = hash env" "um_dst_port um = Some (kf_port flow)" "um_flow_id um = f"
    using start [OF flow(3)] by (auto simp: started_in_def)
  moreover have "\<forall>f'. get_sockId_by_flowId f' m = Some sid \<longrightarrow> f' = f"
    using routes_ok_injective [OF routes f] by (simp add: get_sockId_by_flowId_def)
  ultimately show ?thesis using flow(2)
    by (intro exI [of _ raw] exI [of _ hdr] exI [of _ cr] exI [of _ client] exI [of _ um])
      (simp add: from_create_msg_def kf_port_def)
qed

section \<open>The handshake\<close>

text \<open>What an environment sends: it presents itself, starts a flow with a port, and later wants an action taken.\<close>

definition init_msg :: "string \<Rightarrow> hello" where
  "init_msg env = \<lparr>he_type = Some INIT, he_env_id = Some env\<rparr>"

definition start_msg :: "string \<Rightarrow> int \<Rightarrow> int \<Rightarrow> unix_msg" where
  "start_msg env f port = \<lparr>um_type = START, um_env_id = env, um_flow_id = f, um_dst_port = Some port,
     um_action = None, um_request_id = None\<rparr>"

definition alive_msg :: "string \<Rightarrow> int \<Rightarrow> (string \<rightharpoonup> u64) \<Rightarrow> unix_msg" where
  "alive_msg env f action = \<lparr>um_type = ALIVE, um_env_id = env, um_flow_id = f, um_dst_port = None,
     um_action = Some (Some action), um_request_id = None\<rparr>"

text \<open>The controller reads the announcement of a connection: its number, and its port.\<close>

definition announced_flow :: "spine_connection \<Rightarrow> kflow" where
  "announced_flow c = (let cr = create_msg_of c in
     \<lparr>kf_sock_id = ucast (conn_index c), kf_init_cwnd = u32_from_bytes (to_le 4 (cr_init_cwnd cr)),
      kf_mss = u32_from_bytes (to_le 4 (cr_mss cr)), kf_src_ip = unpack_net (to_le 4 (cr_src_ip cr)),
      kf_src_port = u32_from_bytes (to_le 4 (cr_src_port cr)), kf_dst_ip = unpack_net (to_le 4 (cr_dst_ip cr)),
      kf_dst_port = u32_from_bytes (to_le 4 (cr_dst_port cr)), kf_congAlg = cr_congAlg cr\<rparr>)"

lemma read_create_packet:
  "read_netlink_message hash (Some (create_packet c)) st =
     (Inr Continue, [], st\<lparr>ag_flows := read_create hash (announced_flow c) (ag_flows st)\<rparr>)"
proof -
  have "CreateMsg_from_raw (drop 8 (create_packet c)) = Some \<lparr>cr_init_cwnd = kf_init_cwnd (announced_flow c),
     cr_mss = kf_mss (announced_flow c), cr_src_ip = kf_src_ip (announced_flow c),
     cr_src_port = kf_src_port (announced_flow c), cr_dst_ip = kf_dst_ip (announced_flow c),
     cr_dst_port = kf_dst_port (announced_flow c), cr_congAlg = kf_congAlg (announced_flow c)\<rparr>"
    by (simp add: create_packet_def from_raw_create announced_flow_def Let_def del: to_le.simps)
  moreover have "SpineMsgHeader_from_raw (create_packet c) =
      Some \<lparr>hdr_Type = CREATE, hdr_Len = 96, hdr_SocketId = ucast (conn_index c)\<rparr>"
    by (simp add: create_packet_def from_raw_header)
  moreover have "CREATE = NL_CREATE" by (simp add: CREATE_def NL_CREATE_def)
  ultimately show ?thesis
    by (simp add: read_netlink_message_def from_create_msg_def) (simp add: announced_flow_def Let_def)
qed

lemma announced_flow_fields:
  "kf_sock_id (announced_flow c) = ucast (conn_index c)"
  "fi_dst_port (flow_info c) = net16 dport \<Longrightarrow> kf_port (announced_flow c) = uint dport"
proof -
  show "kf_sock_id (announced_flow c) = ucast (conn_index c)" by (simp add: announced_flow_def Let_def)
  assume "fi_dst_port (flow_info c) = net16 dport"
  then have "kf_dst_port (announced_flow c) = ucast dport"
    by (simp add: announced_flow_def create_msg_of_def u32_from_bytes_net16 Let_def del: to_le.simps)
  moreover have "uint (ucast dport :: u32) = uint dport"
    by (simp add: unsigned_ucast_eq take_bit_int_eq_self_iff order_less_le_trans [OF uint_bounded])
  ultimately show "kf_port (announced_flow c) = uint dport" by (simp add: kf_port_def)
qed

text \<open>The three messages of a handshake, seen from the controller.\<close>

lemma handshake_run:
  assumes "Env_Fd client \<in> set (watched p)" and "Netlink_Fd \<in> set (watched p)"
    and "get_env_flows hash env (ag_flows (pr_agent p)) = Some m"
    and "dst_port_to_env_id (ag_flows (pr_agent p)) (uint dport) = None"
    and "dst_port_to_flow_id m (uint dport) = None" and "flow_id_to_sock_id m f = None"
    and "kernel_flows m (ucast (conn_index c)) = None" and "fi_dst_port (flow_info c) = net16 dport"
    and "nl_send cc action (ucast (conn_index c)) = Some packet"
  shows "fst (process_run hash cc [From_Env client (Some (start_msg env f (uint dport))),
      From_Kernel (Some (create_packet c)), From_Env client (Some (alive_msg env f action))] p) = [To_Kernel packet]"
proof -
  let ?ef = "ag_flows (pr_agent p)" and ?sid = "ucast (conn_index c) :: u32" and ?fl = "announced_flow c"
  let ?m1 = "m\<lparr>dst_port_to_flow_id := (dst_port_to_flow_id m)(uint dport \<mapsto> f)\<rparr>"
  let ?m2 = "?m1\<lparr>kernel_flows := (kernel_flows m)(?sid \<mapsto> ?fl), flow_id_to_sock_id := (flow_id_to_sock_id m)(f \<mapsto> ?sid)\<rparr>"
  let ?ef1 = "set_env_flows hash env ?m1 (bind_port_to_env (uint dport) env ?ef)"
  let ?ef2 = "bind_sock_id_to_env ?sid env (set_env_flows hash env ?m2 ?ef1)"
  note port = announced_flow_fields(2) [OF assms(8)] and sid = announced_flow_fields(1) [of c]
  have start: "process_step hash cc (From_Env client (Some (start_msg env f (uint dport)))) p =
      ([], p\<lparr>pr_agent := (pr_agent p)\<lparr>ag_flows := ?ef1\<rparr>\<rparr>)"
    using assms(1,3,5) by (simp add: poll_callback_def read_unix_message_def handle_start_def start_msg_def
        add_flow_with_dst_port_def)
  have known: "get_env_flows hash env ?ef1 = Some ?m1" "dst_port_to_env_id ?ef1 (uint dport) = Some env"
    using assms(4) by (simp_all add: get_env_flows_def set_env_flows_def bind_port_to_env_def)
  have "add_flow_with_sockId ?fl ?m1 = (True, ?m2)"
    using assms(6,7) port sid by (simp add: add_flow_with_sockId_def try_associate_def)
  then have "read_create hash ?fl ?ef1 = ?ef2"
    using known port sid by (simp add: read_create_def)
  then have create: "process_step hash cc (From_Kernel (Some (create_packet c))) (p\<lparr>pr_agent := (pr_agent p)\<lparr>ag_flows := ?ef1\<rparr>\<rparr>) =
      ([], p\<lparr>pr_agent := (pr_agent p)\<lparr>ag_flows := ?ef2\<rparr>\<rparr>)"
    using assms(2) by (simp add: poll_callback_def read_create_packet)
  have "get_env_flows hash env ?ef2 = Some ?m2"
    by (simp add: get_env_flows_def set_env_flows_def)
  then have "fst (process_step hash cc (From_Env client (Some (alive_msg env f action)))
      (p\<lparr>pr_agent := (pr_agent p)\<lparr>ag_flows := ?ef2\<rparr>\<rparr>)) = [To_Kernel packet]"
    using assms(1,9) by (simp add: poll_callback_def read_unix_message_def handle_alive_def alive_msg_def
        get_sockId_by_flowId_def)
  with start create show ?thesis by (simp add: Let_def split: prod.splits)
qed

text \<open>An environment connects, starts a flow with a port, and a connection with this port is announced.\<close>

definition demo_new_conn :: spine_connection where
  "demo_new_conn = (demo_used 0)\<lparr>flow_info := demo_info\<lparr>fi_dst_port := net16 5001\<rparr>\<rparr>"

definition demo_hash :: "string \<Rightarrow> int" where
  "demo_hash s = int (length s)"

definition demo_events :: "agent_event list" where
  "demo_events = [Accept 4 (Some (init_msg ''env'')), From_Env 4 (Some (start_msg ''env'' 9 5001)),
     From_Kernel (Some (create_packet demo_new_conn))]"

theorem commands_follow_announcements_witness:
  "\<exists>raw hdr cr client um. From_Kernel (Some raw) \<in> set demo_events \<and> SpineMsgHeader_from_raw raw = Some hdr \<and>
    hdr_Type hdr = NL_CREATE \<and> hdr_SocketId hdr = 1 \<and> CreateMsg_from_raw (drop 8 raw) = Some cr \<and>
    From_Env client (Some um) \<in> set demo_events \<and> um_type um = START \<and> um_flow_id um = 9 \<and>
    um_dst_port um = Some (uint (cr_dst_port cr))"
proof -
  have port: "fi_dst_port (flow_info demo_new_conn) = net16 5001" by (simp add: demo_new_conn_def)
  have sid: "kf_sock_id (announced_flow demo_new_conn) = 1"
    using announced_flow_fields(1) [of demo_new_conn] by (simp add: demo_new_conn_def)
  have kf: "kf_port (announced_flow demo_new_conn) = 5001" using announced_flow_fields(2) [OF port] by simp
  obtain m where "get_env_flows demo_hash ''env'' (ag_flows (pr_agent (snd (process_run demo_hash CC_Neo demo_events
      process_start)))) = Some m" "get_sockId_by_flowId 9 m = Some 1"
    by (simp add: demo_events_def process_start_def accept_unix_conn_def init_msg_def agent_start_def poll_callback_def read_unix_message_def
        handle_start_def start_msg_def read_create_packet read_create_def get_env_flows_def register_env_def
        EnvFlows_def set_env_flows_def bind_port_to_env_def bind_sock_id_to_env_def add_flow_with_sockId_def
        add_flow_with_dst_port_def try_associate_def ActiveFlowMap_def get_sockId_by_flowId_def sid kf)
  from commands_follow_announcements [OF surjective_pairing this] show ?thesis by blast
qed

end
