(* ===== verification/Agent_Tables.thy ===== *)
theory Agent_Tables
  imports Agent_Properties
begin

text \<open>
  The connection numbers in the controller's tables come from the kernel's announcements: if these
  are all in a set \<open>R\<close>, so are the tables' and those of all packets the controller sends.
\<close>

section \<open>Numbers in the tables and in packets\<close>

text \<open>The connection number a packet of the controller is for.\<close>

lemma nl_send_sid:
  "nl_send cc action sid = Some packet \<Longrightarrow> \<exists>h. SpineMsgHeader_from_raw packet = Some h \<and> hdr_SocketId h = sid"
  by (cases cc) (auto simp: send_vanilla_message_def send_neo_message_def send_scubic_message_def
      update_packet_eq from_raw_header split: option.splits if_splits simp del: to_le.simps)

lemma nl_send_measure_sid:
  "nl_send_measure cc r sid = Inr packet \<Longrightarrow> \<exists>h. SpineMsgHeader_from_raw packet = Some h \<and> hdr_SocketId h = sid"
  by (cases cc) (auto simp: measure_packet_eq from_raw_header simp del: to_le.simps)

text \<open>An event that announces no other connections than those in \<open>R\<close>.\<close>

definition announces_only :: "(u32 \<Rightarrow> bool) \<Rightarrow> agent_event \<Rightarrow> bool" where
  "announces_only R ev \<longleftrightarrow> (case ev of
     From_Kernel (Some raw) \<Rightarrow> (case SpineMsgHeader_from_raw raw of
       Some h \<Rightarrow> hdr_Type h = NL_CREATE \<longrightarrow> R (hdr_SocketId h) | None \<Rightarrow> True)
   | _ \<Rightarrow> True)"

text \<open>Tables that hold only numbers in \<open>R\<close>.\<close>

definition env_sids :: "(u32 \<Rightarrow> bool) \<Rightarrow> active_flow_map \<Rightarrow> bool" where
  "env_sids R m \<longleftrightarrow> (\<forall>s flow. kernel_flows m s = Some flow \<longrightarrow> R s) \<and>
     (\<forall>f s. flow_id_to_sock_id m f = Some s \<longrightarrow> R s)"

definition sids_in :: "(u32 \<Rightarrow> bool) \<Rightarrow> env_flows \<Rightarrow> bool" where
  "sids_in R ef \<longleftrightarrow> (\<forall>e m. flows_per_env ef e = Some m \<longrightarrow> env_sids R m)"

lemma sids_in_frame [simp]:
  "sids_in R (bind_port_to_env port env ef) = sids_in R ef"
  "sids_in R (bind_sock_id_to_env s env ef) = sids_in R ef"
  "sids_in R (release_port_to_env p ef) = sids_in R ef"
  "sids_in R (release_sock_id_to_env s ef) = sids_in R ef"
  by (simp_all add: sids_in_def)

lemma sids_in_get: "sids_in R ef \<Longrightarrow> get_env_flows hash env ef = Some m \<Longrightarrow> env_sids R m"
  by (simp add: sids_in_def get_env_flows_def)

lemma sids_in_set: "sids_in R ef \<Longrightarrow> env_sids R m \<Longrightarrow> sids_in R (set_env_flows hash env m ef)"
  by (simp add: sids_in_def set_env_flows_def)

lemma env_sids_add_sock:
  "env_sids R m \<Longrightarrow> R (kf_sock_id flow) \<Longrightarrow> env_sids R (snd (add_flow_with_sockId flow m))"
  by (auto simp: env_sids_def add_flow_with_sockId_def try_associate_def ran_map_upd split: option.splits)

lemma env_sids_remove: "env_sids R m \<Longrightarrow> env_sids R (snd (remove_flow_by_flowId f m))"
  by (auto simp: env_sids_def remove_flow_by_flowId_def remove_flow_by_sockId_def ran_def split: option.splits)

lemma env_sids_other:
  "env_sids R (add_flow_with_dst_port port f m) = env_sids R m"
  "env_sids R m \<Longrightarrow> env_sids R (remove_all_env_flows m)"
  "env_sids R ActiveFlowMap"
  by (simp_all add: env_sids_def add_flow_with_dst_port_def remove_all_env_flows_def ActiveFlowMap_def)

text \<open>Then packets leave only for numbers in \<open>R\<close>.\<close>

definition sends_for :: "(u32 \<Rightarrow> bool) \<Rightarrow> sent list \<Rightarrow> bool" where
  "sends_for R outs \<longleftrightarrow> list_all (\<lambda>out. case out of
     To_Kernel packet \<Rightarrow> (case SpineMsgHeader_from_raw packet of Some h \<Rightarrow> R (hdr_SocketId h) | None \<Rightarrow> True)
   | To_Client client report \<Rightarrow> True) outs"

lemma sends_for_simps [simp]:
  "sends_for R []" "sends_for R (xs @ ys) \<longleftrightarrow> sends_for R xs \<and> sends_for R ys" "sends_for R [To_Client client report]"
  by (simp_all add: sends_for_def)

lemma netlink_sids:
  assumes "sids_in R (ag_flows st)" and "announces_only R (From_Kernel msg)"
    and "read_netlink_message hash msg st = (res, out, st')"
  shows "sids_in R (ag_flows st') \<and> sends_for R out"
proof (cases msg)
  case None
  with assms show ?thesis by (auto simp: read_netlink_message_def)
next
  case (Some raw)
  show ?thesis
  proof (cases "SpineMsgHeader_from_raw raw")
    case None
    with assms Some show ?thesis by (auto simp: read_netlink_message_def)
  next
    case hdr: (Some hdr)
    have "sids_in R (read_create hash (from_create_msg cr hdr) (ag_flows st))"
      if "hdr_Type hdr = NL_CREATE" for cr
    proof -
      have "R (kf_sock_id (from_create_msg cr hdr))"
        using assms(2) Some hdr that by (simp add: announces_only_def from_create_msg_def)
      then have "sids_in R (set_env_flows hash env (snd (add_flow_with_sockId (from_create_msg cr hdr) m)) (ag_flows st))"
        if "get_env_flows hash env (ag_flows st) = Some m" for env m
        using sids_in_get [OF assms(1) that] by (intro sids_in_set [OF assms(1)] env_sids_add_sock)
      then show ?thesis using assms(1) by (simp add: read_create_def split: option.split)
    qed
    with assms(1,3) Some hdr show ?thesis
      by (auto simp: read_netlink_message_def split: option.splits if_splits)
  qed
qed

lemma unix_sids:
  assumes "sids_in R (ag_flows st)" and "read_unix_message hash cc client raw st = (res, out, st')"
  shows "sids_in R (ag_flows st') \<and> sends_for R out"
proof (cases raw)
  case None
  with assms show ?thesis by (auto simp: read_unix_message_def)
next
  case (Some um)
  show ?thesis
  proof (cases "get_env_flows hash (um_env_id um) (ag_flows st)")
    case None
    with assms Some show ?thesis by (auto simp: read_unix_message_def)
  next
    case m: (Some m)
    have env: "env_sids R m" using assms(1) m by (rule sids_in_get)
    let ?f = "um_flow_id um"
    have other: "R s" if "get_sockId_by_flowId ?f m = Some s" for s
      using env that by (auto simp: env_sids_def get_sockId_by_flowId_def ran_def)
    have "case handle_start hash um m st of (res, out, st') \<Rightarrow> sids_in R (ag_flows st') \<and> sends_for R out"
      using assms(1) env by (simp add: handle_start_def sids_in_set env_sids_other split: option.split)
    moreover obtain port m' where rem: "remove_flow_by_flowId ?f m = (port, m')" by fastforce
    then have "env_sids R m'" using env_sids_remove [OF env, of ?f] by simp
    then have "case handle_end hash um m st of (res, out, st') \<Rightarrow> sids_in R (ag_flows st') \<and> sends_for R out"
      using assms(1) rem by (simp add: handle_end_def sids_in_set)
    moreover have "sends_for R [To_Kernel packet]" if "nl_send_measure cc r s = Inr packet" "R s" for r s packet
      using nl_send_measure_sid [OF that(1)] that(2) by (auto simp: sends_for_def)
    then have "case handle_measure cc client um m st of (res, out, st') \<Rightarrow> sids_in R (ag_flows st') \<and> sends_for R out"
      using assms(1) other by (simp add: handle_measure_def Let_def split: option.split sum.split)
    moreover have "sends_for R [To_Kernel packet]" if "nl_send cc action s = Some packet" "R s" for action s packet
      using nl_send_sid [OF that(1)] that(2) by (auto simp: sends_for_def)
    then have "case handle_alive cc um m st of (res, out, st') \<Rightarrow> sids_in R (ag_flows st') \<and> sends_for R out"
      using assms(1) other by (simp add: handle_alive_def split: option.split)
    moreover have "sids_in R (release_env hash (um_env_id um)
        (set_env_flows hash (um_env_id um) (remove_all_env_flows m) (ag_flows st)))"
      using assms(1) by (simp add: sids_in_def release_env_def set_env_flows_def)
    ultimately show ?thesis
      using assms Some m by (cases "um_type um") (auto simp: read_unix_message_def)
  qed
qed

lemma step_sids:
  assumes "sids_in R (ag_flows (pr_agent p))" and "announces_only R ev"
    and "process_step hash cc ev p = (out, p')"
  shows "sids_in R (ag_flows (pr_agent p')) \<and> sends_for R out"
proof (cases ev)
  case (From_Kernel msg)
  with assms netlink_sids [of R "pr_agent p" msg hash] show ?thesis
    by (cases "read_netlink_message hash msg (pr_agent p)")
      (auto simp: poll_callback_def split: if_splits)
next
  case (From_Env client raw)
  with assms unix_sids [of R "pr_agent p" hash cc client raw] show ?thesis
    by (cases "read_unix_message hash cc client raw (pr_agent p)")
      (auto simp: poll_callback_def split: if_splits)
next
  case (Accept client message)
  with assms(3) have "process_step hash cc (Accept client message) p = (out, p')" by simp
  then show ?thesis
    using assms(1) env_sids_other(3) [of R]
    by (cases rule: accept_tables) (auto simp: sids_in_def register_env_def)
next
  case (Hang_Up fd)
  with assms show ?thesis by auto
qed

lemma run_sids:
  "sids_in R (ag_flows (pr_agent p)) \<Longrightarrow> list_all (\<lambda>ev. announces_only R ev) es \<Longrightarrow>
   process_run hash cc es p = (outs, p') \<Longrightarrow> sids_in R (ag_flows (pr_agent p')) \<and> sends_for R outs"
proof (induction es arbitrary: p outs)
  case Nil
  then show ?case by simp
next
  case (Cons ev es)
  obtain out p1 where step: "process_step hash cc ev p = (out, p1)" by fastforce
  obtain outs' where run: "process_run hash cc es p1 = (outs', p')" and outs: "outs = out @ outs'"
    using Cons.prems(3) step by (auto simp: Let_def split: prod.splits)
  have one: "sids_in R (ag_flows (pr_agent p1)) \<and> sends_for R out"
    using Cons.prems(1,2) step by (intro step_sids) auto
  with Cons.IH [of p1 outs'] Cons.prems(2) run outs show ?case by simp
qed

end
