(* ===== verification/Agent_Faults.thy ===== *)
theory Agent_Faults
  imports Agent_Tables
begin

text \<open>
  How the work of the controller can fail: an announcement that comes before its registration is
  lost, a slot that is used again is steered for its former flow, and a descriptor whose callback
  raised an exception is not read any more.
\<close>

section \<open>Announcements that are not used\<close>

text \<open>An event that announces connection \<open>sid\<close>, and one that registers a port.\<close>

definition announces :: "u32 \<Rightarrow> agent_event \<Rightarrow> bool" where
  "announces sid ev \<longleftrightarrow> (case ev of
     From_Kernel (Some raw) \<Rightarrow> (case SpineMsgHeader_from_raw raw of
       Some h \<Rightarrow> hdr_Type h = NL_CREATE \<and> hdr_SocketId h = sid | None \<Rightarrow> False)
   | _ \<Rightarrow> False)"

definition registers_port :: "int \<Rightarrow> agent_event \<Rightarrow> bool" where
  "registers_port port ev \<longleftrightarrow> (case ev of
     From_Env client (Some um) \<Rightarrow> um_type um = START \<and> um_dst_port um = Some port | _ \<Rightarrow> False)"

lemma announces_other: "\<not> announces sid ev \<longleftrightarrow> announces_only (\<lambda>s. s \<noteq> sid) ev"
  by (auto simp: announces_def announces_only_def split: agent_event.splits option.splits)

text \<open>Tables and packets without connection \<open>sid\<close>.\<close>

definition sid_unknown :: "u32 \<Rightarrow> env_flows \<Rightarrow> bool" where
  "sid_unknown sid = sids_in (\<lambda>s. s \<noteq> sid)"

definition spares :: "u32 \<Rightarrow> sent list \<Rightarrow> bool" where
  "spares sid = sends_for (\<lambda>s. s \<noteq> sid)"

lemma spares_simps [simp]: "spares sid []" "spares sid (xs @ ys) \<longleftrightarrow> spares sid xs \<and> spares sid ys"
  by (simp_all add: spares_def)

lemma run_unknown:
  "sid_unknown sid (ag_flows (pr_agent p)) \<Longrightarrow> list_all (\<lambda>ev. \<not> announces sid ev) es \<Longrightarrow>
   process_run hash cc es p = (outs, p') \<Longrightarrow> sid_unknown sid (ag_flows (pr_agent p')) \<and> spares sid outs"
  unfolding sid_unknown_def spares_def announces_other by (rule run_sids)

text \<open>A port no flow was started with stays unbound.\<close>

lemma unbound_frame [simp]:
  "dst_port_to_env_id (set_env_flows hash env m ef) = dst_port_to_env_id ef"
  "dst_port_to_env_id (bind_sock_id_to_env s env ef) = dst_port_to_env_id ef"
  "dst_port_to_env_id (release_sock_id_to_env s ef) = dst_port_to_env_id ef"
  "dst_port_to_env_id (register_env hash env ef) = dst_port_to_env_id ef"
  by (simp_all add: set_env_flows_def bind_sock_id_to_env_def release_sock_id_to_env_def register_env_def)

lemma netlink_ports:
  "dst_port_to_env_id (ag_flows (snd (snd (read_netlink_message hash msg st)))) = dst_port_to_env_id (ag_flows st)"
  by (simp add: read_netlink_message_def read_create_def split: option.split)

lemma unix_unbound:
  assumes "dst_port_to_env_id (ag_flows st) port = None" and "\<not> registers_port port (From_Env client raw)"
  shows "dst_port_to_env_id (ag_flows (snd (snd (read_unix_message hash cc client raw st)))) port = None"
proof -
  have "dst_port_to_env_id (release_port_to_env q ef) port = None" if "dst_port_to_env_id ef port = None" for q ef
    using that by (simp add: release_port_to_env_def split: option.split)
  moreover have "dst_port_to_env_id (bind_port_to_env q env ef) port = None"
    if "dst_port_to_env_id ef port = None" "q \<noteq> port" for q env ef
    using that by (simp add: bind_port_to_env_def)
  ultimately have rel: "dst_port_to_env_id (release_port_to_env q ef) port = None"
    "q' \<noteq> port \<Longrightarrow> dst_port_to_env_id (bind_port_to_env q' env ef) port = None"
    if "dst_port_to_env_id ef port = None" for q q' env ef
    using that by simp_all
  show ?thesis
  proof (cases raw)
    case None
    with assms(1) show ?thesis by (simp add: read_unix_message_def)
  next
    case (Some um)
    show ?thesis
    proof (cases "get_env_flows hash (um_env_id um) (ag_flows st)")
      case None
      with assms(1) Some show ?thesis by (simp add: read_unix_message_def)
    next
      case m: (Some m)
      have "dst_port_to_env_id (ag_flows (snd (snd (handle_start hash um m st)))) port = None" if "um_type um = START"
        using assms Some that rel(2) [OF assms(1)] by (auto simp: handle_start_def registers_port_def split: option.split)
      moreover have "dst_port_to_env_id (ag_flows (snd (snd (handle_end hash um m st)))) port = None"
        using assms(1) rel by (simp add: handle_end_def Let_def split: prod.split)
      moreover have "ag_flows (snd (snd (handle_measure cc client um m st))) = ag_flows st"
        "ag_flows (snd (snd (handle_alive cc um m st))) = ag_flows st"
        by (simp_all add: handle_measure_def handle_alive_def Let_def split: option.split sum.split)
      moreover have "dst_port_to_env_id (release_env hash env (set_env_flows hash env m' (ag_flows st))) port = None"
        for env m' using assms(1) by (simp add: release_env_def without_env_def)
      ultimately show ?thesis
        using assms(1) Some m by (cases "um_type um") (simp_all add: read_unix_message_def)
    qed
  qed
qed

lemma run_unbound:
  "dst_port_to_env_id (ag_flows (pr_agent p)) port = None \<Longrightarrow> list_all (\<lambda>ev. \<not> registers_port port ev) es \<Longrightarrow>
   process_run hash cc es p = (outs, p') \<Longrightarrow> dst_port_to_env_id (ag_flows (pr_agent p')) port = None"
proof (induction es arbitrary: p outs)
  case Nil
  then show ?case by simp
next
  case (Cons ev es)
  obtain out p1 where step: "process_step hash cc ev p = (out, p1)" by fastforce
  obtain outs' where run: "process_run hash cc es p1 = (outs', p')"
    using Cons.prems(3) step by (auto simp: Let_def split: prod.splits)
  have "dst_port_to_env_id (ag_flows (pr_agent p1)) port = None"
  proof (cases ev)
    case (From_Kernel msg)
    with Cons.prems(1) step netlink_ports [of hash msg "pr_agent p"] show ?thesis
      by (cases "read_netlink_message hash msg (pr_agent p)") (auto simp: poll_callback_def split: if_splits)
  next
    case (From_Env client raw)
    with Cons.prems(1,2) step unix_unbound [of "pr_agent p" port client raw hash cc] show ?thesis
      by (cases "read_unix_message hash cc client raw (pr_agent p)") (auto simp: poll_callback_def split: if_splits)
  next
    case (Accept client message)
    with step have "process_step hash cc (Accept client message) p = (out, p1)" by simp
    then show ?thesis using Cons.prems(1) by (cases rule: accept_tables) simp_all
  next
    case (Hang_Up fd)
    with Cons.prems(1) step show ?thesis by auto
  qed
  from Cons.IH [OF this _ run] Cons.prems(2) show ?case by simp
qed

text \<open>C34: An announcement that comes before its registration is lost for good: if the create message of a
  connection reaches the controller while no environment has yet started a flow with its port, and
  no other create message carries its number - the kernel sends none, since an announced connection
  stays announced until it is freed - then whatever the environments start, ask for and command
  before and after, the controller never sends a packet for that connection.\<close>

theorem early_announcement_is_lost:
  assumes "process_run hash cc (es0 @ From_Kernel (Some (create_packet c)) # es1) process_start = (outs, p)"
    and "list_all (\<lambda>ev. \<not> announces (ucast (conn_index c)) ev) (es0 @ es1)"
    and "fi_dst_port (flow_info c) = net16 dport" and "list_all (\<lambda>ev. \<not> registers_port (uint dport) ev) es0"
  shows "spares (ucast (conn_index c)) outs \<and> sid_unknown (ucast (conn_index c)) (ag_flows (pr_agent p))"
proof -
  let ?sid = "ucast (conn_index c) :: u32"
  obtain outs0 p0 where r0: "process_run hash cc es0 process_start = (outs0, p0)" by fastforce
  obtain out1 p1 where r1: "process_step hash cc (From_Kernel (Some (create_packet c))) p0 = (out1, p1)" by fastforce
  obtain outs2 where r2: "process_run hash cc es1 p1 = (outs2, p)" and outs: "outs = outs0 @ out1 @ outs2"
    using assms(1) r0 r1 by (auto simp: process_run_append Let_def split: prod.splits)
  have start: "sid_unknown ?sid (ag_flows (pr_agent process_start))"
    "dst_port_to_env_id (ag_flows (pr_agent process_start)) (uint dport) = None"
    by (simp_all add: sid_unknown_def sids_in_def process_start_def agent_start_def EnvFlows_def)
  have u0: "sid_unknown ?sid (ag_flows (pr_agent p0)) \<and> spares ?sid outs0"
    using run_unknown [OF start(1) _ r0] assms(2) by simp
  have "dst_port_to_env_id (ag_flows (pr_agent p0)) (uint dport) = None"
    using run_unbound [OF start(2) assms(4) r0] .
  then have "read_create hash (announced_flow c) (ag_flows (pr_agent p0)) = ag_flows (pr_agent p0)"
    using announced_flow_fields(2) [OF assms(3)] by (simp add: read_create_def)
  then have "out1 = [] \<and> ag_flows (pr_agent p1) = ag_flows (pr_agent p0)"
    using r1 by (auto simp: poll_callback_def read_create_packet split: if_splits)
  with u0 have "sid_unknown ?sid (ag_flows (pr_agent p1))" "spares ?sid out1" by simp_all
  with run_unknown [OF this(1) _ r2] assms(2) u0 outs show ?thesis by simp
qed

theorem early_announcement_is_lost_witness:
  "spares (ucast (conn_index demo_new_conn)) (fst (process_run demo_hash CC_Neo ([Accept 4 (Some (init_msg ''env''))] @
      From_Kernel (Some (create_packet demo_new_conn)) # [From_Env 4 (Some (start_msg ''env'' 9 5001)),
        From_Env 4 (Some (alive_msg ''env'' 9 [''neo_action'' \<mapsto> 1]))]) process_start)) \<and>
    sid_unknown (ucast (conn_index demo_new_conn)) (ag_flows (pr_agent (snd (process_run demo_hash CC_Neo
      ([Accept 4 (Some (init_msg ''env''))] @
      From_Kernel (Some (create_packet demo_new_conn)) # [From_Env 4 (Some (start_msg ''env'' 9 5001)),
        From_Env 4 (Some (alive_msg ''env'' 9 [''neo_action'' \<mapsto> 1]))]) process_start))))"
  by (rule early_announcement_is_lost [where ?es0.0 = "[Accept 4 (Some (init_msg ''env''))]", OF surjective_pairing])
    (simp_all add: announces_def registers_port_def demo_new_conn_def)

text \<open>C35: A slot that is used again is steered for its former flow: while the controller holds a
  connection number for a flow, a release message changes nothing of that, and when the slot is
  given to a new connection that is announced with the port of another flow, the announcement is
  refused; the former flow's actions go to the new connection, and the flow it belongs to has none.\<close>

theorem reused_slot_steered_for_old_flow:
  assumes "Env_Fd client \<in> set (watched p)" and "Netlink_Fd \<in> set (watched p)"
    and "get_env_flows hash env (ag_flows (pr_agent p)) = Some m"
    and "flow_id_to_sock_id m f = Some (ucast (conn_index c))" and "kernel_flows m (ucast (conn_index c)) = Some old"
    and "dst_port_to_env_id (ag_flows (pr_agent p)) (uint dport) = Some env"
    and "fi_dst_port (flow_info c) = net16 dport" and "flow_id_to_sock_id m g = None"
    and "SpineMsgHeader_from_raw release = Some hdr" and "hdr_Type hdr = NL_RELEASE"
    and "nl_send cc action (ucast (conn_index c)) = Some packet"
  shows "fst (process_run hash cc [From_Kernel (Some release), From_Kernel (Some (create_packet c)),
      From_Env client (Some (alive_msg env f action)), From_Env client (Some (alive_msg env g action'))] p) =
      [To_Kernel packet]"
proof -
  let ?sid = "ucast (conn_index c) :: u32" and ?ef = "ag_flows (pr_agent p)" and ?fl = "announced_flow c"
  let ?ef1 = "release_sock_id_to_env (hdr_SocketId hdr) ?ef"
  let ?ef2 = "bind_sock_id_to_env ?sid env (set_env_flows hash env m ?ef1)"
  let ?p = "\<lambda>ef. p\<lparr>pr_agent := (pr_agent p)\<lparr>ag_flows := ef\<rparr>\<rparr>"
  have "NL_RELEASE \<noteq> NL_CREATE" "NL_RELEASE \<noteq> NL_READY" "NL_RELEASE \<noteq> NL_MEASURE" by (simp_all add: c_consts)
  then have one: "process_step hash cc (From_Kernel (Some release)) p = ([], ?p ?ef1)"
    using assms(2,9,10) by (simp add: poll_callback_def read_netlink_message_def)
  have m1: "get_env_flows hash env ?ef1 = Some m"
    using assms(3) by (simp add: get_env_flows_def)
  have "add_flow_with_sockId ?fl m = (False, m)"
    using assms(5) announced_flow_fields(1) [of c] by (simp add: add_flow_with_sockId_def)
  then have "read_create hash ?fl ?ef1 = ?ef2"
    using m1 assms(6) announced_flow_fields(1) [of c] announced_flow_fields(2) [OF assms(7)]
    by (simp add: read_create_def)
  then have two: "process_step hash cc (From_Kernel (Some (create_packet c))) (?p ?ef1) = ([], ?p ?ef2)"
    using assms(2) by (simp add: poll_callback_def read_create_packet)
  have m2: "get_env_flows hash env ?ef2 = Some m" by (simp add: get_env_flows_def set_env_flows_def)
  have three: "process_step hash cc (From_Env client (Some (alive_msg env f action))) (?p ?ef2) = ([To_Kernel packet], ?p ?ef2)"
    using assms(1,4,11) m2 by (simp add: poll_callback_def read_unix_message_def handle_alive_def alive_msg_def
        get_sockId_by_flowId_def)
  have four: "process_step hash cc (From_Env client (Some (alive_msg env g action'))) (?p ?ef2) = ([], ?p ?ef2)"
    using assms(1,8) m2 by (simp add: poll_callback_def read_unix_message_def handle_alive_def alive_msg_def
        get_sockId_by_flowId_def)
  show ?thesis using one two three four by simp
qed

text \<open>
  In the witness flow 9 of the environment still holds connection number 1 and port 5000; flow 10
  was started with port 5001, the one the new connection in the slot has.
\<close>

definition demo_release :: "u8 list" where
  "demo_release = header_bytes \<lparr>hdr_Type = NL_RELEASE, hdr_Len = 12, hdr_SocketId = 0\<rparr> @ to_le 4 (1 :: u32)"

definition demo_old_flow :: kflow where
  "demo_old_flow = \<lparr>kf_sock_id = 1, kf_init_cwnd = 10, kf_mss = 1448, kf_src_ip = 1, kf_src_port = 80,
     kf_dst_ip = 2, kf_dst_port = 5000, kf_congAlg = []\<rparr>"

definition demo_reused_map :: active_flow_map where
  "demo_reused_map = \<lparr>kernel_flows = [1 \<mapsto> demo_old_flow], flow_id_to_sock_id = [9 \<mapsto> 1],
     dst_port_to_flow_id = [5000 \<mapsto> 9, 5001 \<mapsto> 10]\<rparr>"

definition demo_reused_process :: process where
  "demo_reused_process = \<lparr>pr_agent = agent_start\<lparr>ag_flows := \<lparr>flows_per_env = [3 \<mapsto> demo_reused_map],
     dst_port_to_env_id = [5000 \<mapsto> ''env'', 5001 \<mapsto> ''env''], sock_id_to_env_id = [1 \<mapsto> ''env'']\<rparr>\<rparr>,
     watched = [Env_Fd 4, Netlink_Fd]\<rparr>"

theorem reused_slot_steered_for_old_flow_witness:
  "fst (process_run demo_hash CC_Neo [From_Kernel (Some demo_release), From_Kernel (Some (create_packet demo_new_conn)),
      From_Env 4 (Some (alive_msg ''env'' 9 [''neo_action'' \<mapsto> 1])),
      From_Env 4 (Some (alive_msg ''env'' 10 [''neo_action'' \<mapsto> 2]))] demo_reused_process) =
    [To_Kernel (update_packet 1 [control_field 0 1])]"
  by (rule reused_slot_steered_for_old_flow [where m = demo_reused_map and dport = 5001 and old = demo_old_flow
        and hdr = "\<lparr>hdr_Type = NL_RELEASE, hdr_Len = 12, hdr_SocketId = 0\<rparr>"])
    (simp_all add: demo_reused_process_def demo_reused_map_def get_env_flows_def agent_start_def demo_hash_def
      demo_new_conn_def demo_release_def send_neo_message_def NEO_ACTION_REG_def from_raw_header c_consts)

section \<open>Descriptors that are no longer read\<close>

definition concerns :: "descriptor \<Rightarrow> agent_event \<Rightarrow> bool" where
  "concerns fd ev \<longleftrightarrow> (case ev of
     From_Kernel msg \<Rightarrow> fd = Netlink_Fd | From_Env client raw \<Rightarrow> fd = Env_Fd client
   | Accept client message \<Rightarrow> fd = Listen_Fd | Hang_Up fd' \<Rightarrow> fd = fd')"

text \<open>Once its descriptor is gone, events of that source are as if they had not happened.\<close>

lemma unwatched_step:
  assumes "fd \<notin> set (watched p)" and "process_step hash cc ev p = (out, p')"
  shows "concerns fd ev \<Longrightarrow> out = [] \<and> p' = p"
    and "\<forall>client message. ev = Accept client message \<longrightarrow> fd \<noteq> Env_Fd client \<Longrightarrow> fd \<notin> set (watched p')"
proof -
  assume "concerns fd ev"
  with assms show "out = [] \<and> p' = p"
    by (cases ev) (auto simp: concerns_def poll_callback_def poll_error_def)
next
  assume "\<forall>client message. ev = Accept client message \<longrightarrow> fd \<noteq> Env_Fd client"
  with assms show "fd \<notin> set (watched p')"
    by (cases ev) (auto simp: poll_callback_def poll_error_def accept_unix_conn_def Let_def
        split: if_splits prod.splits option.splits)
qed

lemma unwatched_ignored:
  "fd \<notin> set (watched p) \<Longrightarrow> list_all (\<lambda>ev. \<forall>client message. ev = Accept client message \<longrightarrow> fd \<noteq> Env_Fd client) es \<Longrightarrow>
   process_run hash cc es p = process_run hash cc (filter (\<lambda>ev. \<not> concerns fd ev) es) p"
proof (induction es arbitrary: p)
  case Nil
  then show ?case by simp
next
  case (Cons ev es)
  obtain out p1 where step: "process_step hash cc ev p = (out, p1)" by fastforce
  have "fd \<notin> set (watched p1)" using unwatched_step(2) [OF Cons.prems(1) step] Cons.prems(2) by simp
  with Cons.IH [of p1] Cons.prems(2) step unwatched_step(1) [OF Cons.prems(1) step] show ?case by auto
qed

text \<open>C36: One client that connects and goes away before it has sent its first message locks out all later
  ones: the exception of the callback costs the listening socket its place in the poller, so from
  then on a run is the same as one in which nobody connects any more.\<close>

theorem silent_client_locks_out:
  "process_run hash cc (es0 @ Accept client None # es1) p =
   process_run hash cc (es0 @ Accept client None # filter (\<lambda>ev. \<not> concerns Listen_Fd ev) es1) p"
proof -
  have "process_run hash cc (Accept client None # es1) q =
      process_run hash cc (Accept client None # filter (\<lambda>ev. \<not> concerns Listen_Fd ev) es1) q" for q
  proof -
    obtain p1 where "process_step hash cc (Accept client None) q = ([], p1)" "Listen_Fd \<notin> set (watched p1)"
      by (cases "Listen_Fd \<in> set (watched q)") (simp_all add: accept_unix_conn_def poll_error_def)
    moreover from this(2) have "process_run hash cc es1 p1 = process_run hash cc (filter (\<lambda>ev. \<not> concerns Listen_Fd ev) es1) p1"
      by (rule unwatched_ignored) (simp add: list_all_iff)
    ultimately show ?thesis by simp
  qed
  then show ?thesis by (simp only: process_run_append)
qed

end
