(* ===== verification/Agent_Packets.thy ===== *)
theory Agent_Packets
  imports Agent_Faults
begin

text \<open>
  The type of the controller's output: whatever reaches the process, every packet it sends to the
  kernel is one of the two kinds the kernel's reader is specified for (\<open>controller_payload\<close> of
  \<open>Netlink\<close>), so that the contracts of the modules apply to what the process really sends.
\<close>

section \<open>Packets of the senders\<close>

text \<open>The set \<open>vanilla_action_keys\<close> has the four keys, in some order.\<close>

fun sender_keys :: "kernel_cc \<Rightarrow> bool" where
  "sender_keys (CC_Vanilla keys) \<longleftrightarrow>
     mset keys = mset [Vanilla_alpha, Vanilla_beta, Vanilla_gamma, Vanilla_delta]"
| "sender_keys _ \<longleftrightarrow> True"

lemma valid_control_field: "unat reg < MAX_CONTROL_REG \<Longrightarrow> valid_update (control_field reg val)"
  by (simp add: valid_update_def control_field_def PY_VOLATILE_CONTROL_REG_def VOLATILE_CONTROL_REG_def)

definition small_packet :: "u8 list \<Rightarrow> bool" where
  "small_packet packet \<longleftrightarrow>
     (\<exists>sid fs. packet = update_packet sid fs \<and> 0 < length fs \<and> length fs \<le> 4 \<and> list_all valid_update fs) \<or>
     (\<exists>sid r. packet = measure_packet sid r)"

lemma small_payload: "small_packet packet \<Longrightarrow> controller_payload packet"
  by (auto simp: small_packet_def controller_payload_def) fastforce

lemma small_update: "0 < length fs \<Longrightarrow> length fs \<le> 4 \<Longrightarrow> list_all valid_update fs \<Longrightarrow> small_packet (update_packet sid fs)"
  unfolding small_packet_def by blast

lemma nl_send_small:
  assumes "sender_keys cc" and "nl_send cc action sid = Some packet"
  shows "small_packet packet"
proof (cases cc)
  case (CC_Vanilla keys)
  let ?fs = "map (\<lambda>key. control_field (vanilla_reg key) (the (action (vanilla_name key)))) keys"
  have "size (mset keys) = 4" using assms(1) CC_Vanilla by simp
  then have n: "length keys = 4" by simp
  have "unat (vanilla_reg key) < MAX_CONTROL_REG" for key by (cases key) (simp_all add: MAX_CONTROL_REG_def)
  then have "list_all valid_update ?fs" by (simp add: list_all_iff valid_control_field)
  moreover have "packet = update_packet sid ?fs"
    using assms(2) CC_Vanilla by (simp add: send_vanilla_message_def split: if_splits)
  ultimately show ?thesis using n by (simp add: small_update)
next
  case CC_Neo
  then show ?thesis
    using assms(2) by (auto simp: send_neo_message_def NEO_ACTION_REG_def MAX_CONTROL_REG_def
        intro!: small_update valid_control_field split: option.splits)
next
  case CC_Scubic
  then show ?thesis
    using assms(2) by (auto simp: send_scubic_message_def CUBIC_BETA_REG_def CUBIC_BIC_SCALE_REG_def MAX_CONTROL_REG_def
        intro!: small_update valid_control_field split: option.splits)
qed

lemma nl_send_measure_small: "nl_send_measure cc r sid = Inr packet \<Longrightarrow> small_packet packet"
  by (cases cc) (auto simp: small_packet_def)

section \<open>Packets of the process\<close>

definition sends_small :: "sent list \<Rightarrow> bool" where
  "sends_small outs \<longleftrightarrow> (\<forall>packet. To_Kernel packet \<in> set outs \<longrightarrow> small_packet packet)"

lemma sends_small_simps [simp]:
  "sends_small []" "sends_small (xs @ ys) \<longleftrightarrow> sends_small xs \<and> sends_small ys"
  "sends_small [To_Kernel packet] \<longleftrightarrow> small_packet packet" "sends_small [To_Client client report]"
  by (auto simp: sends_small_def)

lemma poll_callback_out: "poll_callback fd f p = (out, p') \<Longrightarrow> out = [] \<or> out = fst (snd (f (pr_agent p)))"
  by (auto simp: poll_callback_def split: if_splits prod.splits)

lemma step_small:
  assumes "sender_keys cc" and "process_step hash cc ev p = (out, p')"
  shows "sends_small out"
proof (cases ev)
  case (From_Kernel msg)
  have "sends_small (fst (snd (read_netlink_message hash msg st)))" for st
    by (simp add: read_netlink_message_def split: option.split)
  with From_Kernel assms(2) show ?thesis
    using poll_callback_out by fastforce
next
  case (From_Env client raw)
  have "sends_small (fst (snd (handle_measure cc client um m st)))" for um m st
    by (auto simp: handle_measure_def Let_def nl_send_measure_small split: option.split sum.split)
  moreover have "sends_small (fst (snd (handle_alive cc um m st)))" for um m st
    using nl_send_small [OF assms(1)] by (auto simp: handle_alive_def split: option.split)
  moreover have "sends_small (fst (snd (handle_start hash um m st)))" "sends_small (fst (snd (handle_end hash um m st)))"
    for um m st by (simp_all add: handle_start_def handle_end_def Let_def split: option.split prod.split)
  ultimately have "sends_small (fst (snd (read_unix_message hash cc client raw st)))" for st
    by (simp add: read_unix_message_def split: option.split unix_type.split)
  with From_Env assms(2) show ?thesis
    using poll_callback_out by fastforce
next
  case (Accept client message)
  with assms(2) have "process_step hash cc (Accept client message) p = (out, p')" by simp
  then show ?thesis by (cases rule: accept_tables) simp_all
qed (use assms(2) in auto)

lemma run_small:
  "sender_keys cc \<Longrightarrow> process_run hash cc es p = (outs, p') \<Longrightarrow> sends_small outs"
proof (induction es arbitrary: p outs)
  case (Cons ev es)
  obtain out p1 where step: "process_step hash cc ev p = (out, p1)" by fastforce
  obtain outs' where run: "process_run hash cc es p1 = (outs', p')" and outs: "outs = out @ outs'"
    using Cons.prems(2) step by (auto simp: Let_def split: prod.splits)
  show ?case using step_small [OF Cons.prems(1) step] Cons.IH [OF Cons.prems(1) run] outs by simp
qed simp

text \<open>C18: What the controller sends is what the kernel expects: from any state and for any sequence of
  messages, connects and disconnects, every packet of the process to the kernel is a command of one
  to four registers that exist or a measurement request, its header states its type and its exact
  length, and it fits into the 64 bytes the longest command takes.\<close>

theorem controller_packets_well_typed:
  assumes "process_run hash cc es p = (outs, p')" and "To_Kernel packet \<in> set outs" and "sender_keys cc"
  shows "controller_payload packet \<and> length packet \<le> 64 \<and> (\<exists>h. SpineMsgHeader_from_raw packet = Some h \<and>
    unat (hdr_Len h) = length packet \<and> (hdr_Type h = UPDATE_FIELDS \<or> hdr_Type h = MEASURE))"
proof -
  have "small_packet packet" using run_small [OF assms(3,1)] assms(2) by (simp add: sends_small_def)
  then consider sid fs where "packet = update_packet sid fs" "0 < length fs" "length fs \<le> 4" "list_all valid_update fs"
    | sid r where "packet = measure_packet sid r" unfolding small_packet_def by blast
  then show ?thesis
  proof cases
    case 1
    then have "unat (word_of_nat (12 + length fs * 13) :: u16) = 12 + length fs * 13" by (intro packet_len) simp
    with 1 show ?thesis
      by (auto simp: controller_payload_def update_packet_eq from_raw_header simp del: to_le.simps)
  next
    case 2
    then show ?thesis
      by (auto simp: controller_payload_def measure_packet_eq from_raw_header simp del: to_le.simps)
  qed
qed

theorem controller_packets_well_typed_witness:
  "controller_payload (update_packet 1 [control_field 0 7]) \<and> length (update_packet 1 [control_field 0 7]) \<le> 64 \<and>
    (\<exists>h. SpineMsgHeader_from_raw (update_packet 1 [control_field 0 7]) = Some h \<and>
      unat (hdr_Len h) = length (update_packet 1 [control_field 0 7]) \<and> (hdr_Type h = UPDATE_FIELDS \<or> hdr_Type h = MEASURE))"
proof -
  have "process_run demo_hash CC_Neo [From_Env 4 (Some (alive_msg ''env'' 9 [''neo_action'' \<mapsto> 7]))] demo_reused_process =
      ([To_Kernel (update_packet 1 [control_field 0 7])], demo_reused_process)"
    by (simp add: poll_callback_def read_unix_message_def handle_alive_def alive_msg_def demo_reused_process_def
        demo_reused_map_def get_env_flows_def get_sockId_by_flowId_def demo_hash_def agent_start_def
        send_neo_message_def NEO_ACTION_REG_def)
  from controller_packets_well_typed [OF this] show ?thesis by simp
qed

text \<open>So the library takes every packet of the process, in any order with its own work.\<close>

lemma controller_packet_received:
  assumes "process_run hash cc es p = (outs, p')" and "To_Kernel packet \<in> set outs" and "sender_keys cc"
    and "flows_ok setp fetchm T tzero N C dp"
  shows "\<exists>dp'. spine_nl_recv (Some (spine_read_msg cs)) (Some dp) (nl_packet packet) = Inr (Some dp') \<and>
    flows_ok setp fetchm T tzero N C dp' \<and> length (slots dp') = length (slots dp)"
proof -
  have "small_packet packet" using run_small [OF assms(3,1)] assms(2) by (simp add: sends_small_def)
  from flows_ok_recv [OF assms(4) small_payload [OF this]] show ?thesis .
qed

end
