(* ===== verification/Traffic.thy ===== *)
theory Traffic
  imports Agent_Packets
begin

text \<open>
  What the kernel puts on the wire: with the messages multicast so far observable in the
  environment, every call of the library adds at most well-formed messages - announcements, whose
  numbers have 16 bits, releases, and reports for connections a measurement was requested for.
\<close>

section \<open>The trace of multicast messages\<close>

text \<open>
  \<open>tr\<close> observes the messages multicast so far: the clock and the allocation of socket buffers add
  none, a multicast adds its message or, when it fails, nothing.
\<close>

definition traced :: "('e, 'ts) time_api \<Rightarrow> 'e nl_api \<Rightarrow> ('e \<Rightarrow> u8 list set) \<Rightarrow> bool" where
  "traced T N tr \<longleftrightarrow> (\<forall>e. tr (snd (ktime_get_real_ts64 T e)) = tr e) \<and>
     (\<forall>n e. tr (snd (nlmsg_new N n e)) = tr e) \<and>
     (\<forall>m e. tr (snd (nlmsg_multicast N m e)) \<subseteq> insert m (tr e))"

text \<open>A message the controller can handle, where \<open>R\<close> holds of the connections it waits for.\<close>

definition kernel_msg :: "(u32 \<Rightarrow> bool) \<Rightarrow> u8 list \<Rightarrow> bool" where
  "kernel_msg R p \<longleftrightarrow> (\<exists>h. SpineMsgHeader_from_raw p = Some h \<and>
     (hdr_Type h = CREATE \<longrightarrow> 96 \<le> length p \<and> unat (hdr_SocketId h) < 65536) \<and>
     (hdr_Type h = MEASURE \<longrightarrow> R (hdr_SocketId h)))"

definition wire :: "(u32 \<Rightarrow> bool) \<Rightarrow> ('e \<Rightarrow> u8 list set) \<Rightarrow> ('ca, 'e) kworld \<Rightarrow> bool" where
  "wire R tr w \<longleftrightarrow> (\<forall>p \<in> tr (kw_env w). kernel_msg R p)"

lemma kernel_msg_mono: "kernel_msg R p \<Longrightarrow> (\<And>s. R s \<Longrightarrow> R' s) \<Longrightarrow> kernel_msg R' p"
  unfolding kernel_msg_def by blast

lemma wire_mono: "wire R tr w \<Longrightarrow> (\<And>s. R s \<Longrightarrow> R' s) \<Longrightarrow> wire R' tr w"
  unfolding wire_def using kernel_msg_mono by blast

lemma wire_cong: "tr (kw_env w') \<subseteq> tr (kw_env w) \<Longrightarrow> wire R tr w \<Longrightarrow> wire R tr w'"
  unfolding wire_def by blast

lemma wire_clock:
  assumes "traced T N tr"
  shows "wire R tr w \<Longrightarrow> kw_now T tzero w = (t, w') \<Longrightarrow> wire R tr w'"
    and "wire R tr w \<Longrightarrow> kw_since T tzero b w = (t, w') \<Longrightarrow> wire R tr w'"
proof -
  have now: "tr e' = tr e" if "ktime_get_real_ts64 T e = (x, e')" for e x e'
    using assms that by (metis snd_conv traced_def)
  show "wire R tr w \<Longrightarrow> kw_now T tzero w = (t, w') \<Longrightarrow> wire R tr w'"
    "wire R tr w \<Longrightarrow> kw_since T tzero b w = (t, w') \<Longrightarrow> wire R tr w'"
    using now by (auto simp: wire_def kw_now_def kw_since_def spine_now_def spine_since_def Let_def split: prod.splits)
qed

lemma wire_send:
  assumes tr: "traced T N tr" and w: "wire R tr w" and send: "kw_send N msg n w = Inr (r, w')"
    and msg: "0 \<le> n \<Longrightarrow> kernel_msg R (take (nat n) msg)"
  shows "wire R tr w'"
proof -
  obtain ok e1 where new: "nlmsg_new N n (kw_env w) = (ok, e1)" by fastforce
  then have e1: "tr e1 = tr (kw_env w)" using tr by (metis snd_conv traced_def)
  show ?thesis
  proof (cases ok)
    case False
    with send new e1 w show ?thesis by (auto simp: kw_send_def nl_sendmsg_def rbind_eq_Inr wire_def)
  next
    case True
    with send new have n: "0 \<le> n" and m: "memcpy_from msg 0 (nat n) = Inr (take (nat n) msg)"
      by (auto simp: kw_send_def nl_sendmsg_def rbind_eq_Inr memcpy_from_def split: if_splits)
    obtain res e2 where mc: "nlmsg_multicast N (take (nat n) msg) e1 = (res, e2)" by fastforce
    then have "tr e2 \<subseteq> insert (take (nat n) msg) (tr e1)" using tr by (metis snd_conv traced_def)
    moreover have "kw_env w' = e2"
      using send new True n m mc by (auto simp: kw_send_def nl_sendmsg_def rbind_eq_Inr split: if_splits)
    ultimately show ?thesis using w e1 msg [OF n] by (auto simp: wire_def)
  qed
qed

section \<open>The three kinds of messages\<close>

lemma kernel_msg_create: "conn_wf i c \<Longrightarrow> kernel_msg R (create_packet c)"
proof -
  assume "conn_wf i c"
  then have "length (create_packet c) = 96"
    using create_codec.enc_len [OF create_msg_congAlg] by (simp add: create_packet_def)
  moreover have "unat (ucast (conn_index c) :: u32) < 65536"
    using unsigned_less [of "conn_index c"] by (simp add: unat_ucast_up)
  moreover have "SpineMsgHeader_from_raw (create_packet c) =
      Some \<lparr>hdr_Type = CREATE, hdr_Len = 96, hdr_SocketId = ucast (conn_index c)\<rparr>"
    by (simp add: create_packet_def from_raw_header)
  ultimately show ?thesis by (simp add: kernel_msg_def CREATE_def MEASURE_def)
qed

lemma kernel_msg_header:
  "hdr_Type h \<noteq> CREATE \<Longrightarrow> (hdr_Type h = MEASURE \<Longrightarrow> R (hdr_SocketId h)) \<Longrightarrow> kernel_msg R (header_bytes h @ body)"
  by (simp add: kernel_msg_def from_raw_header)

section \<open>Calls of the library\<close>

text \<open>A connection with a measurement request that waits for an answer.\<close>

definition asks :: "spine_connection \<Rightarrow> bool" where
  "asks c \<longleftrightarrow> (\<exists>st. conn_state c = PLive st \<and> measure_is_pending (pending_update st))"

definition asked_for :: "(u32 \<Rightarrow> bool) \<Rightarrow> 'w spine_datapath \<Rightarrow> bool" where
  "asked_for R dp \<longleftrightarrow> (\<forall>i < length (slots dp). asks (slots dp ! i) \<longrightarrow>
     conn_index (slots dp ! i) \<noteq> 0 \<and> R (ucast (conn_index (slots dp ! i))))"

lemma asked_for_mono: "asked_for R dp \<Longrightarrow> (\<And>s. R s \<Longrightarrow> R' s) \<Longrightarrow> asked_for R' dp"
  unfolding asked_for_def by blast

lemma asked_for_change:
  assumes "asked_for R dp" and "length (slots dp') = length (slots dp)"
    and "\<And>k. k < length (slots dp) \<Longrightarrow> k \<noteq> i \<Longrightarrow> slots dp' ! k = slots dp ! k"
    and "i < length (slots dp) \<Longrightarrow> asks (slots dp' ! i) \<Longrightarrow>
      conn_index (slots dp' ! i) \<noteq> 0 \<and> R (ucast (conn_index (slots dp' ! i)))"
  shows "asked_for R dp'"
  unfolding asked_for_def using assms by (metis asked_for_def)

lemma asked_for_touches:
  assumes "asked_for R dp" and "touches i dp dp'"
    and "asks (slots dp' ! i) \<Longrightarrow> conn_index (slots dp' ! i) \<noteq> 0 \<and> R (ucast (conn_index (slots dp' ! i)))"
  shows "asked_for R dp'"
proof (rule asked_for_change [OF assms(1) touches_callbacks(7) [OF assms(2)], of i])
  show "slots dp' ! k = slots dp ! k" if "k < length (slots dp)" "k \<noteq> i" for k
    using assms(2) that unfolding touches_def by blast
qed (use assms(3) in blast)

definition same_cc :: "'w spine_datapath \<Rightarrow> 'w spine_datapath \<Rightarrow> bool" where
  "same_cc dp dp' \<longleftrightarrow> dp_set_params dp' = dp_set_params dp \<and> dp_fetch_measurements dp' = dp_fetch_measurements dp"

lemma same_cc_touches: "touches i dp dp' \<Longrightarrow> same_cc dp dp'"
  by (simp add: same_cc_def touches_callbacks)

lemma asks_state: "conn_state c' = conn_state c \<Longrightarrow> asks c' = asks c"
  by (simp add: asks_def)

lemma timer_wire:
  assumes "traced T N tr" and "lib_inv T tzero N dp" and "wire R tr w" and "update_fto_timer dp w = Inr (dp', w')"
  shows "wire R tr w'"
proof -
  have now: "dp_now dp = Some (kw_now T tzero)" using lib_invD(3) [OF assms(2)] by (simp add: uses_env_def)
  obtain t w1 where clock: "kw_now T tzero w = (t, w1)" by force
  then have w1: "wire R tr w1" using wire_clock(1) [OF assms(1,3)] by blast
  have "w' = w \<or> w' = w1" using assms(4) now clock by (simp add: update_fto_timer_def split: if_splits)
  with w1 assms(3) show ?thesis by blast
qed

text \<open>Announcing.\<close>

lemma create_wire:
  fixes T :: "('e, 'ts) time_api" and dp :: "('ca, 'e) kworld spine_datapath"
  assumes tr: "traced T N tr" and inv: "lib_inv T tzero N dp" and w: "wire R tr w"
    and create: "send_conn_create dp i w = Inr (r, dp', w')"
  shows "wire R tr w'"
proof (cases "i < length (slots dp)")
  case False
  with create show ?thesis using conn_ref_oob [of dp i] by (auto simp: send_conn_create_def rbind_eq_Inr is_ok_iff)
next
  case True
  note D = lib_invD [OF inv]
  let ?c = "slots dp ! i"
  have cwf: "conn_wf i ?c" using D(1) True by (rule dp_wf_slot)
  have cb: "dp_now dp = Some (kw_now T tzero)" "dp_since_usecs dp = Some (kw_since T tzero)"
    "dp_send_msg dp = Some (kw_send N)" using D(3) by (simp_all add: uses_env_def)
  have msg: "write_create_msg (replicate CREATE_MSG_SIZE 0) (int CREATE_MSG_SIZE)
      (ucast (conn_index ?c)) (create_msg_of ?c) = Inr (96, create_packet ?c)"
    using write_create_msg_ok [of "replicate 96 0"] create_msg_congAlg [OF cwf]
    by (simp add: CREATE_MSG_SIZE_def create_packet_def)
  have len: "length (create_packet ?c) = 96"
    using create_codec.enc_len [OF create_msg_congAlg [OF cwf]] by (simp add: create_packet_def)
  obtain b w1 where pend: "create_pending dp ?c w = Inr (b, w1)"
    using create True by (auto simp: send_conn_create_def rbind_eq_Inr)
  obtain us w0 where since: "kw_since T tzero (last_create_msg_sent ?c) w = (us, w0)" by force
  then have "wire R tr w0" using wire_clock(2) [OF tr w] by blast
  moreover have "w1 = w \<or> w1 = w0" using pend since cb(2) by (simp add: create_pending_def split: if_splits)
  ultimately have w1: "wire R tr w1" using w by blast
  show ?thesis
  proof (cases "b \<or> conn_index ?c < 1")
    case True
    with create \<open>i < _\<close> pend w1 show ?thesis by (auto simp: send_conn_create_def split: if_splits)
  next
    case False
    obtain t w2 where now: "kw_now T tzero w1 = (t, w2)" by force
    then have w2: "wire R tr w2" using wire_clock(1) [OF tr w1] by blast
    let ?dp1 = "dp\<lparr>dp_connections := Some ((slots dp)[i := ?c\<lparr>last_create_msg_sent := t\<rparr>])\<rparr>"
    obtain ret w3 where send: "kw_send N (create_packet ?c) 96 w2 = Inr (ret, w3)"
      and rest: "(if ret \<noteq> 0 then rbind (update_fto_timer ?dp1 w3) (\<lambda>(dp2, w4). Inr (ret, dp2, w4))
        else Inr (ret, ?dp1, w3)) = Inr (r, dp', w')"
      using create True False pend now msg cb by (auto simp: send_conn_create_def rbind_eq_Inr)
    have w3: "wire R tr w3"
      using wire_send [OF tr w2 send] kernel_msg_create [OF cwf] len by simp
    have "conn_wf i (?c\<lparr>last_create_msg_sent := t\<rparr>)" using cwf by (simp add: conn_wf_def)
    from lib_inv_put [OF inv True this] have "lib_inv T tzero N ?dp1" .
    with rest w3 timer_wire [OF tr _ w3] show ?thesis by (auto simp: rbind_eq_Inr split: if_splits)
  qed
qed

text \<open>Opening a connection.\<close>

lemma pending_zero [simp]:
  "pending_update zero_priv_state = zero_update" "pending_update (zero_priv_state\<lparr>sent_create := b\<rparr>) = zero_update"
  by (simp_all add: zero_priv_state_def)

lemma not_asks_zero: "conn_state c = PLive st \<Longrightarrow> pending_update st = zero_update \<Longrightarrow> \<not> asks c"
  by (simp add: asks_def zero_update_def)

lemma start_wire:
  fixes T :: "('e, 'ts) time_api" and dp :: "('ca, 'e) kworld spine_datapath"
  assumes tr: "traced T N tr" and inv: "lib_inv T tzero N dp" and w: "wire R tr w" and asked: "asked_for R dp"
    and calloc: "\<And>w. tr (kw_env (snd (kcalloc w))) = tr (kw_env w)"
    and info: "length (fi_congAlg info) = MAX_CONG_ALG_SIZE"
    and start: "spine_connection_start kcalloc dp impl info w = Inr (r, dp', w')"
  shows "wire R tr w' \<and> asked_for R dp' \<and> same_cc dp dp'"
proof (cases "first_free (slots dp) 0")
  case None
  with start start_full [OF lib_invD(1,2) [OF inv] None, of kcalloc impl info w] w asked show ?thesis
    by (simp add: same_cc_def)
next
  case (Some j)
  note D = lib_invD [OF inv]
  have j: "j < length (slots dp)" and zero: "conn_index (slots dp ! j) = 0"
    using first_free_Some [OF Some] by (simp_all add: slot_free_def)
  have quiet: "\<not> asks (slots dp ! j)" using asked j zero by (auto simp: asked_for_def)
  have put: "asked_for R (dp\<lparr>dp_connections := Some ((slots dp)[j := c])\<rparr>)" if "\<not> asks c" for c
    using asked_for_change [OF asked, of "dp\<lparr>dp_connections := Some ((slots dp)[j := c])\<rparr>" j] that j by simp
  obtain ok w1 where alloc: "kcalloc w = (ok, w1)" by force
  then have w1: "wire R tr w1" using calloc [of w] w by (auto intro: wire_cong)
  consider "Suc j = length (slots dp)" | "Suc j < length (slots dp)" "\<not> ok" | "Suc j < length (slots dp)" "ok"
    using j by linarith
  then show ?thesis
  proof cases
    case 1
    have "\<not> asks ((slots dp ! j)\<lparr>conn_index := word_of_nat (Suc j)\<rparr>)" using quiet by (simp add: asks_def)
    from put [OF this] start start_last_slot [OF D(1,2) Some 1, of kcalloc impl info w] w show ?thesis
      by (auto simp: claimed_def same_cc_def)
  next
    case 2
    have "\<not> asks ((slots dp ! j)\<lparr>conn_index := word_of_nat (Suc j), conn_impl := impl, flow_info := info, conn_state := PNull\<rparr>)"
      by (simp add: asks_def)
    from put [OF this] start start_alloc_failure [OF D(1,2) Some 2(1), of kcalloc w w1 impl info] alloc 2(2) w1
    show ?thesis by (auto simp: same_cc_def)
  next
    case 3
    let ?c = "fresh_conn (slots dp ! j) j impl info"
    let ?dp3 = "dp\<lparr>dp_connections := Some ((slots dp)[j := ?c])\<rparr>"
    have small: "Suc j \<le> 65535" using j D(1,2) by (simp add: dp_wf_def)
    have inv3: "lib_inv T tzero N ?dp3" using lib_inv_put [OF inv j] conn_wf_fresh [OF small info] by blast
    have "kcalloc w = (True, w1)" using alloc 3(2) by simp
    from start start_claimed [where kcalloc = kcalloc and w = w and impl = impl and info = info, OF D(1,2) Some 3(1) this] obtain ret dp4 w2 where
      create: "send_conn_create ?dp3 j w1 = Inr (ret, dp4, w2)" and
      rest: "(if ret < 0 then Inr (Some j, dp4, w2)
        else rbind (spine_conn_create_success dp4 j) (\<lambda>dp5. Inr (Some j, dp5, w2))) = Inr (r, dp', w')"
      by (auto simp: rbind_eq_Inr Let_def)
    have w2: "wire R tr w2" using create_wire [OF tr inv3 w1 create] .
    have j3: "j < length (slots ?dp3)" using j by simp
    have tr4: "touches j ?dp3 dp4" and st4: "conn_state (slots dp4 ! j) = PLive zero_priv_state"
      using kernel_env.send_conn_create_ok [where P = "\<lambda>_. True", OF lib_invD(3) [OF inv3] TrueI lib_invD(1) [OF inv3] j3, of w1]
        create j by (auto simp: fresh_conn_def)
    have "\<not> asks ?c" by (rule not_asks_zero [where st = zero_priv_state]) (simp_all add: fresh_conn_def)
    then have "asked_for R ?dp3" by (rule put)
    moreover have "\<not> asks (slots dp4 ! j)" using st4 by (rule not_asks_zero) simp
    ultimately have asked4: "asked_for R dp4" using asked_for_touches [OF _ tr4] by blast
    have cc4: "same_cc dp dp4" using same_cc_touches [OF tr4] by (simp add: same_cc_def)
    show ?thesis
    proof (cases "ret < 0")
      case True
      with rest w2 asked4 cc4 show ?thesis by simp
    next
      case False
      have j4: "j < length (slots dp4)" using tr4 j by (simp add: touches_def)
      let ?c5 = "(slots dp4 ! j)\<lparr>conn_state := PLive (zero_priv_state\<lparr>sent_create := True\<rparr>)\<rparr>"
      have "\<not> asks ?c5" by (rule not_asks_zero [where st = "zero_priv_state\<lparr>sent_create := True\<rparr>"]) simp_all
      then have "asked_for R (dp4\<lparr>dp_connections := Some ((slots dp4)[j := ?c5])\<rparr>)"
        using j4 by (intro asked_for_change [OF asked4, of _ j]) simp_all
      moreover have "dp' = dp4\<lparr>dp_connections := Some ((slots dp4)[j := ?c5])\<rparr>" "w' = w2"
        using rest False st4 j4 by (simp_all add: spine_conn_create_success_def get_spine_priv_state_def)
      ultimately show ?thesis using w2 cc4 by (simp add: same_cc_def)
    qed
  qed
qed

text \<open>Closing one.\<close>

lemma free_wire:
  fixes T :: "('e, 'ts) time_api" and dp :: "('ca, 'e) kworld spine_datapath"
  assumes tr: "traced T N tr" and inv: "lib_inv T tzero N dp" and w: "wire R tr w" and asked: "asked_for R dp"
    and free: "spine_connection_free dp sid w = Inr (dp', w')"
  shows "wire R tr w' \<and> asked_for R dp' \<and> same_cc dp dp'"
proof (cases rule: lookup_cases [OF lib_invD(1,2) [OF inv], of sid])
  case 1
  with free free_unknown [OF lib_invD(1,2) [OF inv] 1, of w] w asked show ?thesis by (simp add: same_cc_def)
next
  case (2 i)
  note D = lib_invD [OF inv]
  obtain s where s: "\<forall>st. s \<noteq> PLive st" and
    dp': "dp' = dp\<lparr>dp_connections := Some ((slots dp)[i := (slots dp ! i)\<lparr>conn_state := s, conn_index := 0\<rparr>])\<rparr>"
    using free_known [OF D(1,2) 2(2-4) free] by blast
  have "\<not> asks ((slots dp ! i)\<lparr>conn_state := s, conn_index := 0\<rparr>)" using s by (simp add: asks_def)
  then have "asked_for R dp'" unfolding dp' using 2(2) by (intro asked_for_change [OF asked, of _ i]) simp_all
  moreover have "wire R tr w'"
  proof -
    have "unat sid = Suc i" using dp_wf_slot [OF D(1) 2(2)] 2(3,4) by (auto simp: conn_wf_def)
    then have pos: "unat (sid - 1) = i" using 2(4) by (simp add: unat_minus_one)
    have "length (slots dp) = unat (dp_max_connections dp)" using D(1) by (simp add: dp_wf_def)
    with \<open>unat sid = Suc i\<close> 2(2) have inr: "\<not> ucast sid > dp_max_connections dp"
      by (simp add: word_less_nat_alt unat_ucast_up)
    have cb: "dp_send_msg dp = Some (kw_send N)" using D(3) by (simp add: uses_env_def)
    let ?msg = "header_bytes \<lparr>hdr_Type = RELEASE, hdr_Len = 12, hdr_SocketId = 0\<rparr> @ to_le 4 (ucast sid :: u32) @ replicate 888 0"
    have msg: "write_release_msg (replicate REPORT_MSG_SIZE 0) (int RELEASE_MSG_SIZE) (ucast sid) = Inr (12, ?msg)"
      using write_release_msg_ok [of "replicate 900 0" "ucast sid"]
      by (simp add: REPORT_MSG_SIZE_def RELEASE_MSG_SIZE_def del: to_le.simps)
    obtain r where send: "kw_send N ?msg 12 w = Inr (r, w')"
      using free 2 pos inr msg cb
      by (cases "conn_state (slots dp ! i)")
        (auto simp: spine_connection_free_def free_spine_priv_state_def get_spine_priv_state_def Let_def rbind_eq_Inr
          simp del: to_le.simps)
    have "take (nat 12) ?msg = header_bytes \<lparr>hdr_Type = RELEASE, hdr_Len = 12, hdr_SocketId = 0\<rparr> @ to_le 4 (ucast sid :: u32)"
      by (simp del: to_le.simps)
    moreover have "kernel_msg R (header_bytes \<lparr>hdr_Type = RELEASE, hdr_Len = 12, hdr_SocketId = 0\<rparr> @ to_le 4 (ucast sid :: u32))"
      by (rule kernel_msg_header) (simp_all add: RELEASE_def CREATE_def MEASURE_def)
    ultimately show ?thesis using wire_send [OF tr w send] by (simp only:)
  qed
  ultimately show ?thesis using dp' by (simp add: same_cc_def)
qed

text \<open>Invocation: an answered request is one that was asked for.\<close>

definition quiet_callbacks :: "('e \<Rightarrow> u8 list set) \<Rightarrow> ('ca, 'e) kworld spine_datapath \<Rightarrow> bool" where
  "quiet_callbacks tr dp \<longleftrightarrow>
     (\<forall>setp c ps n w w'. dp_set_params dp = Some setp \<longrightarrow> setp c ps n w = Inr w' \<longrightarrow>
        tr (kw_env w') = tr (kw_env w)) \<and>
     (\<forall>fetch c ms k q w ms' n w'. dp_fetch_measurements dp = Some fetch \<longrightarrow> fetch c ms k q w = Inr (ms', n, w') \<longrightarrow>
        tr (kw_env w') = tr (kw_env w))"

lemma send_measurement_wire:
  fixes T :: "('e, 'ts) time_api" and dp :: "('ca, 'e) kworld spine_datapath"
  assumes tr: "traced T N tr" and inv: "lib_inv T tzero N dp" and w: "wire R tr w"
    and i: "i < length (slots dp)" and R: "R (ucast (conn_index (slots dp ! i)))"
    and send: "send_measurement dp i req vals n w = Inr (r, dp', w')"
  shows "wire R tr w'"
proof (cases "conn_index (slots dp ! i) < 1")
  case True
  with send i w show ?thesis by (simp add: send_measurement_def)
next
  case False
  let ?sid = "ucast (conn_index (slots dp ! i)) :: u32"
  obtain sz msg where msg: "write_measure_msg (replicate REPORT_MSG_SIZE 0) (int REPORT_MSG_SIZE) ?sid req (Some vals) n = Inr (sz, msg)"
    using send i False by (auto simp: send_measurement_def rbind_eq_Inr)
  then have n: "unat n \<le> length vals \<and> unat n \<le> 110"
    by (auto simp: write_measure_msg_def measure_struct_def MAX_REPORT_REG_def Let_def split: if_splits)
  let ?h = "\<lparr>hdr_Type = MEASURE, hdr_Len = word_of_nat (16 + unat n * 8), hdr_SocketId = ?sid\<rparr>"
  define body where "body = to_le 4 req @ to_le 4 (ucast n :: u32) @ concat (map (to_le 8) (take (unat n) vals)) @
    drop (16 + unat n * 8) (replicate 900 0)"
  have "write_measure_msg (replicate REPORT_MSG_SIZE 0) (int REPORT_MSG_SIZE) ?sid req (Some vals) n =
      Inr (16 + int (unat n) * 8, header_bytes ?h @ body)"
    using n write_measure_msg_ok [of n vals "replicate 900 0" ?sid req]
    unfolding body_def by (simp add: REPORT_MSG_SIZE_def del: to_le.simps)
  then have body: "msg = header_bytes ?h @ body" and sz: "sz = 16 + int (unat n) * 8"
    unfolding msg by (simp_all only: sum.inject prod.inject)
  have "8 \<le> nat sz" unfolding sz by linarith
  then have "take (nat sz) msg = header_bytes ?h @ take (nat sz - 8) body" using body by simp
  moreover have "kernel_msg R (header_bytes ?h @ take (nat sz - 8) body)"
    by (rule kernel_msg_header) (simp_all add: R MEASURE_def CREATE_def)
  ultimately have k: "kernel_msg R (take (nat sz) msg)" by (simp only:)
  have "dp_send_msg dp = Some (kw_send N)" using lib_invD(3) [OF inv] by (simp add: uses_env_def)
  with send i False msg obtain ret w1 where sent: "kw_send N msg sz w = Inr (ret, w1)" and
    rest: "(if ret \<noteq> 0 then rbind (update_fto_timer dp w1) (\<lambda>(dp1, w2). Inr (ret, dp1, w2)) else Inr (ret, dp, w1)) = Inr (r, dp', w')"
    by (auto simp: send_measurement_def rbind_eq_Inr)
  have "wire R tr w1" using wire_send [OF tr w sent k] .
  with rest timer_wire [OF tr inv] show ?thesis by (auto simp: rbind_eq_Inr split: if_splits)
qed

lemma answer_wire:
  fixes T :: "('e, 'ts) time_api" and dp :: "('ca, 'e) kworld spine_datapath"
  assumes tr: "traced T N tr" and inv: "lib_inv T tzero N dp" and w: "wire R tr w" and cb: "quiet_callbacks tr dp"
    and i: "i < length (slots dp)" and R: "measure_is_pending up \<Longrightarrow> R (ucast (conn_index (slots dp ! i)))"
    and ans: "answer_measure_request dp i c up w = Inr (r, dp', w')"
  shows "wire R tr w'"
proof (cases "measure_is_pending up \<and> dp_fetch_measurements dp \<noteq> None")
  case False
  with ans w show ?thesis by (auto simp: answer_measure_request_def Let_def split: option.splits if_splits)
next
  case True
  then obtain fetch where f: "dp_fetch_measurements dp = Some fetch" by blast
  with ans True obtain ms n w1 where fetch: "fetch c (replicate MAX_MEASUREMENT_FIELDS 0) 0 (ucast (measure_registers up)) w = Inr (ms, n, w1)"
    and rest: "w' = w1 \<or> send_measurement dp i (ucast (measure_registers up)) ms n w1 = Inr (r, dp', w')"
    by (auto simp: answer_measure_request_def Let_def rbind_eq_Inr split: if_splits)
  have "tr (kw_env w1) = tr (kw_env w)" using cb f fetch unfolding quiet_callbacks_def by blast
  then have w1: "wire R tr w1" using w by (auto intro: wire_cong)
  from rest show ?thesis
  proof
    assume "send_measurement dp i (ucast (measure_registers up)) ms n w1 = Inr (r, dp', w')"
    with send_measurement_wire [OF tr inv w1 i] R True show ?thesis by blast
  qed (use w1 in simp)
qed

lemma invoke_wire:
  fixes T :: "('e, 'ts) time_api" and dp :: "('ca, 'e) kworld spine_datapath"
  assumes tr: "traced T N tr" and inv: "lib_inv T tzero N dp" and w: "wire R tr w" and asked: "asked_for R dp"
    and cb: "quiet_callbacks tr dp" and run: "spine_invoke dp (Some i) w = Inr (ret, dp', w')"
  shows "wire R tr w' \<and> asked_for R dp' \<and> same_cc dp dp'"
proof -
  note D = lib_invD [OF inv]
  have i: "i < length (slots dp)"
    using run conn_ref_oob [of dp i] by (force simp: spine_invoke_def rbind_eq_Inr is_ok_iff)
  show ?thesis
  proof (cases "conn_state (slots dp ! i)")
    case PNull
    with run i w asked show ?thesis by (auto simp: same_cc_def spine_invoke_def get_spine_priv_state_def split: if_splits)
  next
    case PFreed
    with run i show ?thesis by (simp add: spine_invoke_def get_spine_priv_state_def)
  next
    case (PLive st)
    show ?thesis
    proof (cases "sent_create st")
      case False
      with run i PLive obtain r dp1 w1 where create: "send_conn_create dp i w = Inr (r, dp1, w1)" and
        rest: "(if r < 0 then Inr (SPINE_OK, dp1, w1)
          else rbind (spine_conn_create_success dp1 i) (\<lambda>dp2. Inr (SPINE_OK, dp2, w1))) = Inr (ret, dp', w')"
        by (auto simp: spine_invoke_def get_spine_priv_state_def rbind_eq_Inr split: if_splits)
      have w1: "wire R tr w1" using create_wire [OF tr inv w create] .
      have tr1: "touches i dp dp1" and st1: "conn_state (slots dp1 ! i) = PLive st"
        using kernel_env.send_conn_create_ok [where P = "\<lambda>_. True", OF D(3) TrueI D(1) i, of w] create PLive by auto
      have idx: "conn_index (slots dp1 ! i) = conn_index (slots dp ! i)"
        using tr1 i by (simp add: touches_def same_flow_def)
      have same: "asks (slots dp ! i) \<Longrightarrow> conn_index (slots dp ! i) \<noteq> 0 \<and> R (ucast (conn_index (slots dp ! i)))"
        using asked i by (simp add: asked_for_def)
      have asked1: "asked_for R dp1"
        using same asks_state [of "slots dp1 ! i" "slots dp ! i"] st1 PLive idx by (intro asked_for_touches [OF asked tr1]) simp
      show ?thesis
      proof (cases "r < 0")
        case True
        with rest w1 asked1 same_cc_touches [OF tr1] show ?thesis by simp
      next
        case False
        have i1: "i < length (slots dp1)" using i touches_callbacks(7) [OF tr1] by simp
        let ?c = "(slots dp1 ! i)\<lparr>conn_state := PLive (st\<lparr>sent_create := True\<rparr>)\<rparr>"
        have dp': "dp' = dp1\<lparr>dp_connections := Some ((slots dp1)[i := ?c])\<rparr>" and w': "w' = w1"
          using rest False st1 i1 by (simp_all add: spine_conn_create_success_def get_spine_priv_state_def)
        have "asks ?c = asks (slots dp ! i)" using PLive by (simp add: asks_def)
        then have "asked_for R dp'" unfolding dp'
          using same idx i1 by (intro asked_for_change [OF asked1, of _ i]) simp_all
        moreover have "same_cc dp dp'" using same_cc_touches [OF tr1] dp' by (simp add: same_cc_def)
        ultimately show ?thesis using w1 w' by simp
      qed
    next
      case True
      with run i PLive obtain w1 r dp1 w2 where
        enf: "enforce_params dp (slots dp ! i) (collect_params (control_is_pending (pending_update st))
          (control_registers (pending_update st))) w = Inr w1" and
        ans: "answer_measure_request dp i (slots dp ! i) (pending_update st) w1 = Inr (r, dp1, w2)"
        and put: "put_pending dp1 i zero_update = Inr dp'" and w': "w' = w2"
        by (auto simp: spine_invoke_def get_spine_priv_state_def Let_def rbind_eq_Inr split: if_splits)
      have "tr (kw_env w1) = tr (kw_env w)"
        using enf cb by (auto simp: enforce_params_def quiet_callbacks_def split: option.splits if_splits)
      then have w1: "wire R tr w1" using w by (auto intro: wire_cong)
      have "measure_is_pending (pending_update st) \<Longrightarrow> R (ucast (conn_index (slots dp ! i)))"
        using asked i PLive by (auto simp: asked_for_def asks_def)
      then have w2: "wire R tr w2" using answer_wire [OF tr inv w1 cb i _ ans] by blast
      obtain t where dp1: "dp1 = dp\<lparr>dp_last_msg_sent := t\<rparr>" using answer_frame [OF ans] by blast
      then have live: "live_slot dp1 i" and dp': "dp' = with_pending dp1 i zero_update"
        using put_pending_Inr [OF put] i by simp_all
      have "asked_for R dp1" using asked dp1 by (simp add: asked_for_def)
      moreover have "\<not> asks (slots dp' ! i)"
        using live i dp1 dp' by (auto simp: live_slot_def with_pending_def asks_def zero_update_def)
      ultimately have "asked_for R dp'"
        using asked_for_touches [OF _ touches_with_pending [OF live, of zero_update]] dp' by blast
      moreover have "same_cc dp dp'"
        using same_cc_touches [OF touches_with_pending [OF live, of zero_update]] dp1 dp' by (simp add: same_cc_def)
      ultimately show ?thesis using w2 w' by simp
    qed
  qed
qed

text \<open>Reception: only a measurement request makes its connection one that asks.\<close>

lemma stage_update_measure: "stage_update up msg = Inr (r, up') \<Longrightarrow> measure_is_pending up' = measure_is_pending up"
  by (auto simp: stage_update_def rbind_eq_Inr Let_def split: if_splits)

lemma stage_multiple_updates_measure:
  "stage_multiple_updates up n msg = Inr (r, up') \<Longrightarrow> measure_is_pending up' = measure_is_pending up"
  by (induction up n msg rule: stage_multiple_updates.induct)
    (auto simp: rbind_eq_Inr stage_update_measure split: if_splits)

lemma asked_for_pending:
  assumes "asked_for R dp" and "put_pending dp i up = Inr dp'" and "i < length (slots dp)"
    and "measure_is_pending up \<Longrightarrow> conn_index (slots dp ! i) \<noteq> 0 \<and> R (ucast (conn_index (slots dp ! i)))"
  shows "asked_for R dp'"
proof -
  have live: "live_slot dp i" and dp': "dp' = with_pending dp i up" using put_pending_Inr [OF assms(2,3)] by simp_all
  have "asks (slots dp' ! i) = measure_is_pending up" and "conn_index (slots dp' ! i) = conn_index (slots dp ! i)"
    using live assms(3) unfolding dp' by (auto simp: live_slot_def with_pending_def asks_def)
  then show ?thesis
    using asked_for_touches [OF assms(1) touches_with_pending [OF live, of up]] assms(4) dp' by simp
qed

lemma read_asked:
  assumes inv: "lib_inv T tzero N dp" and asked: "asked_for R dp" and read: "spine_read_msg cs dp buf n = Inr (ret, dp')"
    and R: "hdr_Type (header_of_bytes (take 8 buf)) = MEASURE \<Longrightarrow>
      R (ucast (ucast (hdr_SocketId (header_of_bytes (take 8 buf))) :: u16))"
  shows "asked_for R dp' \<and> same_cc dp dp'"
proof -
  let ?h = "header_of_bytes (take 8 buf)" and ?off = "turn_off_fto_timer dp"
  let ?sid = "ucast (hdr_SocketId ?h) :: u16"
  have off: "asked_for R ?off" using asked by (simp add: asked_for_def)
  have ccoff: "same_cc dp ?off" by (simp add: same_cc_def turn_off_fto_timer_def)
  have ccput: "same_cc dp dp'" if "put_pending ?off i up = Inr dp'" "i < length (slots ?off)" for i up
  proof -
    have "live_slot ?off i" and dp': "dp' = with_pending ?off i up" using put_pending_Inr [OF that] by simp_all
    from same_cc_touches [OF touches_with_pending [OF this(1), of up]] ccoff show ?thesis by (simp add: dp' same_cc_def)
  qed
  have found: "spine_connection_lookup ?off sid = Inr (Some i) \<Longrightarrow> i < length (slots ?off) \<and>
      conn_index (slots ?off ! i) = sid \<and> sid \<noteq> 0" for sid i
    using lookup_cases [of ?off sid] lib_invD(1,2) [OF inv] by (auto simp del: turn_off_frame simp: turn_off_frame(2,3))
  from read obtain r where hdr: "read_header buf = Inr (r, ?h)"
    by (auto simp: spine_read_msg_def rbind_eq_Inr read_header_def memcpy_from_def sizeof_header_def Let_def split: if_splits)
  then consider "dp' = dp \<or> dp' = ?off"
    | i where "spine_connection_lookup ?off ?sid = Inr (Some i)" "read_update_fields cs ?off i ?h (drop (nat r) buf) = Inr (ret, dp')"
    | i where "spine_connection_lookup ?off ?sid = Inr (Some i)" "hdr_Type ?h = MEASURE"
        "read_measure_request cs ?off i ?h (drop (nat r) buf) = Inr (ret, dp')"
    using read by (auto simp: spine_read_msg_def rbind_eq_Inr Let_def split: if_splits option.splits)
  then show ?thesis
  proof cases
    case 1
    then show ?thesis using asked off ccoff by (auto simp: same_cc_def)
  next
    case (2 i)
    with found have i: "i < length (slots ?off)" by blast
    from 2(2) i have "dp' = ?off \<or> (\<exists>st up. conn_state (slots ?off ! i) = PLive st \<and> put_pending ?off i up = Inr dp' \<and>
        measure_is_pending up = measure_is_pending (pending_update st))"
      by (auto simp: read_update_fields_def rbind_eq_Inr get_spine_priv_state_def split: if_splits
          dest!: stage_multiple_updates_measure)
    then show ?thesis
    proof (elim disjE exE conjE)
      fix st up assume st: "conn_state (slots ?off ! i) = PLive st" "put_pending ?off i up = Inr dp'"
        and m: "measure_is_pending up = measure_is_pending (pending_update st)"
      have "asks (slots ?off ! i)" if "measure_is_pending up" using that m st(1) by (simp add: asks_def)
      then show ?thesis using asked_for_pending [OF off st(2) i] ccput [OF st(2) i] off i unfolding asked_for_def by blast
    qed (use off ccoff in simp)
  next
    case (3 i)
    with found have i: "i < length (slots ?off)" "conn_index (slots ?off ! i) = ?sid" "?sid \<noteq> 0" by blast+
    from 3(3) i(1) have "dp' = ?off \<or> (\<exists>up. put_pending ?off i up = Inr dp')"
      by (auto simp: read_measure_request_def rbind_eq_Inr Let_def case_prod_beta split: if_splits)
    then show ?thesis using off ccoff ccput [OF _ i(1)] asked_for_pending [OF off _ i(1)] i(2,3) R [OF 3(2)] by auto
  qed
qed

end
