(* ===== verification/Neo.thy ===== *)
theory Neo
  imports Netlink
begin

text \<open>
  tcp_neo.c: the rate-based module. A flow keeps a ring of 20 monitor intervals; one slot is
  being filled by what is sent, an older one is being completed by what is acknowledged. User
  space moves the rate up or down and reads the two last completed intervals. Each function of
  the source is a definition on the TCP state and the module's private area; the handlers that
  call the library also take the datapath and the world.
\<close>

section \<open>Constants and state\<close>

definition NEO_SCALE :: u64 where [c_consts]: "NEO_SCALE = 1000"
definition CWND_GAIN :: u64 where [c_consts]: "CWND_GAIN = 1200"
definition NEO_ACTION_INCREASE :: u64 where [c_consts]: "NEO_ACTION_INCREASE = 1025"
definition NEO_ACTION_DECREASE :: u64 where [c_consts]: "NEO_ACTION_DECREASE = 976"
definition NEO_PARAM_NUM :: u8 where [c_consts]: "NEO_PARAM_NUM = 1"
definition NEO_IGNORE_PACKETS :: u32 where [c_consts]: "NEO_IGNORE_PACKETS = 1"
definition NEO_INTERVALS :: nat where [c_consts]: "NEO_INTERVALS = 20"
definition MONITOR_INTERVAL :: u64 where [c_consts]: "MONITOR_INTERVAL = 30000"
definition NEO_RATE_MIN :: u64 where [c_consts]: "NEO_RATE_MIN = 4096"

record neo_interval =
  ni_rate :: u64
  recv_start :: u64
  recv_end :: u64
  send_start :: u64
  send_end :: u64
  start_rtt :: u64
  end_rtt :: u64
  packets_sent_base :: u32
  packets_ended :: u32
  ni_lost :: u32
  ni_delivered :: u32

record neo_data =
  neo_cnt :: s32
  neo_in_recovery :: bool
  neo_r_cwnd :: u32
  neo_slow_start_passed :: u8
  intervals :: "neo_interval list kptr"
  send_index :: u32
  receive_index :: u32
  neo_rate :: u64
  ready_rate :: u64
  lost_base :: u32
  delivered_base :: u32
  packets_counted :: u32
  neo_prev_ca_state :: tcp_ca_state
  neo_prior_cwnd :: u32
  first_circle :: bool
  neo_id :: s32
  neo_conn :: "nat option"
  double_counted :: u32

definition zero_interval :: neo_interval where
  "zero_interval = \<lparr>ni_rate = 0, recv_start = 0, recv_end = 0, send_start = 0, send_end = 0,
     start_rtt = 0, end_rtt = 0, packets_sent_base = 0, packets_ended = 0, ni_lost = 0,
     ni_delivered = 0\<rparr>"

text \<open>The two indices are C ints that only ever hold what \<open>get_next_index\<close> returns.\<close>

definition get_next_index :: "u32 \<Rightarrow> u32" where
  "get_next_index idx = (if idx < word_of_nat NEO_INTERVALS - 1 then idx + 1 else 0)"

definition get_previous_index :: "u32 \<Rightarrow> u32" where
  "get_previous_index idx = (if idx > 0 then idx - 1 else word_of_nat NEO_INTERVALS - 1)"

definition interval_ref :: "neo_data \<Rightarrow> u32 \<Rightarrow> neo_interval res" where
  "interval_ref neo idx = rbind (kptr_deref (intervals neo)) (\<lambda>ivs. array_get ivs (unat idx))"

definition interval_put :: "neo_data \<Rightarrow> u32 \<Rightarrow> neo_interval \<Rightarrow> neo_data res" where
  "interval_put neo idx iv = rbind (kptr_deref (intervals neo)) (\<lambda>ivs.
     rbind (array_set ivs (unat idx) iv) (\<lambda>ivs'. Inr (neo\<lparr>intervals := KLive ivs'\<rparr>)))"

section \<open>Rates and windows\<close>

definition neo_get_rtt :: "tcp_sock \<Rightarrow> u32" where
  "neo_get_rtt tp = (if srtt_us tp \<noteq> 0 then max (drop_bit 3 (srtt_us tp)) 1 else USEC_PER_MSEC)"

definition neo_new_rate :: "tcp_sock \<Rightarrow> neo_data \<Rightarrow> u64" where
  "neo_new_rate tp neo = min (max (ready_rate neo) NEO_RATE_MIN) (sk_max_pacing_rate tp)"

definition neo_calculate_and_set_rate ::
  "tcp_sock \<Rightarrow> neo_data \<Rightarrow> neo_interval \<Rightarrow> tcp_sock \<times> neo_data \<times> neo_interval" where
  "neo_calculate_and_set_rate tp neo interval =
     (let new_rate = neo_new_rate tp neo in
      (tp\<lparr>sk_pacing_rate := new_rate\<rparr>, neo\<lparr>neo_rate := new_rate, ready_rate := new_rate\<rparr>,
       interval\<lparr>ni_rate := new_rate\<rparr>))"

definition neo_update_pacing_rate :: "tcp_api \<Rightarrow> tcp_sock \<Rightarrow> tcp_sock res" where
  "neo_update_pacing_rate K sk =
     (let tp = need_pacing sk;
          rate0 = scast (tcp_mss_to_mtu K tp (mss_cache tp)) * USEC_PER_SEC *
                  ucast (max (snd_cwnd tp) (packets_out tp));
          rate1 = drop_bit 1 rate0; rtt = drop_bit 3 (srtt_us tp) in
      rbind (if rtt \<noteq> 0 then do_div rate1 rtt else Inr rate1) (\<lambda>rate.
        Inr (tp\<lparr>sk_pacing_rate := min rate (sk_max_pacing_rate tp)\<rparr>)))"

definition neo_set_cwnd :: "tcp_sock \<Rightarrow> tcp_sock res" where
  "neo_set_cwnd tp =
     (let cwnd0 = sk_pacing_rate tp * ucast (neo_get_rtt tp) in
      rbind (u64_div cwnd0 (ucast (mss_cache tp))) (\<lambda>cwnd1.
        let cwnd2 = max 4 (cwnd1 div USEC_PER_SEC * CWND_GAIN div NEO_SCALE);
            cwnd = min (ucast cwnd2 :: u32) (snd_cwnd_clamp tp) in
        Inr (tp\<lparr>snd_cwnd := cwnd\<rparr>)))"

section \<open>Monitor intervals\<close>

definition neo_valid :: "neo_data \<Rightarrow> bool" where
  "neo_valid neo \<longleftrightarrow> intervals neo \<noteq> KNull"

definition start_interval :: "tcp_sock \<Rightarrow> neo_data \<Rightarrow> (tcp_sock \<times> neo_data) res" where
  "start_interval tp neo =
     rbind (interval_ref neo (send_index neo)) (\<lambda>iv0.
       let iv = iv0\<lparr>packets_ended := 0, ni_lost := 0, ni_delivered := 0,
                     packets_sent_base := max (data_segs_out tp) 1, send_start := tcp_mstamp tp\<rparr>;
           (tp1, neo1, iv1) = neo_calculate_and_set_rate tp neo iv in
       rbind (interval_put neo1 (send_index neo1) iv1) (\<lambda>neo2.
         rbind (neo_set_cwnd tp1) (\<lambda>tp2. Inr (tp2, neo2))))"

definition send_interval_ended :: "neo_interval \<Rightarrow> tcp_sock \<Rightarrow> bool \<times> neo_interval" where
  "send_interval_ended iv tp =
     (if tcp_mstamp tp - send_start iv \<ge> MONITOR_INTERVAL
      then (True, iv\<lparr>packets_ended := data_segs_out tp\<rparr>) else (False, iv))"

definition receive_interval_ended :: "neo_interval \<Rightarrow> neo_data \<Rightarrow> bool" where
  "receive_interval_ended iv neo \<longleftrightarrow> packets_ended iv \<noteq> 0 \<and>
     packets_ended iv - NEO_IGNORE_PACKETS < packets_counted neo"

definition start_next_send_interval :: "tcp_sock \<Rightarrow> neo_data \<Rightarrow> (tcp_sock \<times> neo_data) res" where
  "start_next_send_interval tp neo =
     (let neo1 = neo\<lparr>send_index := get_next_index (send_index neo)\<rparr> in
      if send_index neo1 = receive_index neo1 then Inr (tp, neo1) else start_interval tp neo1)"

definition neo_update_interval :: "neo_interval \<Rightarrow> neo_data \<Rightarrow> tcp_sock \<Rightarrow> neo_interval" where
  "neo_update_interval iv neo tp = iv\<lparr>recv_end := tcp_mstamp tp,
     end_rtt := ucast (drop_bit 3 (srtt_us tp)),
     ni_lost := ni_lost iv + (tp_lost tp - lost_base neo),
     ni_delivered := ni_delivered iv + (tp_delivered tp - delivered_base neo)\<rparr>"

text \<open>The two halves of \<open>neo_process\<close>: the interval being sent, then the one being received.\<close>

definition neo_process_send :: "tcp_sock \<Rightarrow> neo_data \<Rightarrow> (tcp_sock \<times> neo_data) res" where
  "neo_process_send tp neo =
     rbind (interval_ref neo (send_index neo)) (\<lambda>iv.
       let (ended, iv1) = send_interval_ended iv tp in
       if ended then
         rbind (interval_put neo (send_index neo) (iv1\<lparr>send_end := tcp_mstamp tp\<rparr>))
           (\<lambda>neo1. start_next_send_interval tp neo1)
       else Inr (tp, neo))"

definition neo_process_receive :: "tcp_sock \<Rightarrow> neo_data \<Rightarrow> neo_data res" where
  "neo_process_receive tp neo =
     (let idx = receive_index neo; before = packets_counted neo in
      rbind (interval_ref neo idx) (\<lambda>iv.
        let neo1 = neo\<lparr>packets_counted := tp_delivered tp + tp_lost tp - double_counted neo\<rparr>;
            iv1 = (if before > NEO_IGNORE_PACKETS + packets_sent_base iv
                   then neo_update_interval iv neo1 tp else iv) in
        rbind (interval_put neo1 idx iv1) (\<lambda>neo2.
          if receive_interval_ended iv1 neo2 then
            let neo3 = neo2\<lparr>receive_index := get_next_index idx\<rparr> in
            rbind (interval_ref neo3 (receive_index neo3)) (\<lambda>iv2.
              rbind (interval_put neo3 (receive_index neo3)
                      (iv2\<lparr>recv_start := tcp_mstamp tp, start_rtt := ucast (drop_bit 3 (srtt_us tp))\<rparr>))
                (\<lambda>neo4. Inr (if receive_index neo4 = 0 then neo4\<lparr>first_circle := False\<rparr> else neo4)))
          else Inr neo2)))"

definition neo_process :: "tcp_sock \<Rightarrow> neo_data \<Rightarrow> (tcp_sock \<times> neo_data) res" where
  "neo_process tp neo =
     (if \<not> neo_valid neo then Inr (tp, neo)
      else rbind (neo_process_send tp neo) (\<lambda>(tp1, neo1).
        rbind (neo_process_receive tp1 neo1) (\<lambda>neo2. Inr (tp1, neo2))))"

section \<open>Callbacks of the datapath\<close>

text \<open>The ten values of a report, in the order of the source's assignments.\<close>

definition neo_report :: "neo_interval \<Rightarrow> neo_interval \<Rightarrow> u64 list" where
  "neo_report l ll =
     [ucast (ni_delivered l), ucast (ni_delivered ll), ucast (ni_lost l), ucast (ni_lost ll),
      ucast (packets_ended l - packets_sent_base l), ucast (packets_ended ll - packets_sent_base ll),
      end_rtt l, start_rtt l, recv_end l - recv_start l, recv_end ll - recv_start ll]"

definition put_measurements :: "u64 list \<Rightarrow> u64 list \<Rightarrow> u64 list res" where
  "put_measurements ms vals =
     (if length vals \<le> length ms then Inr (vals @ drop (length vals) ms) else Inl Out_Of_Bounds)"

type_synonym 'e neo_world = "(neo_data, 'e) kworld"

definition neo_fetch_measurements :: "'e neo_world fetch_fn" where
  "neo_fetch_measurements conn measurements num_fields request_index w =
     rbind (sock_ref w (get_sock_from_spine conn)) (\<lambda>s.
       let neo = sk_ca s in
       if first_circle neo \<and> sint (receive_index neo) < 2
       then rbind (put_measurements measurements (replicate 10 0)) (\<lambda>ms. Inr (ms, 10, w))
       else let last_id = get_previous_index (receive_index neo);
                last_last_id = get_previous_index last_id in
         rbind (interval_ref neo last_id) (\<lambda>l.
         rbind (interval_ref neo last_last_id) (\<lambda>ll.
         rbind (put_measurements measurements (neo_report l ll)) (\<lambda>ms. Inr (ms, 10, w)))))"

definition neo_action :: "u64 \<Rightarrow> u64 \<Rightarrow> u64" where
  "neo_action action r =
     (if action = 1 then r * NEO_ACTION_INCREASE div NEO_SCALE + 1
      else if action = 2 then r * NEO_ACTION_DECREASE div NEO_SCALE - 1
      else r)"

definition neo_set_params :: "'e neo_world set_params_fn" where
  "neo_set_params conn params num_fields w =
     (if fi_alg (flow_info conn) \<noteq> SPINE_NEO \<or> num_fields \<noteq> NEO_PARAM_NUM then Inr w
      else let sk = get_sock_from_spine conn in
        rbind (sock_ref w sk) (\<lambda>s. rbind (array_get params 0) (\<lambda>action.
          let ca = sk_ca s in
          Inr (sock_put w sk (s\<lparr>sk_ca := ca\<lparr>ready_rate := neo_action action (neo_rate ca)\<rparr>\<rparr>)))))"

section \<open>Handlers of the module\<close>

definition neo_release ::
  "'e neo_world spine_datapath \<Rightarrow> nat \<Rightarrow> 'e neo_world \<Rightarrow> ('e neo_world spine_datapath \<times> 'e neo_world) res" where
  "neo_release dp sk w = rbind (sock_ref w sk) (\<lambda>s.
     rbind (case neo_conn (sk_ca s) of
              None \<Rightarrow> Inr (dp, w)
            | Some i \<Rightarrow> rbind (conn_ref dp i) (\<lambda>c. spine_connection_free dp (conn_index c) w))
       (\<lambda>(dp1, w1). rbind (kfree (intervals (sk_ca s))) (\<lambda>p.
         Inr (dp1, (sock_put w1 sk (s\<lparr>sk_ca := (sk_ca s)\<lparr>intervals := p\<rparr>\<rparr>))\<lparr>kw_id := kw_id w1 - 1\<rparr>))))"

definition neo_reset :: "neo_data \<Rightarrow> neo_data" where
  "neo_reset ca = ca\<lparr>neo_cnt := 0, neo_prev_ca_state := TCP_CA_Open, neo_in_recovery := False,
     neo_prior_cwnd := 0, neo_r_cwnd := 0, neo_slow_start_passed := 0\<rparr>"

definition neo_init_fields :: "s32 \<Rightarrow> neo_data \<Rightarrow> neo_data" where
  "neo_init_fields i ca = ca\<lparr>intervals := KLive (replicate NEO_INTERVALS zero_interval), neo_id := i,
     neo_rate := NEO_RATE_MIN * 512, ready_rate := NEO_RATE_MIN * 512, send_index := 0,
     receive_index := 0, first_circle := True, double_counted := 0\<rparr>"

definition neo_init ::
  "tcp_api \<Rightarrow> ('e \<Rightarrow> bool \<times> 'e) \<Rightarrow> 'e neo_world spine_datapath \<Rightarrow> nat \<Rightarrow> 'e neo_world \<Rightarrow>
   ('e neo_world spine_datapath \<times> 'e neo_world) res" where
  "neo_init K A dp sk w = rbind (sock_ref w sk) (\<lambda>s.
     let ca0 = neo_reset (sk_ca s); (ok, w1) = kw_alloc A w in
     if \<not> ok then Inr (dp, sock_put w1 sk (s\<lparr>sk_ca := ca0\<lparr>intervals := KNull\<rparr>\<rparr>))
     else let w2 = w1\<lparr>kw_id := kw_id w1 + 1\<rparr>; ca1 = neo_init_fields (kw_id w2) ca0 in
       rbind (start_interval (sk_tp s) ca1) (\<lambda>(tp1, ca2).
       rbind (spine_connection_start (kw_alloc A) dp sk (dp_info_of tp1 ''neo'' SPINE_NEO)
                (sock_put w2 sk \<lparr>sk_tp = tp1, sk_ca = ca2\<rparr>)) (\<lambda>(conn, dp1, w3).
       rbind (sock_ref w3 sk) (\<lambda>s3.
         let tp = sk_tp s3;
             tp2 = (if ecn_flags tp AND TCP_ECN_OK = 0 then INET_ECN_dontxmit K tp else tp) in
         Inr (dp1, sock_put w3 sk \<lparr>sk_tp = need_pacing tp2,
                                    sk_ca = (sk_ca s3)\<lparr>neo_conn := conn\<rparr>\<rparr>)))))"

definition neo_cong_avoid :: "tcp_sock \<Rightarrow> neo_data \<Rightarrow> u32 \<Rightarrow> u32 \<Rightarrow> tcp_sock \<times> neo_data" where
  "neo_cong_avoid tp ca ack acked = (tp, ca)"

text \<open>The three assignments shared by \<open>neo_ssthresh\<close> and \<open>neo_slow_start\<close>.\<close>

definition neo_adopt_rate :: "neo_data \<Rightarrow> u64 \<Rightarrow> neo_data res" where
  "neo_adopt_rate ca rate = rbind (interval_ref ca 0) (\<lambda>iv.
     rbind (interval_put ca 0 (iv\<lparr>ni_rate := rate\<rparr>)) (\<lambda>ca1.
       Inr (ca1\<lparr>ready_rate := rate, neo_rate := rate\<rparr>)))"

definition neo_ssthresh :: "tcp_api \<Rightarrow> tcp_sock \<Rightarrow> neo_data \<Rightarrow> (u32 \<times> tcp_sock \<times> neo_data) res" where
  "neo_ssthresh K tp ca =
     rbind (if neo_slow_start_passed ca = 0 then
              rbind (neo_update_pacing_rate K (tp\<lparr>snd_cwnd := snd_cwnd tp * 717 div 1000\<rparr>)) (\<lambda>tp1.
              rbind (neo_adopt_rate (ca\<lparr>neo_slow_start_passed := 1\<rparr>) (sk_pacing_rate tp1)) (\<lambda>ca1.
                Inr (tp1, ca1)))
            else Inr (tp, ca))
       (\<lambda>(tp1, ca1). Inr (max (snd_cwnd tp1) 10, tp1, ca1\<lparr>neo_prior_cwnd := snd_cwnd tp1\<rparr>))"

definition neo_set_state :: "tcp_api \<Rightarrow> tcp_sock \<Rightarrow> neo_data \<Rightarrow> tcp_ca_state \<Rightarrow> neo_data" where
  "neo_set_state K tsk neo new_state =
     (if new_state = TCP_CA_Loss then
        let dc0 = tp_delivered tsk + tp_lost tsk + tcp_packets_in_flight K tsk;
            dc1 = dc0 - data_segs_out tsk; dc2 = dc1 - double_counted neo in
        neo\<lparr>neo_prev_ca_state := TCP_CA_Loss, double_counted := double_counted neo + dc2\<rparr>
      else neo)"

definition neo_pkt_acked :: "tcp_sock \<Rightarrow> neo_data \<Rightarrow> ack_sample \<Rightarrow> tcp_sock \<times> neo_data" where
  "neo_pkt_acked tp ca sample = (tp, ca)"

definition neo_undo_cwnd :: "tcp_sock \<Rightarrow> u32" where
  "neo_undo_cwnd tp = snd_cwnd tp"

text \<open>The slow start, which \<open>neo_cong_control\<close> no longer calls; it returns no value.\<close>

definition slow_set_cwnd :: "tcp_sock \<Rightarrow> neo_data \<Rightarrow> tcp_sock \<times> neo_data" where
  "slow_set_cwnd tp ca =
     (let delta = s32_div (neo_cnt ca) (ucast NEO_SCALE);
          (ca1, cwnd) = (if delta \<noteq> 0
             then (ca\<lparr>neo_cnt := neo_cnt ca - delta * ucast NEO_SCALE\<rparr>, snd_cwnd tp + delta)
             else (ca, snd_cwnd tp)) in
      (tp\<lparr>snd_cwnd := min (max 4 cwnd) (snd_cwnd_clamp tp)\<rparr>, ca1))"

definition neo_slow_start :: "tcp_api \<Rightarrow> tcp_sock \<Rightarrow> neo_data \<Rightarrow> u32 \<Rightarrow> (tcp_sock \<times> neo_data) res" where
  "neo_slow_start K tp ca acked =
     (let (tp1, ca1) = slow_set_cwnd tp (ca\<lparr>neo_cnt := neo_cnt ca + acked * 500\<rparr>) in
      rbind (neo_update_pacing_rate K tp1) (\<lambda>tp2.
      rbind (neo_adopt_rate ca1 (sk_pacing_rate tp2)) (\<lambda>ca2. Inr (tp2, ca2))))"

text \<open>The label \<open>end\<close> of \<open>neo_cong_control\<close>.\<close>

definition neo_control_end ::
  "'e neo_world spine_datapath \<Rightarrow> nat \<Rightarrow> 'e neo_world \<Rightarrow> ('e neo_world spine_datapath \<times> 'e neo_world) res" where
  "neo_control_end dp sk w = rbind (sock_ref w sk) (\<lambda>s.
     Inr (dp, sock_put w sk (s\<lparr>sk_ca := (sk_ca s)\<lparr>lost_base := tp_lost (sk_tp s),
                                                  delivered_base := tp_delivered (sk_tp s)\<rparr>\<rparr>)))"

definition neo_exit_recovery :: "tcp_sock \<Rightarrow> neo_data \<Rightarrow> tcp_sock" where
  "neo_exit_recovery tp ca =
     (if neo_prev_ca_state ca \<ge> TCP_CA_Recovery \<and> icsk_ca_state tp < TCP_CA_Recovery
      then tp\<lparr>snd_cwnd := max (snd_cwnd tp) (neo_prior_cwnd ca)\<rparr> else tp)"

definition neo_cong_control ::
  "'e neo_world spine_datapath \<Rightarrow> nat \<Rightarrow> rate_sample \<Rightarrow> 'e neo_world \<Rightarrow>
   ('e neo_world spine_datapath \<times> 'e neo_world) res" where
  "neo_cong_control dp sk rs w = rbind (sock_ref w sk) (\<lambda>s.
     let ca = sk_ca s; tp1 = neo_exit_recovery (sk_tp s) ca in
     if sint (rs_delivered rs) < 0 \<or> sint (rs_interval_us rs) < 0
     then neo_control_end dp sk (sock_put w sk (s\<lparr>sk_tp := tp1\<rparr>))
     else rbind (neo_process tp1 ca) (\<lambda>(tp2, ca2).
       let w1 = sock_put w sk \<lparr>sk_tp = tp2, sk_ca = ca2\<rparr> in
       rbind (case neo_conn ca of
                None \<Rightarrow> Inr (dp, w1)
              | Some i \<Rightarrow> rbind (spine_invoke dp (Some i) w1) (\<lambda>(ok, dp', w'). Inr (dp', w')))
         (\<lambda>(dp2, w2). neo_control_end dp2 sk w2)))"

end
