(* ===== verification/Neo_Ring.thy ===== *)
theory Neo_Ring
  imports Neo Demo
begin

text \<open>
  Lemmas on the ring of monitor intervals of tcp_neo.c: the index arithmetic, what starting an
  interval does, and the invariant of \<open>neo_process\<close>. The ring is in order when it has its 20
  slots and both indices are inside it; it is synchronised when moreover the interval being
  sent is not marked as ended.
\<close>

section \<open>Indices\<close>

lemma unat_next: "unat i < NEO_INTERVALS \<Longrightarrow> unat (get_next_index i) = (unat i + 1) mod NEO_INTERVALS"
proof -
  assume i: "unat i < NEO_INTERVALS"
  show ?thesis
  proof (cases "i < 19")
    case True
    then have lt: "unat i < 19" by (simp add: word_less_nat_alt)
    then have "unat (i + 1) = unat i + 1" by (simp add: unat_word_ariths)
    with True lt show ?thesis by (simp add: get_next_index_def NEO_INTERVALS_def)
  next
    case False
    then have "unat i = 19" using i by (simp add: word_less_nat_alt NEO_INTERVALS_def)
    with False show ?thesis by (simp add: get_next_index_def NEO_INTERVALS_def)
  qed
qed

lemma unat_previous:
  "unat i < NEO_INTERVALS \<Longrightarrow> unat (get_previous_index i) = (unat i + 19) mod NEO_INTERVALS"
proof -
  assume i: "unat i < NEO_INTERVALS"
  show ?thesis
  proof (cases "i = 0")
    case True
    then show ?thesis by (simp add: get_previous_index_def NEO_INTERVALS_def)
  next
    case False
    then have "unat (i - 1) = unat i - 1" by (simp add: unat_minus_one)
    moreover have "0 < unat i" using False by (simp add: unat_gt_0)
    ultimately show ?thesis
      using False i by (simp add: get_previous_index_def NEO_INTERVALS_def mod_if word_neq_0_conv)
  qed
qed

lemma next_in_ring: "unat i < NEO_INTERVALS \<Longrightarrow> unat (get_next_index i) < NEO_INTERVALS"
  by (simp add: unat_next)

lemma previous_in_ring: "unat i < NEO_INTERVALS \<Longrightarrow> unat (get_previous_index i) < NEO_INTERVALS"
  by (simp add: unat_previous)

section \<open>The ring\<close>

definition ring_ok :: "neo_data \<Rightarrow> bool" where
  "ring_ok neo \<longleftrightarrow> (case intervals neo of KLive ivs \<Rightarrow> length ivs = NEO_INTERVALS | _ \<Rightarrow> False) \<and>
     unat (send_index neo) < NEO_INTERVALS \<and> unat (receive_index neo) < NEO_INTERVALS"

definition ring :: "neo_data \<Rightarrow> neo_interval list" where
  "ring neo = (case intervals neo of KLive ivs \<Rightarrow> ivs | _ \<Rightarrow> [])"

lemma ring_okD:
  "ring_ok neo \<Longrightarrow> intervals neo = KLive (ring neo)"
  "ring_ok neo \<Longrightarrow> length (ring neo) = NEO_INTERVALS"
  "ring_ok neo \<Longrightarrow> unat (send_index neo) < NEO_INTERVALS"
  "ring_ok neo \<Longrightarrow> unat (receive_index neo) < NEO_INTERVALS"
  by (auto simp: ring_ok_def ring_def split: kptr.splits)

lemma ring_upd [simp]: "ring (neo\<lparr>intervals := KLive ivs\<rparr>) = ivs"
  by (simp add: ring_def)

lemma ring_frame [simp]:
  "ring (neo\<lparr>neo_rate := a\<rparr>) = ring neo" "ring (neo\<lparr>ready_rate := a\<rparr>) = ring neo"
  "ring (neo\<lparr>send_index := i\<rparr>) = ring neo" "ring (neo\<lparr>receive_index := i\<rparr>) = ring neo"
  "ring (neo\<lparr>packets_counted := n\<rparr>) = ring neo" "ring (neo\<lparr>first_circle := b\<rparr>) = ring neo"
  "ring (neo\<lparr>lost_base := n\<rparr>) = ring neo" "ring (neo\<lparr>delivered_base := n\<rparr>) = ring neo"
  "ring (neo\<lparr>neo_slow_start_passed := s\<rparr>) = ring neo" "ring (neo\<lparr>neo_prior_cwnd := n\<rparr>) = ring neo"
  "ring (neo\<lparr>neo_conn := c\<rparr>) = ring neo"
  by (simp_all add: ring_def)

lemma ring_ok_frame [simp]:
  "ring_ok (neo\<lparr>neo_rate := a\<rparr>) = ring_ok neo" "ring_ok (neo\<lparr>ready_rate := a\<rparr>) = ring_ok neo"
  "ring_ok (neo\<lparr>packets_counted := n\<rparr>) = ring_ok neo" "ring_ok (neo\<lparr>first_circle := b\<rparr>) = ring_ok neo"
  "ring_ok (neo\<lparr>lost_base := n\<rparr>) = ring_ok neo" "ring_ok (neo\<lparr>delivered_base := n\<rparr>) = ring_ok neo"
  "ring_ok (neo\<lparr>neo_slow_start_passed := s\<rparr>) = ring_ok neo"
  "ring_ok (neo\<lparr>neo_prior_cwnd := n\<rparr>) = ring_ok neo" "ring_ok (neo\<lparr>neo_conn := c\<rparr>) = ring_ok neo"
  by (simp_all add: ring_ok_def)

lemma ring_ok_send [simp]:
  "ring_ok neo \<Longrightarrow> unat i < NEO_INTERVALS \<Longrightarrow> ring_ok (neo\<lparr>send_index := i\<rparr>)"
  by (simp add: ring_ok_def)

lemma ring_ok_receive [simp]:
  "ring_ok neo \<Longrightarrow> unat i < NEO_INTERVALS \<Longrightarrow> ring_ok (neo\<lparr>receive_index := i\<rparr>)"
  by (simp add: ring_ok_def)

lemma ring_ok_put [simp]:
  "ring_ok neo \<Longrightarrow> ring_ok (neo\<lparr>intervals := KLive ((ring neo)[j := iv])\<rparr>)"
  by (auto simp: ring_ok_def ring_def split: kptr.splits)

lemma interval_ref_ok:
  "ring_ok neo \<Longrightarrow> unat i < NEO_INTERVALS \<Longrightarrow> interval_ref neo i = Inr (ring neo ! unat i)"
  by (simp add: interval_ref_def ring_okD)

lemma interval_put_ok:
  "ring_ok neo \<Longrightarrow> unat i < NEO_INTERVALS \<Longrightarrow>
   interval_put neo i iv = Inr (neo\<lparr>intervals := KLive ((ring neo)[unat i := iv])\<rparr>)"
  by (simp add: interval_put_def ring_okD)

section \<open>Windows and rates\<close>

text \<open>The window \<open>neo_set_cwnd\<close> computes from the pacing rate.\<close>

definition neo_cwnd :: "tcp_sock \<Rightarrow> u32" where
  "neo_cwnd tp = min (ucast (max 4 (sk_pacing_rate tp * ucast (neo_get_rtt tp) div ucast (mss_cache tp)
     div USEC_PER_SEC * CWND_GAIN div NEO_SCALE)) :: u32) (snd_cwnd_clamp tp)"

lemma ucast_u32_u64_eq_0 [simp]: "(ucast (w :: u32) :: u64) = 0 \<longleftrightarrow> w = 0"
  by (simp add: unat_ucast_up word_unat_eq_iff)

lemma neo_set_cwnd_ok: "mss_cache tp \<noteq> 0 \<Longrightarrow> neo_set_cwnd tp = Inr (tp\<lparr>snd_cwnd := neo_cwnd tp\<rparr>)"
  by (simp add: neo_set_cwnd_def neo_cwnd_def Let_def)

text \<open>A fresh interval: what \<open>start_interval\<close> leaves in the slot being sent.\<close>

definition started :: "tcp_sock \<Rightarrow> neo_data \<Rightarrow> neo_interval" where
  "started tp neo = (ring neo ! unat (send_index neo))\<lparr>packets_ended := 0, ni_lost := 0,
     ni_delivered := 0, packets_sent_base := max (data_segs_out tp) 1, send_start := tcp_mstamp tp,
     ni_rate := neo_new_rate tp neo\<rparr>"

lemma start_interval_ok:
  assumes "ring_ok neo" and "mss_cache tp \<noteq> 0"
  shows "start_interval tp neo = Inr
    (tp\<lparr>sk_pacing_rate := neo_new_rate tp neo,
        snd_cwnd := neo_cwnd (tp\<lparr>sk_pacing_rate := neo_new_rate tp neo\<rparr>)\<rparr>,
     neo\<lparr>neo_rate := neo_new_rate tp neo, ready_rate := neo_new_rate tp neo,
         intervals := KLive ((ring neo)[unat (send_index neo) := started tp neo])\<rparr>)"
proof -
  let ?neo = "neo\<lparr>neo_rate := neo_new_rate tp neo, ready_rate := neo_new_rate tp neo\<rparr>"
  have "interval_put ?neo (send_index neo) (started tp neo) =
      Inr (?neo\<lparr>intervals := KLive ((ring neo)[unat (send_index neo) := started tp neo])\<rparr>)"
    using assms(1) interval_put_ok [of ?neo "send_index neo"] by (simp add: ring_okD(3))
  then show ?thesis
    using assms interval_ref_ok [OF assms(1) ring_okD(3) [OF assms(1)]]
    by (simp add: start_interval_def neo_calculate_and_set_rate_def started_def neo_set_cwnd_ok Let_def)
qed

section \<open>Processing an acknowledgement\<close>

text \<open>The socket fields \<open>neo_process\<close> only reads.\<close>

definition same_stats :: "tcp_sock \<Rightarrow> tcp_sock \<Rightarrow> bool" where
  "same_stats tp tp' \<longleftrightarrow> (\<exists>r c. tp' = tp\<lparr>sk_pacing_rate := r, snd_cwnd := c\<rparr>)"

lemma same_stats_refl [simp]: "same_stats tp tp"
  unfolding same_stats_def
  by (rule exI [of _ "sk_pacing_rate tp"], rule exI [of _ "snd_cwnd tp"]) simp

lemma same_stats_fields:
  "same_stats tp tp' \<Longrightarrow> mss_cache tp' = mss_cache tp \<and> tcp_mstamp tp' = tcp_mstamp tp \<and>
     tp_delivered tp' = tp_delivered tp \<and> tp_lost tp' = tp_lost tp \<and>
     data_segs_out tp' = data_segs_out tp \<and> sk_max_pacing_rate tp' = sk_max_pacing_rate tp \<and>
     snd_cwnd_clamp tp' = snd_cwnd_clamp tp \<and> srtt_us tp' = srtt_us tp"
  by (auto simp: same_stats_def)

text \<open>The interval being sent is not marked as ended.\<close>

definition sending :: "neo_data \<Rightarrow> bool" where
  "sending neo \<longleftrightarrow> packets_ended (ring neo ! unat (send_index neo)) = 0"

lemma start_interval_sending:
  assumes "ring_ok neo" and "mss_cache tp \<noteq> 0"
  obtains tp' neo' where "start_interval tp neo = Inr (tp', neo')" "ring_ok neo'" "sending neo'"
    "send_index neo' = send_index neo" "receive_index neo' = receive_index neo"
    "neo_conn neo' = neo_conn neo" "same_stats tp tp'"
proof
  let ?r = "neo_new_rate tp neo"
  show "start_interval tp neo = Inr (tp\<lparr>sk_pacing_rate := ?r, snd_cwnd := neo_cwnd (tp\<lparr>sk_pacing_rate := ?r\<rparr>)\<rparr>,
      neo\<lparr>neo_rate := ?r, ready_rate := ?r,
         intervals := KLive ((ring neo)[unat (send_index neo) := started tp neo])\<rparr>)"
    by (rule start_interval_ok [OF assms])
  show "ring_ok (neo\<lparr>neo_rate := ?r, ready_rate := ?r,
         intervals := KLive ((ring neo)[unat (send_index neo) := started tp neo])\<rparr>)"
    using assms(1) by (auto simp: ring_ok_def ring_def split: kptr.splits)
  show "sending (neo\<lparr>neo_rate := ?r, ready_rate := ?r,
         intervals := KLive ((ring neo)[unat (send_index neo) := started tp neo])\<rparr>)"
    using assms(1) by (simp add: sending_def started_def ring_okD)
  show "same_stats tp (tp\<lparr>sk_pacing_rate := ?r, snd_cwnd := neo_cwnd (tp\<lparr>sk_pacing_rate := ?r\<rparr>)\<rparr>)"
    unfolding same_stats_def by blast
qed simp_all

text \<open>Does the interval being sent end now, and how far is the sender ahead of the receiver?\<close>

definition send_ends :: "tcp_sock \<Rightarrow> neo_data \<Rightarrow> bool" where
  "send_ends tp neo \<longleftrightarrow> tcp_mstamp tp - send_start (ring neo ! unat (send_index neo)) \<ge> MONITOR_INTERVAL"

definition outstanding :: "neo_data \<Rightarrow> nat" where
  "outstanding neo = (unat (send_index neo) + NEO_INTERVALS - unat (receive_index neo)) mod NEO_INTERVALS"

lemma outstanding_less: "outstanding neo < NEO_INTERVALS"
  by (simp add: outstanding_def NEO_INTERVALS_def)

lemma outstanding_0: "ring_ok neo \<Longrightarrow> outstanding neo = 0 \<longleftrightarrow> send_index neo = receive_index neo"
proof -
  assume ok: "ring_ok neo"
  let ?s = "unat (send_index neo)" and ?r = "unat (receive_index neo)"
  have "?s < 20" "?r < 20" using ring_okD(3,4) [OF ok] by (simp_all add: NEO_INTERVALS_def)
  then have "(?s + 20 - ?r) mod 20 = 0 \<longleftrightarrow> ?s = ?r" by (cases "?s < ?r") (auto simp: mod_if)
  then show ?thesis by (simp add: outstanding_def NEO_INTERVALS_def word_unat_eq_iff)
qed

lemma outstanding_send:
  assumes "ring_ok neo" and "send_index neo' = get_next_index (send_index neo)"
    and "receive_index neo' = receive_index neo" and "get_next_index (send_index neo) \<noteq> receive_index neo"
  shows "outstanding neo' = outstanding neo + 1"
proof -
  let ?s = "unat (send_index neo)" and ?r = "unat (receive_index neo)"
  have b: "?s < 20" "?r < 20" using ring_okD(3,4) [OF assms(1)] by (simp_all add: NEO_INTERVALS_def)
  have n: "unat (get_next_index (send_index neo)) = (?s + 1) mod 20"
    using unat_next [OF ring_okD(3) [OF assms(1)]] by (simp add: NEO_INTERVALS_def)
  with assms(4) have "(?s + 1) mod 20 \<noteq> ?r" by (metis word_unat_eq_iff)
  with b have "((?s + 1) mod 20 + 20 - ?r) mod 20 = (?s + 20 - ?r) mod 20 + 1"
    by (cases "?s < ?r"; cases "?s = 19") (auto simp: mod_if split: if_splits)
  with n show ?thesis using assms(2,3) by (simp add: outstanding_def NEO_INTERVALS_def)
qed

lemma outstanding_receive:
  assumes "ring_ok neo" and "send_index neo' = send_index neo"
    and "receive_index neo' = get_next_index (receive_index neo)" and "send_index neo \<noteq> receive_index neo"
  shows "outstanding neo' + 1 = outstanding neo"
proof -
  let ?s = "unat (send_index neo)" and ?r = "unat (receive_index neo)"
  have b: "?s < 20" "?r < 20" using ring_okD(3,4) [OF assms(1)] by (simp_all add: NEO_INTERVALS_def)
  have n: "unat (get_next_index (receive_index neo)) = (?r + 1) mod 20"
    using unat_next [OF ring_okD(4) [OF assms(1)]] by (simp add: NEO_INTERVALS_def)
  have "?s \<noteq> ?r" using assms(4) by (simp add: word_unat_eq_iff)
  with b have "(?s + 20 - (?r + 1) mod 20) mod 20 + 1 = (?s + 20 - ?r) mod 20"
    by (cases "?s < ?r"; cases "?r = 19") (auto simp: mod_if split: if_splits)
  with n show ?thesis using assms(2,3) by (simp add: outstanding_def NEO_INTERVALS_def)
qed

text \<open>The first half: it faults on nothing, and keeps the ring synchronised unless it overruns.\<close>

lemma neo_process_send_ok:
  assumes ok: "ring_ok neo" and mss: "mss_cache tp \<noteq> 0"
  obtains tp' neo' where "neo_process_send tp neo = Inr (tp', neo')" "ring_ok neo'" "same_stats tp tp'"
    "receive_index neo' = receive_index neo" "neo_conn neo' = neo_conn neo"
    "send_index neo' = (if send_ends tp neo then get_next_index (send_index neo) else send_index neo)"
    "sending neo \<Longrightarrow> \<not> (send_ends tp neo \<and> get_next_index (send_index neo) = receive_index neo) \<Longrightarrow> sending neo'"
proof (cases "send_ends tp neo")
  case False
  then have "neo_process_send tp neo = Inr (tp, neo)"
    using ok by (simp add: neo_process_send_def interval_ref_ok ring_okD send_interval_ended_def send_ends_def)
  with False ok show ?thesis by (intro that [of tp neo]) simp_all
next
  case True
  let ?i = "send_index neo" and ?j = "get_next_index (send_index neo)"
  let ?neo1 = "neo\<lparr>intervals := KLive ((ring neo)[unat ?i :=
      (ring neo ! unat ?i)\<lparr>packets_ended := data_segs_out tp, send_end := tcp_mstamp tp\<rparr>])\<rparr>"
  let ?neo2 = "?neo1\<lparr>send_index := ?j\<rparr>"
  have ok2: "ring_ok ?neo2"
    using ok by (intro ring_ok_send ring_ok_put) (simp_all add: next_in_ring ring_okD)
  have half: "neo_process_send tp neo =
      (if ?j = receive_index neo then Inr (tp, ?neo2) else start_interval tp ?neo2)"
    using ok True by (simp add: neo_process_send_def interval_ref_ok interval_put_ok ring_okD
        send_interval_ended_def send_ends_def start_next_send_interval_def Let_def)
  show ?thesis
  proof (cases "?j = receive_index neo")
    case overrun: True
    with half True ok2 show ?thesis by (intro that [of tp ?neo2]) simp_all
  next
    case False
    obtain tp' neo' where "start_interval tp ?neo2 = Inr (tp', neo')" "ring_ok neo'" "sending neo'"
      "send_index neo' = ?j" "receive_index neo' = receive_index neo" "neo_conn neo' = neo_conn neo"
      "same_stats tp tp'"
      using start_interval_sending [OF ok2 mss] by auto
    with half False True show ?thesis by (intro that [of tp' neo']) simp_all
  qed
qed

lemma packets_ended_update [simp]: "packets_ended (neo_update_interval iv neo tp) = packets_ended iv"
  by (simp add: neo_update_interval_def)

text \<open>The second half: an interval that is still being sent is never closed.\<close>

lemma neo_process_receive_ok:
  assumes ok: "ring_ok neo"
  obtains neo' where "neo_process_receive tp neo = Inr neo'" "ring_ok neo'"
    "send_index neo' = send_index neo" "neo_conn neo' = neo_conn neo"
    "receive_index neo' = receive_index neo \<or> receive_index neo' = get_next_index (receive_index neo)"
    "sending neo \<Longrightarrow> send_index neo = receive_index neo \<Longrightarrow> receive_index neo' = receive_index neo"
    "sending neo \<Longrightarrow> sending neo'"
    "packets_counted neo' = tp_delivered tp + tp_lost tp - double_counted neo"
proof -
  let ?r = "receive_index neo" and ?s = "send_index neo"
  let ?iv = "ring neo ! unat ?r"
  let ?neo1 = "neo\<lparr>packets_counted := tp_delivered tp + tp_lost tp - double_counted neo\<rparr>"
  let ?iv1 = "if packets_counted neo > NEO_IGNORE_PACKETS + packets_sent_base ?iv
      then neo_update_interval ?iv ?neo1 tp else ?iv"
  let ?neo2 = "?neo1\<lparr>intervals := KLive ((ring neo)[unat ?r := ?iv1])\<rparr>"
  let ?neo3 = "?neo2\<lparr>receive_index := get_next_index ?r\<rparr>"
  have len: "length (ring neo) = NEO_INTERVALS" and rs: "unat ?r < NEO_INTERVALS" "unat ?s < NEO_INTERVALS"
    using ok by (simp_all add: ring_okD)
  have ended: "packets_ended ?iv1 = packets_ended ?iv" by simp
  have ok1: "ring_ok ?neo1" using ok by simp
  have ok2: "ring_ok ?neo2" using ring_ok_put [OF ok1] by simp
  have ok3: "ring_ok ?neo3" using ok2 rs by (intro ring_ok_receive) (simp_all add: next_in_ring)
  have next_r: "unat (get_next_index ?r) < NEO_INTERVALS" using rs(1) by (rule next_in_ring)
  let ?iv2 = "(ring ?neo3 ! unat (get_next_index ?r))\<lparr>recv_start := tcp_mstamp tp,
      start_rtt := ucast (drop_bit 3 (srtt_us tp))\<rparr>"
  let ?neo4 = "?neo3\<lparr>intervals := KLive ((ring ?neo3)[unat (get_next_index ?r) := ?iv2])\<rparr>"
  let ?neo5 = "if receive_index ?neo4 = 0 then ?neo4\<lparr>first_circle := False\<rparr> else ?neo4"
  have put: "interval_put ?neo1 ?r ?iv1 = Inr ?neo2"
    using interval_put_ok [OF ok1, of ?r ?iv1] rs(1) by simp
  have eq: "neo_process_receive tp neo =
      (if receive_interval_ended ?iv1 ?neo2 then Inr ?neo5 else Inr ?neo2)"
    using interval_ref_ok [OF ok rs(1)] interval_ref_ok [OF ok3 next_r]
      interval_put_ok [OF ok3 next_r, of ?iv2] put
    by (simp add: neo_process_receive_def Let_def)
  have send2: "sending ?neo2 = sending neo"
    using len rs ended by (simp add: sending_def nth_list_update)
  have send4: "sending ?neo4 = sending ?neo2"
    using len rs next_r by (simp add: sending_def nth_list_update)
  have ok4: "ring_ok ?neo4" by (rule ring_ok_put [OF ok3])
  show ?thesis
  proof (cases "receive_interval_ended ?iv1 ?neo2")
    case False
    with eq ok2 send2 show ?thesis by (intro that [of ?neo2]) simp_all
  next
    case True
    then have "packets_ended ?iv \<noteq> 0" using ended by (simp add: receive_interval_ended_def)
    then have never: "sending neo \<Longrightarrow> ?s = ?r \<Longrightarrow> P" for P by (simp add: sending_def)
    define neo4 where "neo4 = ?neo4"
    have four: "ring_ok neo4" "send_index neo4 = ?s" "neo_conn neo4 = neo_conn neo"
      "receive_index neo4 = get_next_index ?r" "sending neo4 = sending neo"
      "packets_counted neo4 = tp_delivered tp + tp_lost tp - double_counted neo"
      using ok4 send2 send4 unfolding neo4_def by simp_all
    define neo5 where "neo5 = (if receive_index neo4 = 0 then neo4\<lparr>first_circle := False\<rparr> else neo4)"
    have five: "ring_ok neo5" "send_index neo5 = ?s" "neo_conn neo5 = neo_conn neo"
      "receive_index neo5 = get_next_index ?r" "sending neo5 = sending neo"
      "packets_counted neo5 = tp_delivered tp + tp_lost tp - double_counted neo"
      using four by (simp_all add: neo5_def sending_def)
    have "neo_process_receive tp neo = Inr neo5"
      unfolding neo5_def neo4_def using eq True by (simp only: if_True)
    with five never show ?thesis by (intro that [of neo5]) auto
  qed
qed

lemma neo_process_ok:
  assumes ok: "ring_ok neo" and mss: "mss_cache tp \<noteq> 0"
  obtains tp' neo' where "neo_process tp neo = Inr (tp', neo')" "ring_ok neo'" "same_stats tp tp'"
    "neo_conn neo' = neo_conn neo"
proof -
  have valid: "neo_valid neo" using ring_okD(1) [OF ok] by (simp add: neo_valid_def)
  obtain tp1 neo1 where send: "neo_process_send tp neo = Inr (tp1, neo1)" "ring_ok neo1" "same_stats tp tp1"
    "neo_conn neo1 = neo_conn neo"
    using neo_process_send_ok [OF ok mss] by metis
  obtain neo2 where "neo_process_receive tp1 neo1 = Inr neo2" "ring_ok neo2" "neo_conn neo2 = neo_conn neo1"
    using neo_process_receive_ok [OF send(2)] by metis
  with send valid show ?thesis by (intro that [of tp1 neo2]) (simp_all add: neo_process_def)
qed

lemma next_is_receive:
  assumes "ring_ok neo"
  shows "get_next_index (send_index neo) = receive_index neo \<longleftrightarrow> outstanding neo = 19"
proof -
  let ?s = "unat (send_index neo)" and ?r = "unat (receive_index neo)"
  have b: "?s < 20" "?r < 20" using ring_okD(3,4) [OF assms] by (simp_all add: NEO_INTERVALS_def)
  have "unat (get_next_index (send_index neo)) = (?s + 1) mod 20"
    using unat_next [OF ring_okD(3) [OF assms]] by (simp add: NEO_INTERVALS_def)
  then have "get_next_index (send_index neo) = receive_index neo \<longleftrightarrow> (?s + 1) mod 20 = ?r"
    by (simp add: word_unat_eq_iff)
  also have "\<dots> \<longleftrightarrow> (?s + 20 - ?r) mod 20 = 19"
    using b by (cases "?s < ?r"; cases "?s = 19") (auto simp: mod_if split: if_splits)
  finally show ?thesis by (simp add: outstanding_def NEO_INTERVALS_def)
qed

section \<open>Properties of the ring\<close>

text \<open>A flow as it is when its first interval starts, for the witnesses.\<close>

definition demo_neo :: neo_data where
  "demo_neo = \<lparr>neo_cnt = 0, neo_in_recovery = False, neo_r_cwnd = 0, neo_slow_start_passed = 0,
     intervals = KLive (replicate NEO_INTERVALS zero_interval), send_index = 0, receive_index = 0,
     neo_rate = 2097152, ready_rate = 2097152, lost_base = 0, delivered_base = 0,
     packets_counted = 0, neo_prev_ca_state = TCP_CA_Open, neo_prior_cwnd = 0, first_circle = True,
     neo_id = 1, neo_conn = Some 0, double_counted = 0\<rparr>"

lemma demo_neo_ok: "ring_ok demo_neo" "sending demo_neo" "outstanding demo_neo = 0"
  by (simp_all add: demo_neo_def ring_ok_def sending_def ring_def outstanding_def zero_interval_def
      NEO_INTERVALS_def)

text \<open>C29: While the sender is not about to lap the ring, the receiver never passes the sender: an
  acknowledgement is processed without a fault, the interval being sent stays open, the number
  of outstanding intervals grows by one exactly when the interval being sent has lasted 30 ms,
  and shrinks by at most one, never below zero.\<close>

theorem neo_receiver_never_passes_sender:
  assumes "ring_ok neo" and "sending neo" and "mss_cache tp \<noteq> 0"
    and "\<not> (send_ends tp neo \<and> outstanding neo = 19)"
  shows "\<exists>tp' neo' r. neo_process tp neo = Inr (tp', neo') \<and> ring_ok neo' \<and> sending neo' \<and> r \<le> 1 \<and>
    outstanding neo' + r = outstanding neo + (if send_ends tp neo then 1 else 0)"
proof -
  have valid: "neo_valid neo" using ring_okD(1) [OF assms(1)] by (simp add: neo_valid_def)
  have room: "\<not> (send_ends tp neo \<and> get_next_index (send_index neo) = receive_index neo)"
    using assms(4) next_is_receive [OF assms(1)] by simp
  obtain tp1 neo1 where send: "neo_process_send tp neo = Inr (tp1, neo1)" and ok1: "ring_ok neo1"
    and r1: "receive_index neo1 = receive_index neo" and sending1: "sending neo1"
    and s1: "send_index neo1 = (if send_ends tp neo then get_next_index (send_index neo) else send_index neo)"
    using neo_process_send_ok [OF assms(1,3)] room assms(2) by metis
  obtain neo2 where recv: "neo_process_receive tp1 neo1 = Inr neo2" and ok2: "ring_ok neo2"
    and s2: "send_index neo2 = send_index neo1" and sending2: "sending neo2"
    and r2: "receive_index neo2 = receive_index neo1 \<or> receive_index neo2 = get_next_index (receive_index neo1)"
    and stay: "send_index neo1 = receive_index neo1 \<Longrightarrow> receive_index neo2 = receive_index neo1"
    using neo_process_receive_ok [OF ok1, of tp1] sending1 by metis
  have out1: "outstanding neo1 = outstanding neo + (if send_ends tp neo then 1 else 0)"
    using s1 r1 room outstanding_send [OF assms(1), of neo1] by (auto simp: outstanding_def)
  have "\<exists>r \<le> 1. outstanding neo2 + r = outstanding neo1"
  proof (cases "receive_index neo2 = receive_index neo1")
    case True
    then show ?thesis using s2 by (intro exI [of _ 0]) (simp add: outstanding_def)
  next
    case False
    then show ?thesis
      using outstanding_receive [OF ok1 s2] r2 stay by (intro exI [of _ 1]) auto
  qed
  then show ?thesis using send recv valid ok2 sending2 out1 by (auto simp: neo_process_def)
qed

theorem neo_receiver_never_passes_sender_witness:
  "\<exists>tp' neo' r. neo_process demo_sock demo_neo = Inr (tp', neo') \<and> ring_ok neo' \<and> sending neo' \<and> r \<le> 1 \<and>
    outstanding neo' + r = outstanding demo_neo + (if send_ends demo_sock demo_neo then 1 else 0)"
  by (rule neo_receiver_never_passes_sender [OF demo_neo_ok(1,2)])
    (simp_all add: demo_neo_ok demo_sock_def)

text \<open>C31: Starting an interval paces the socket at the requested rate, raised to 4096 bytes per
  second and capped by the socket's maximum; the flow and the interval record the same rate. The
  window never exceeds the clamp and, as long as the 64-bit product and the 32-bit result do not
  overflow, is 1.2 times the rate-delay product in segments, at least 4.\<close>

theorem neo_rate_and_window:
  assumes "ring_ok neo" and "mss_cache tp \<noteq> 0"
    and "rate = min (max (unat (ready_rate neo)) 4096) (unat (sk_max_pacing_rate tp))"
    and "segs = rate * unat (neo_get_rtt tp) div unat (mss_cache tp) div 1000000"
  shows "\<exists>tp' neo'. start_interval tp neo = Inr (tp', neo') \<and>
    unat (sk_pacing_rate tp') = rate \<and> neo_rate neo' = sk_pacing_rate tp' \<and>
    ready_rate neo' = sk_pacing_rate tp' \<and>
    ni_rate (ring neo' ! unat (send_index neo)) = sk_pacing_rate tp' \<and>
    snd_cwnd tp' \<le> snd_cwnd_clamp tp \<and>
    (rate * unat (neo_get_rtt tp) < 2 ^ 64 \<longrightarrow> segs * 1200 div 1000 < 2 ^ 32 \<longrightarrow>
      unat (snd_cwnd tp') = min (max 4 (segs * 1200 div 1000)) (unat (snd_cwnd_clamp tp)))"
proof -
  let ?r = "neo_new_rate tp neo"
  let ?tp = "tp\<lparr>sk_pacing_rate := ?r\<rparr>"
  have r: "unat ?r = rate"
    by (simp add: neo_new_rate_def assms(3) NEO_RATE_MIN_def unat_min unat_max)
  have rtt: "neo_get_rtt ?tp = neo_get_rtt tp" by (simp add: neo_get_rtt_def)
  have w: "unat (neo_cwnd ?tp) = min (max 4 (segs * 1200 div 1000)) (unat (snd_cwnd_clamp tp))"
    if small: "rate * unat (neo_get_rtt tp) < 2 ^ 64" "segs * 1200 div 1000 < 2 ^ 32"
  proof -
    let ?q = "?r * ucast (neo_get_rtt tp) div ucast (mss_cache tp) div 1000000 :: u64"
    have "unat (?r * ucast (neo_get_rtt tp)) = rate * unat (neo_get_rtt tp)"
      using small(1) r by (intro unat_mult_exact [THEN trans]) (simp_all add: unat_ucast_up)
    then have q: "unat ?q = segs" by (simp add: unat_div unat_ucast_up assms(4))
    have "segs < 2 ^ 32" using small(2) by linarith
    then have "unat (?q * 1200) = segs * 1200"
      using q by (intro unat_mult_exact [THEN trans]) simp_all
    then have "unat (?q * 1200 div 1000) = segs * 1200 div 1000" by (simp add: unat_div)
    then have "unat (ucast (max 4 (?q * 1200 div 1000)) :: u32) = max 4 (segs * 1200 div 1000)"
      using small(2) by (simp add: unsigned_ucast_eq unat_max take_bit_nat_eq_self_iff)
    then show ?thesis
      by (simp add: neo_cwnd_def rtt USEC_PER_SEC_def CWND_GAIN_def NEO_SCALE_def unat_min)
  qed
  have clamp: "neo_cwnd ?tp \<le> snd_cwnd_clamp tp" by (simp add: neo_cwnd_def)
  have slot: "unat (send_index neo) < length (ring neo)" using assms(1) by (simp add: ring_okD)
  show ?thesis
    unfolding start_interval_ok [OF assms(1,2)] using r w clamp slot
    by (simp add: started_def)
qed

theorem neo_rate_and_window_witness:
  "\<exists>tp' neo'. start_interval demo_sock demo_neo = Inr (tp', neo') \<and>
    unat (sk_pacing_rate tp') = 2097152 \<and> neo_rate neo' = sk_pacing_rate tp' \<and>
    ready_rate neo' = sk_pacing_rate tp' \<and>
    ni_rate (ring neo' ! unat (send_index demo_neo)) = sk_pacing_rate tp' \<and>
    snd_cwnd tp' \<le> snd_cwnd_clamp demo_sock \<and>
    (2097152 * unat (neo_get_rtt demo_sock) < (2 :: nat) ^ 64 \<longrightarrow> (14 :: nat) * 1200 div 1000 < 2 ^ 32 \<longrightarrow>
      unat (snd_cwnd tp') = min (max 4 (14 * 1200 div 1000)) (unat (snd_cwnd_clamp demo_sock)))"
  by (rule neo_rate_and_window [OF demo_neo_ok(1)])
    (simp_all add: demo_sock_def demo_neo_def neo_get_rtt_def drop_bit_eq_div)

text \<open>On a retransmission timeout the module recomputes how many segments were counted twice
  from scratch: whatever the old correction was, the next acknowledgement with the same socket
  statistics counts as finished exactly the segments sent that are no longer in flight.\<close>

theorem neo_timeout_resynchronises:
  assumes "ring_ok neo"
  shows "\<exists>neo'. neo_process_receive tp (neo_set_state K tp neo TCP_CA_Loss) = Inr neo' \<and> ring_ok neo' \<and>
    packets_counted neo' = data_segs_out tp - tcp_packets_in_flight K tp"
proof -
  let ?neo = "neo_set_state K tp neo TCP_CA_Loss"
  have ok: "ring_ok ?neo"
    using assms by (simp add: neo_set_state_def ring_ok_def Let_def)
  obtain neo' where recv: "neo_process_receive tp ?neo = Inr neo'" and ok': "ring_ok neo'"
    and "packets_counted neo' = tp_delivered tp + tp_lost tp - double_counted ?neo"
    using neo_process_receive_ok [OF ok] by metis
  have "tp_delivered tp + tp_lost tp - double_counted ?neo = data_segs_out tp - tcp_packets_in_flight K tp"
    by (simp add: neo_set_state_def Let_def)
  with recv ok' \<open>packets_counted neo' = _\<close> show ?thesis by auto
qed

theorem neo_timeout_resynchronises_witness:
  "\<exists>neo'. neo_process_receive demo_sock (neo_set_state demo_tcp demo_sock demo_neo TCP_CA_Loss) = Inr neo' \<and>
    ring_ok neo' \<and> packets_counted neo' = data_segs_out demo_sock - tcp_packets_in_flight demo_tcp demo_sock"
  by (rule neo_timeout_resynchronises [OF demo_neo_ok(1)])

end
