(* ===== verification/Neo_Module.thy ===== *)
theory Neo_Module
  imports Neo_Ring Flow_Module Spine_Properties Command
begin

text \<open>
  The neo module as a whole: its callbacks fulfil the library's contract on a module, its
  handlers and the reception of controller packets keep an invariant and never fault, and a
  command of the controller reaches the rate of the flow it names.
\<close>

section \<open>The sockets of the module\<close>

text \<open>A socket is in order when its segment size is not 0 and its flow's ring is in order.\<close>

definition neo_sock_ok :: "neo_data ksock \<Rightarrow> bool" where
  "neo_sock_ok s \<longleftrightarrow> mss_cache (sk_tp s) \<noteq> 0 \<and> ring_ok (sk_ca s)"

abbreviation neo_good :: "(nat \<Rightarrow> nat option option) \<Rightarrow> (nat \<Rightarrow> neo_data ksock option) \<Rightarrow> bool" where
  "neo_good \<equiv> socks_ok neo_conn neo_sock_ok"

section \<open>The callbacks\<close>

definition neo_report_of :: "neo_data \<Rightarrow> u64 list" where
  "neo_report_of neo =
     (if first_circle neo \<and> sint (receive_index neo) < 2 then replicate 10 0
      else let l = get_previous_index (receive_index neo) in
        neo_report (ring neo ! unat l) (ring neo ! unat (get_previous_index l)))"

lemma length_neo_report [simp]: "length (neo_report_of neo) = 10"
  by (simp add: neo_report_of_def neo_report_def Let_def)

lemma put_measurements_ok:
  "length vals \<le> length ms \<Longrightarrow> put_measurements ms vals = Inr (vals @ drop (length vals) ms)"
  by (simp add: put_measurements_def)

lemma neo_fetch_eq:
  assumes "kw_socks w (conn_impl c) = Some s" and "ring_ok (sk_ca s)"
    and "length ms = MAX_MEASUREMENT_FIELDS"
  shows "neo_fetch_measurements c ms n r w = Inr (neo_report_of (sk_ca s) @ drop 10 ms, 10, w)"
proof -
  let ?neo = "sk_ca s"
  let ?l = "get_previous_index (receive_index ?neo)"
  have l: "unat ?l < NEO_INTERVALS" using ring_okD(4) [OF assms(2)] by (rule previous_in_ring)
  then have ll: "unat (get_previous_index ?l) < NEO_INTERVALS" by (rule previous_in_ring)
  have ten: "(10 :: nat) \<le> length ms" using assms(3) by (simp add: MAX_MEASUREMENT_FIELDS_def)
  have rep: "length (neo_report a b) = 10" for a b by (simp add: neo_report_def)
  show ?thesis
    using assms(1) interval_ref_ok [OF assms(2) l] interval_ref_ok [OF assms(2) ll] ten rep
    by (simp add: neo_fetch_measurements_def get_sock_from_spine_def spine_get_impl_def
        neo_report_of_def put_measurements_ok Let_def)
qed

lemma neo_set_params_eq:
  assumes "kw_socks w (conn_impl c) = Some s" and "0 < length ps"
  shows "neo_set_params c ps n w =
    (if fi_alg (flow_info c) = SPINE_NEO \<and> n = 1
     then Inr (sock_put w (conn_impl c) (s\<lparr>sk_ca := (sk_ca s)
       \<lparr>ready_rate := neo_action (ps ! 0) (neo_rate (sk_ca s))\<rparr>\<rparr>)) else Inr w)"
  using assms by (simp add: neo_set_params_def NEO_PARAM_NUM_def get_sock_from_spine_def
      spine_get_impl_def Let_def)

interpretation neo_flows: flow_module neo_conn neo_sock_ok neo_set_params "Some neo_fetch_measurements"
proof
  fix w :: "'e neo_world" and c :: spine_connection and s and ps :: "u64 list"
  assume s: "kw_socks w (conn_impl c) = Some s" "neo_sock_ok s" and "ps \<noteq> []"
  then have eq: "(kw_socks w)(conn_impl c \<mapsto> s) = kw_socks w" by auto
  show "\<exists>w' s'. neo_set_params c ps (word_of_nat (length ps)) w = Inr w' \<and>
      kw_socks w' = (kw_socks w)(conn_impl c \<mapsto> s') \<and> neo_sock_ok s' \<and>
      neo_conn (sk_ca s') = neo_conn (sk_ca s)"
  proof (cases "fi_alg (flow_info c) = SPINE_NEO \<and> (word_of_nat (length ps) :: u8) = 1")
    case True
    let ?s' = "s\<lparr>sk_ca := (sk_ca s)\<lparr>ready_rate := neo_action (ps ! 0) (neo_rate (sk_ca s))\<rparr>\<rparr>"
    from True s \<open>ps \<noteq> []\<close> show ?thesis
      by (intro exI [of _ "sock_put w (conn_impl c) ?s'"] exI [of _ ?s'])
        (simp add: neo_set_params_eq neo_sock_ok_def)
  next
    case False
    then have "neo_set_params c ps (word_of_nat (length ps)) w = Inr w"
      using s \<open>ps \<noteq> []\<close> neo_set_params_eq [OF s(1), of ps "word_of_nat (length ps)"] by auto
    with s eq show ?thesis by (intro exI [of _ w] exI [of _ s]) simp
  qed
next
  fix fetch :: "'e neo_world fetch_fn" and w :: "'e neo_world" and c :: spine_connection
    and s and ms :: "u64 list" and r :: u32
  assume "Some neo_fetch_measurements = Some fetch" and "kw_socks w (conn_impl c) = Some s"
    and "neo_sock_ok s" and "length ms = MAX_MEASUREMENT_FIELDS"
  then have "fetch c ms 0 r w = Inr (neo_report_of (sk_ca s) @ drop 10 ms, 10, w)"
    using neo_fetch_eq by (auto simp: neo_sock_ok_def)
  then show "\<exists>ms' n. fetch c ms 0 r w = Inr (ms', n, w) \<and> length ms' = MAX_MEASUREMENT_FIELDS \<and>
      unat n \<le> MAX_MEASUREMENT_FIELDS"
    using \<open>length ms = _\<close> by (simp add: MAX_MEASUREMENT_FIELDS_def)
qed

section \<open>The handlers\<close>

lemma neo_update_pacing_rate_ok:
  "\<exists>r st. neo_update_pacing_rate K tp = Inr (tp\<lparr>sk_pacing_status := st, sk_pacing_rate := r\<rparr>)"
proof (cases "drop_bit 3 (srtt_us tp) = 0")
  case True
  then show ?thesis
    by (cases "sk_pacing_status tp") (auto simp: neo_update_pacing_rate_def need_pacing_def Let_def
        intro!: exI tcp_sock.equality)
next
  case False
  then show ?thesis
    by (cases "sk_pacing_status tp") (auto simp: neo_update_pacing_rate_def need_pacing_def Let_def
        intro!: exI tcp_sock.equality)
qed

lemma neo_adopt_rate_ok:
  assumes "ring_ok ca"
  shows "\<exists>ca'. neo_adopt_rate ca rate = Inr ca' \<and> ring_ok ca' \<and> neo_conn ca' = neo_conn ca"
proof -
  have "unat (0 :: u32) < NEO_INTERVALS" by (simp add: NEO_INTERVALS_def)
  then show ?thesis
    using assms by (simp add: neo_adopt_rate_def interval_ref_ok interval_put_ok)
qed

lemma neo_ssthresh_ok:
  assumes "ring_ok ca"
  shows "\<exists>r tp' ca'. neo_ssthresh K tp ca = Inr (r, tp', ca') \<and> ring_ok ca' \<and>
    neo_conn ca' = neo_conn ca \<and> mss_cache tp' = mss_cache tp \<and> 10 \<le> r \<and> neo_prior_cwnd ca' = snd_cwnd tp'"
proof -
  let ?tp = "tp\<lparr>snd_cwnd := snd_cwnd tp * 717 div 1000\<rparr>"
  obtain r st where pace: "neo_update_pacing_rate K ?tp = Inr (?tp\<lparr>sk_pacing_status := st, sk_pacing_rate := r\<rparr>)"
    using neo_update_pacing_rate_ok by blast
  obtain ca1 where "neo_adopt_rate (ca\<lparr>neo_slow_start_passed := 1\<rparr>) r = Inr ca1"
    "ring_ok ca1" "neo_conn ca1 = neo_conn ca"
    using neo_adopt_rate_ok [of "ca\<lparr>neo_slow_start_passed := 1\<rparr>" r] assms by auto
  with pace assms show ?thesis by (simp add: neo_ssthresh_def)
qed

lemma neo_control_end_ok:
  assumes "neo_good C (kw_socks w)" and "C sk = Some c"
  shows "\<exists>w'. neo_control_end dp sk w = Inr (dp, w') \<and> neo_good C (kw_socks w')"
proof -
  from assms obtain s where s: "kw_socks w sk = Some s" "neo_sock_ok s" by (rule socks_ok_get)
  then show ?thesis
    using socks_ok_put [OF assms(1) s(1)] by (simp add: neo_control_end_def neo_sock_ok_def)
qed

abbreviation neo_dp_ok ::
  "('e, 'ts) time_api \<Rightarrow> 'ts \<Rightarrow> 'e nl_api \<Rightarrow> (nat \<Rightarrow> nat option option) \<Rightarrow> 'e neo_world spine_datapath \<Rightarrow> bool" where
  "neo_dp_ok \<equiv> flows_ok neo_set_params (Some neo_fetch_measurements)"

definition neo_ok where
  "neo_ok T tzero N C = (\<lambda>(dp, w). neo_dp_ok T tzero N C dp \<and> neo_good C (kw_socks w))"

lemma neo_cong_control_ok:
  assumes dp: "neo_dp_ok T tzero N C dp" and w: "neo_good C (kw_socks w)" and sk: "C sk = Some c"
  shows "\<exists>dp' w'. neo_cong_control dp sk rs w = Inr (dp', w') \<and> neo_ok T tzero N C (dp', w') \<and>
    length (slots dp') = length (slots dp)"
proof -
  from w sk obtain s where s: "kw_socks w sk = Some s" and conn: "neo_conn (sk_ca s) = c"
    and good: "neo_sock_ok s"
    by (rule socks_ok_get)
  let ?tp = "neo_exit_recovery (sk_tp s) (sk_ca s)"
  have mss: "mss_cache ?tp \<noteq> 0" and ring: "ring_ok (sk_ca s)"
    using good by (simp_all add: neo_exit_recovery_def neo_sock_ok_def)
  show ?thesis
  proof (cases "sint (rs_delivered rs) < 0 \<or> sint (rs_interval_us rs) < 0")
    case True
    have "neo_good C (kw_socks (sock_put w sk (s\<lparr>sk_tp := ?tp\<rparr>)))"
      using socks_ok_put [OF w s] mss ring by (simp add: neo_sock_ok_def)
    from neo_control_end_ok [OF this sk, of dp] True s dp show ?thesis
      by (auto simp: neo_cong_control_def neo_ok_def Let_def)
  next
    case False
    obtain tp2 ca2 where proc: "neo_process ?tp (sk_ca s) = Inr (tp2, ca2)" and ring2: "ring_ok ca2"
      and st: "same_stats ?tp tp2" and conn2: "neo_conn ca2 = neo_conn (sk_ca s)"
      using neo_process_ok [OF ring mss] by metis
    let ?w1 = "sock_put w sk \<lparr>sk_tp = tp2, sk_ca = ca2\<rparr>"
    have w1: "neo_good C (kw_socks ?w1)"
      using socks_ok_put [OF w s] mss ring2 conn2 same_stats_fields [OF st] by (simp add: neo_sock_ok_def)
    obtain dp2 w2 where inv: "(case c of None \<Rightarrow> Inr (dp, ?w1)
        | Some i \<Rightarrow> rbind (spine_invoke dp (Some i) ?w1) (\<lambda>(ok, dp', w'). Inr (dp', w'))) = Inr (dp2, w2)"
      and dp2: "neo_dp_ok T tzero N C dp2" and len: "length (slots dp2) = length (slots dp)" and w2: "neo_good C (kw_socks w2)"
      using neo_flows.invoke_conn_ok [OF dp w1 sk] by blast
    obtain w3 where "neo_control_end dp2 sk w2 = Inr (dp2, w3)" "neo_good C (kw_socks w3)"
      using neo_control_end_ok [OF w2 sk] by blast
    with inv proc s False dp2 len conn show ?thesis
      by (simp add: neo_cong_control_def neo_ok_def Let_def)
  qed
qed

section \<open>The module as a machine\<close>

text \<open>
  What happens to established flows: the stack moves a socket's statistics, calls a handler (and
  takes the window the undo handler returns), or the netlink layer delivers a packet.
\<close>

datatype neo_event =
    Neo_Stats nat tcp_sock
  | Neo_Ack nat rate_sample
  | Neo_Ssthresh nat
  | Neo_State nat tcp_ca_state
  | Neo_Sample nat ack_sample
  | Neo_Undo nat
  | Neo_Packet "u8 list"

type_synonym 'e neo_state = "'e neo_world spine_datapath \<times> 'e neo_world"

fun neo_step :: "tcp_api \<Rightarrow> bool \<Rightarrow> neo_event \<Rightarrow> 'e neo_state \<Rightarrow> 'e neo_state res" where
  "neo_step K cs (Neo_Stats sk tp) (dp, w) = rbind (sock_ref w sk) (\<lambda>s.
     Inr (dp, sock_put w sk (s\<lparr>sk_tp := tp\<rparr>)))"
| "neo_step K cs (Neo_Ack sk rs) (dp, w) = neo_cong_control dp sk rs w"
| "neo_step K cs (Neo_Ssthresh sk) (dp, w) = rbind (sock_ref w sk) (\<lambda>s.
     rbind (neo_ssthresh K (sk_tp s) (sk_ca s)) (\<lambda>(_, tp, ca).
       Inr (dp, sock_put w sk \<lparr>sk_tp = tp, sk_ca = ca\<rparr>)))"
| "neo_step K cs (Neo_State sk st) (dp, w) = rbind (sock_ref w sk) (\<lambda>s.
     Inr (dp, sock_put w sk (s\<lparr>sk_ca := neo_set_state K (sk_tp s) (sk_ca s) st\<rparr>)))"
| "neo_step K cs (Neo_Sample sk smp) (dp, w) = rbind (sock_ref w sk) (\<lambda>s.
     let (tp, ca) = neo_pkt_acked (sk_tp s) (sk_ca s) smp in Inr (dp, sock_put w sk \<lparr>sk_tp = tp, sk_ca = ca\<rparr>))"
| "neo_step K cs (Neo_Undo sk) (dp, w) = rbind (sock_ref w sk) (\<lambda>s.
     Inr (dp, sock_put w sk (s\<lparr>sk_tp := (sk_tp s)\<lparr>snd_cwnd := neo_undo_cwnd (sk_tp s)\<rparr>\<rparr>)))"
| "neo_step K cs (Neo_Packet p) (dp, w) =
     rbind (spine_nl_recv (Some (spine_read_msg cs)) (Some dp) (nl_packet p)) (\<lambda>dp'.
     rbind (deref dp') (\<lambda>dp1. Inr (dp1, w)))"

fun neo_allowed :: "(nat \<Rightarrow> nat option option) \<Rightarrow> neo_event \<Rightarrow> bool" where
  "neo_allowed C (Neo_Stats sk tp) \<longleftrightarrow> C sk \<noteq> None \<and> mss_cache tp \<noteq> 0"
| "neo_allowed C (Neo_Ack sk rs) \<longleftrightarrow> C sk \<noteq> None"
| "neo_allowed C (Neo_Ssthresh sk) \<longleftrightarrow> C sk \<noteq> None"
| "neo_allowed C (Neo_State sk st) \<longleftrightarrow> C sk \<noteq> None"
| "neo_allowed C (Neo_Sample sk smp) \<longleftrightarrow> C sk \<noteq> None"
| "neo_allowed C (Neo_Undo sk) \<longleftrightarrow> C sk \<noteq> None"
| "neo_allowed C (Neo_Packet p) \<longleftrightarrow> controller_payload p"

lemma ring_ok_set_state [simp]: "ring_ok (neo_set_state K tp neo st) = ring_ok neo"
  by (simp add: neo_set_state_def ring_ok_def Let_def)

lemma conn_set_state [simp]: "neo_conn (neo_set_state K tp neo st) = neo_conn neo"
  by (simp add: neo_set_state_def Let_def)

text \<open>Every event keeps the invariant and the size of the table.\<close>

lemma neo_step_ok:
  fixes T :: "('e, 'ts) time_api"
  assumes ok: "neo_ok T tzero N C (dp, w)" and e: "neo_allowed C e"
  shows "\<exists>dp' w'. neo_step K cs e (dp, w) = Inr (dp', w') \<and> neo_ok T tzero N C (dp', w') \<and>
    length (slots dp') = length (slots dp)"
proof -
  have dp: "neo_dp_ok T tzero N C dp" and w: "neo_good C (kw_socks w)"
    using ok by (simp_all add: neo_ok_def)
  have sock: "\<exists>s. kw_socks w sk = Some s \<and> mss_cache (sk_tp s) \<noteq> 0 \<and> ring_ok (sk_ca s)"
    if "C sk \<noteq> None" for sk
    using that w by (meson socks_ok_get not_Some_eq neo_sock_ok_def)
  show ?thesis
  proof (cases e)
    case (Neo_Stats sk tp)
    with e sock [of sk] obtain t where t: "kw_socks w sk = Some t" "ring_ok (sk_ca t)" by auto
    with Neo_Stats e dp socks_ok_put [OF w t(1), of "t\<lparr>sk_tp := tp\<rparr>"] show ?thesis
      by (simp add: neo_ok_def neo_sock_ok_def)
  next
    case (Neo_Ack sk rs)
    with e obtain c where "C sk = Some c" by auto
    from neo_cong_control_ok [OF dp w this, of rs] Neo_Ack show ?thesis by auto
  next
    case (Neo_Ssthresh sk)
    with e sock [of sk] obtain t where t: "kw_socks w sk = Some t" "mss_cache (sk_tp t) \<noteq> 0" "ring_ok (sk_ca t)"
      by auto
    obtain r tp' ca' where "neo_ssthresh K (sk_tp t) (sk_ca t) = Inr (r, tp', ca')" "ring_ok ca'"
      "neo_conn ca' = neo_conn (sk_ca t)" "mss_cache tp' = mss_cache (sk_tp t)"
      using neo_ssthresh_ok [OF t(3), of K "sk_tp t"] by blast
    with Neo_Ssthresh dp t socks_ok_put [OF w t(1), of "\<lparr>sk_tp = tp', sk_ca = ca'\<rparr>"] show ?thesis
      by (simp add: neo_ok_def neo_sock_ok_def)
  next
    case (Neo_State sk st)
    with e sock [of sk] obtain t where t: "kw_socks w sk = Some t" "mss_cache (sk_tp t) \<noteq> 0" "ring_ok (sk_ca t)"
      by auto
    with Neo_State dp
      socks_ok_put [OF w t(1), of "t\<lparr>sk_ca := neo_set_state K (sk_tp t) (sk_ca t) st\<rparr>"]
    show ?thesis by (simp add: neo_ok_def neo_sock_ok_def)
  next
    case (Neo_Sample sk smp)
    with e sock [of sk] obtain t where t: "kw_socks w sk = Some t" "mss_cache (sk_tp t) \<noteq> 0" "ring_ok (sk_ca t)"
      by auto
    with Neo_Sample dp socks_ok_put [OF w t(1), of "\<lparr>sk_tp = sk_tp t, sk_ca = sk_ca t\<rparr>"] show ?thesis
      by (simp add: neo_ok_def neo_sock_ok_def neo_pkt_acked_def)
  next
    case (Neo_Undo sk)
    with e sock [of sk] obtain t where t: "kw_socks w sk = Some t" "mss_cache (sk_tp t) \<noteq> 0" "ring_ok (sk_ca t)"
      by auto
    with Neo_Undo dp socks_ok_put [OF w t(1), of "t\<lparr>sk_tp := (sk_tp t)\<lparr>snd_cwnd := neo_undo_cwnd (sk_tp t)\<rparr>\<rparr>"]
    show ?thesis by (simp add: neo_ok_def neo_sock_ok_def)
  next
    case (Neo_Packet p)
    with flows_ok_recv [OF dp, of p cs] e w show ?thesis by (auto simp: neo_ok_def)
  qed
qed

interpretation neo_machine: machine "neo_step K cs" "neo_ok T tzero N C" "neo_allowed C"
  for K cs and T :: "('e, 'ts) time_api" and tzero :: 'ts and N :: "'e nl_api" and C
proof
  fix s :: "'e neo_state" and e
  assume "neo_ok T tzero N C s" and "neo_allowed C e"
  then show "\<exists>s'. neo_step K cs e s = Inr s' \<and> neo_ok T tzero N C s'"
    using neo_step_ok [of T tzero N C "fst s" "snd s" e K cs] by auto
qed

text \<open>Established neo flows never fault: whatever statistics the stack reports (with a non-zero
  segment size), in whatever order it calls the acknowledgement, loss and state handlers, and
  whatever packets of the controller arrive in between, every handler returns (no NULL or freed
  pointer is followed, no array bound passed, no division by zero), and the invariant of the
  connection table and of every flow's ring is kept.\<close>

theorem neo_flows_never_fault:
  fixes T :: "('e, 'ts) time_api"
  assumes "neo_ok T tzero N C (dp, w)" and "list_all (neo_allowed C) es"
  shows "\<exists>dp' w'. run (neo_step K char_signed) es (dp, w) = Inr (dp', w') \<and> neo_ok T tzero N C (dp', w')"
  using neo_machine.run_safe [OF assms, of K char_signed] by auto

definition demo_neo_dp :: "u64 neo_world spine_datapath" where
  "demo_neo_dp = \<lparr>dp_set_params = Some neo_set_params, dp_fetch_measurements = Some neo_fetch_measurements,
     dp_send_msg = Some (kw_send demo_nl), dp_time_zero = 0, dp_now = Some (kw_now demo_time 0),
     dp_since_usecs = Some (kw_since demo_time 0), dp_after_usecs = Some (kw_after demo_time 0),
     dp_max_connections = 2, dp_connections = Some [demo_announced\<lparr>conn_state := PLive
       \<lparr>sent_create = True, pending_update = zero_update\<rparr>\<rparr>, zero_connection], dp_fto_us = 1000,
     dp_last_msg_sent = 0, dp_in_fallback = False\<rparr>"

definition demo_neo_world :: "u64 neo_world" where
  "demo_neo_world = \<lparr>kw_socks = [0 \<mapsto> \<lparr>sk_tp = demo_sock, sk_ca = demo_neo\<rparr>], kw_id = 1, kw_env = 5000\<rparr>"

definition demo_conns :: "nat \<Rightarrow> nat option option" where
  "demo_conns = [0 \<mapsto> Some 0]"

lemma slots_demo_neo [simp]: "slots demo_neo_dp = [demo_announced\<lparr>conn_state := PLive
    \<lparr>sent_create = True, pending_update = zero_update\<rparr>\<rparr>, zero_connection]"
  by (simp add: slots_def demo_neo_dp_def)

lemma demo_neo_wf: "neo_ok demo_time 0 demo_nl demo_conns (demo_neo_dp, demo_neo_world)"
proof -
  have c: "conn_wf 0 (demo_announced\<lparr>conn_state := PLive \<lparr>sent_create = True, pending_update = zero_update\<rparr>\<rparr>)"
    unfolding demo_announced_def using conn_wf_demo_used [of 0]
    by (simp add: conn_wf_def)
  have "neo_good demo_conns (kw_socks demo_neo_world)"
    using demo_neo_ok(1) by (auto simp: socks_ok_def neo_sock_ok_def demo_conns_def demo_neo_world_def demo_neo_def demo_sock_def)
  moreover have "dp_wf demo_neo_dp"
    unfolding dp_wf_def slots_demo_neo using c by (simp add: demo_neo_dp_def less_Suc_eq)
  ultimately show ?thesis
    by (auto simp: neo_ok_def flows_ok_def uses_env_def uses_cc_def demo_conns_def live_slot_def
        demo_announced_def less_Suc_eq) (simp_all add: demo_neo_dp_def)
qed

theorem neo_flows_never_fault_witness:
  "\<exists>dp' w'. run (neo_step demo_tcp True) [Neo_Ack 0 \<lparr>rs_delivered = 1, rs_interval_us = 1, rs_acked_sacked = 1\<rparr>,
      Neo_State 0 TCP_CA_Loss, Neo_Ssthresh 0] (demo_neo_dp, demo_neo_world) = Inr (dp', w') \<and>
    neo_ok demo_time 0 demo_nl demo_conns (dp', w')"
  by (rule neo_flows_never_fault [OF demo_neo_wf]) (simp add: demo_conns_def)

section \<open>From the controller to the rate\<close>

text \<open>The answer to a request: the report as one message to the transport.\<close>

lemma neo_answer:
  fixes w :: "'e neo_world"
  assumes "i < length (slots dp)" and "dp_fetch_measurements dp = Some neo_fetch_measurements"
    and "dp_send_msg dp = Some (kw_send N)" and "kw_socks w (conn_impl (slots dp ! i)) = Some s"
    and "ring_ok (sk_ca s)" and "conn_index (slots dp ! i) \<noteq> 0"
    and "nlmsg_new N 96 (kw_env w) = (True, e1)" and "\<And>msg. 0 \<le> fst (nlmsg_multicast N msg e1)"
    and "measure_is_pending up"
  shows "\<exists>msg. answer_measure_request dp i (slots dp ! i) up w =
      Inr (0, dp, w\<lparr>kw_env := snd (nlmsg_multicast N msg e1)\<rparr>) \<and>
    msg = header_bytes \<lparr>hdr_Type = MEASURE, hdr_Len = 96, hdr_SocketId = ucast (conn_index (slots dp ! i))\<rparr> @
      to_le 4 (ucast (measure_registers up) :: u32) @
      to_le 4 (word_of_nat (length (neo_report_of (sk_ca s))) :: u32) @
      concat (map (to_le 8) (neo_report_of (sk_ca s)))"
proof -
  let ?c = "slots dp ! i" and ?rep = "neo_report_of (sk_ca s)" and ?req = "ucast (measure_registers up) :: u32"
  let ?ms = "?rep @ drop 10 (replicate MAX_MEASUREMENT_FIELDS 0)"
  let ?msg = "header_bytes \<lparr>hdr_Type = MEASURE, hdr_Len = 96, hdr_SocketId = ucast (conn_index ?c)\<rparr> @
      to_le 4 ?req @ to_le 4 (word_of_nat (length ?rep) :: u32) @ concat (map (to_le 8) ?rep)"
  have fetch: "neo_fetch_measurements ?c (replicate MAX_MEASUREMENT_FIELDS 0) 0 ?req w = Inr (?ms, 10, w)"
    using neo_fetch_eq [OF assms(4,5)] by simp
  obtain m where pr: "print_measurements ?rep 0 = Inr m"
    using print_measurements_ok [of 0 ?rep] by auto
  have len: "length ?msg = 96" by simp
  have "write_measure_msg (replicate REPORT_MSG_SIZE 0) (int REPORT_MSG_SIZE) (ucast (conn_index ?c)) ?req
      (Some ?ms) 10 = Inr (96, ?msg @ drop 96 (replicate REPORT_MSG_SIZE 0))"
    using write_measure_msg_ok [of 10 ?ms "replicate 900 0" "ucast (conn_index ?c)" ?req]
    by (simp add: REPORT_MSG_SIZE_def MAX_MEASUREMENT_FIELDS_def del: to_le.simps)
  moreover have "kw_send N (?msg @ drop 96 (replicate REPORT_MSG_SIZE 0)) 96 w =
      Inr (0, w\<lparr>kw_env := snd (nlmsg_multicast N ?msg e1)\<rparr>)"
  proof -
    have "memcpy_from (?msg @ drop 96 (replicate REPORT_MSG_SIZE 0)) 0 96 = Inr ?msg"
      using len by (simp only: memcpy_from_def) simp
    then show ?thesis
      using assms(7) assms(8) [of ?msg] by (cases "nlmsg_multicast N ?msg e1") (simp add: kw_send_def nl_sendmsg_def)
  qed
  moreover have "\<not> conn_index ?c < 1" using assms(6) by (simp add: word_less_nat_alt unat_gt_0)
  ultimately have "send_measurement dp i ?req ?ms 10 w = Inr (0, dp, w\<lparr>kw_env := snd (nlmsg_multicast N ?msg e1)\<rparr>)"
    using assms(1,3) by (simp add: send_measurement_def)
  then have "answer_measure_request dp i ?c up w = Inr (0, dp, w\<lparr>kw_env := snd (nlmsg_multicast N ?msg e1)\<rparr>)"
    using assms(2,9) fetch pr by (simp add: answer_measure_request_def)
  then show ?thesis by blast
qed

text \<open>C14: A rate command reaches its flow: when the packet send_neo_message builds for an announced
  connection with an empty mailbox is received and the module then invokes the library, the
  requested rate of exactly that connection's socket becomes the commanded one - the current rate
  times 1.025 plus 1, times 0.976 minus 1, or unchanged - nothing else of any socket changes, and
  the mailbox is empty again.\<close>

theorem neo_command_reaches_rate:
  fixes T :: "('e, 'ts) time_api"
  assumes "neo_dp_ok T tzero N C dp" and "C sk = Some (Some i)"
    and "conn_state (slots dp ! i) = PLive \<lparr>sent_create = True, pending_update = zero_update\<rparr>"
    and "fi_alg (flow_info (slots dp ! i)) = SPINE_NEO"
    and "conn_index (slots dp ! i) = ucast sid" and "(ucast sid :: u16) \<noteq> 0"
    and "kw_socks w sk = Some s"
  shows "\<exists>dp1 dp2. spine_nl_recv (Some (spine_read_msg char_signed)) (Some dp)
      (nl_packet (update_packet sid [control_field 0 action])) = Inr (Some dp1) \<and>
    spine_invoke dp1 (Some i) w = Inr (0, dp2, sock_put w sk (s\<lparr>sk_ca := (sk_ca s)
      \<lparr>ready_rate := neo_action action (neo_rate (sk_ca s))\<rparr>\<rparr>)) \<and>
    pending_of dp2 i = zero_update"
proof -
  have "command_fields [action] = [control_field 0 action]" by (simp add: command_fields_def)
  with assms show ?thesis
    by (intro command_delivered [OF assms(1-3,5,6), where ps = "[action]"])
      (simp_all add: MAX_CONTROL_REG_def neo_set_params_eq)
qed

theorem neo_command_reaches_rate_witness:
  "\<exists>dp1 dp2. spine_nl_recv (Some (spine_read_msg True)) (Some demo_neo_dp)
      (nl_packet (update_packet 1 [control_field 0 1])) = Inr (Some dp1) \<and>
    spine_invoke dp1 (Some 0) demo_neo_world = Inr (0, dp2, sock_put demo_neo_world 0
      (\<lparr>sk_tp = demo_sock, sk_ca = demo_neo\<rparr>\<lparr>sk_ca := (sk_ca \<lparr>sk_tp = demo_sock, sk_ca = demo_neo\<rparr>)
      \<lparr>ready_rate := neo_action 1 (neo_rate (sk_ca \<lparr>sk_tp = demo_sock, sk_ca = demo_neo\<rparr>))\<rparr>\<rparr>)) \<and>
    pending_of dp2 0 = zero_update"
proof (rule neo_command_reaches_rate)
  show "neo_dp_ok demo_time 0 demo_nl demo_conns demo_neo_dp"
    using demo_neo_wf by (simp add: neo_ok_def)
qed (simp_all add: demo_conns_def demo_neo_world_def demo_announced_def demo_used_def fresh_conn_def demo_info_def)



text \<open>The two rate commands move the rate strictly and as advertised: for any rate of at least 2
  bytes per second whose product with 1025 fits 64 bits, the first gives 1.025 times the rate
  (rounded down) plus 1, which is more, the second 0.976 times the rate minus 1, which is less,
  and every other command leaves it alone.\<close>

theorem neo_action_moves_rate:
  assumes "2 \<le> unat r" and "unat r * 1025 < 2 ^ 64"
  shows "unat (neo_action 1 r) = unat r * 1025 div 1000 + 1 \<and> r < neo_action 1 r \<and>
    unat (neo_action 2 r) = unat r * 976 div 1000 - 1 \<and> neo_action 2 r < r \<and>
    (a \<noteq> 1 \<and> a \<noteq> 2 \<longrightarrow> neo_action a r = r)"
proof -
  define x y where "x = unat r * 1025 div 1000" and "y = unat r * 976 div 1000"
  have eqs: "neo_action 1 r = r * 1025 div 1000 + 1" "neo_action 2 r = r * 976 div 1000 - 1"
    "a \<noteq> 1 \<and> a \<noteq> 2 \<longrightarrow> neo_action a r = r"
    by (simp_all add: neo_action_def NEO_ACTION_INCREASE_def NEO_ACTION_DECREASE_def NEO_SCALE_def)
  have up: "unat (r * 1025 div 1000) = x"
    using assms(2) by (simp add: x_def unat_div unat_mult_exact)
  have down: "unat (r * 976 div 1000) = y"
    using assms(2) by (simp add: y_def unat_div unat_mult_exact)
  have le: "unat r \<le> x" "y \<le> unat r"
    using div_le_mono [of "unat r * 1000" "unat r * 1025" 1000]
      div_le_mono [of "unat r * 976" "unat r * 1000" 1000] by (simp_all add: x_def y_def)
  have y1: "1 \<le> y" using assms(1) div_le_mono [of "2 * 976" "unat r * 976" 1000] by (simp add: y_def)
  have "x * 1000 \<le> unat r * 1025" unfolding x_def by (rule div_times_less_eq_dividend)
  then have x1: "x + 1 < 2 ^ 64" using assms(2) by simp
  have A: "unat (neo_action 1 r) = x + 1"
    unfolding eqs using up x1 by (subst unat_add_exact) simp_all
  have "r * 976 div 1000 \<noteq> 0" using down y1 by auto
  then have B: "unat (neo_action 2 r) = y - 1"
    unfolding eqs using down by (simp add: unat_minus_one)
  have "unat r < x + 1" "y - 1 < unat r" using le y1 assms(1) by simp_all
  then show ?thesis
    unfolding word_less_nat_alt A B x_def [symmetric] y_def [symmetric] using eqs(3) by simp
qed

theorem neo_action_moves_rate_witness:
  "unat (neo_action 1 (5000 :: u64)) = unat (5000 :: u64) * 1025 div 1000 + 1 \<and> 5000 < neo_action 1 5000 \<and>
    unat (neo_action 2 (5000 :: u64)) = unat (5000 :: u64) * 976 div 1000 - 1 \<and> neo_action 2 5000 < 5000 \<and>
    neo_action 7 5000 = 5000"
  using neo_action_moves_rate [of 5000 7] by simp

section \<open>Opening and closing a flow\<close>

lemma neo_init_ring:
  "ring_ok (neo_init_fields i ca)" "neo_conn (neo_init_fields i ca) = neo_conn ca"
  by (simp_all add: ring_ok_def neo_init_fields_def NEO_INTERVALS_def)

lemma neo_init_idx [simp]:
  "send_index (neo_init_fields i ca) = 0" "receive_index (neo_init_fields i ca) = 0"
  by (simp_all add: neo_init_fields_def)

lemma neo_init_ok:
  fixes T :: "('e, 'ts) time_api"
  assumes "neo_ok T tzero N C (dp, w)" and "C sk = None" and "mss_cache (sk_tp s) \<noteq> 0"
    and "\<forall>e. fst (A e)" and "\<forall>tp. mss_cache (INET_ECN_dontxmit K tp) = mss_cache tp"
    and "Suc j < length (slots dp)" and "conn_index (slots dp ! j) = 0"
    and "\<forall>i < j. conn_index (slots dp ! i) \<noteq> 0"
  shows "\<exists>dp' w' s'. neo_init K A dp sk (sock_put w sk s) = Inr (dp', w') \<and>
    neo_ok T tzero N (C(sk \<mapsto> Some j)) (dp', w') \<and> kw_socks w' sk = Some s' \<and>
    sending (sk_ca s') \<and> outstanding (sk_ca s') = 0 \<and> sk_pacing_status (sk_tp s') \<noteq> SK_PACING_NONE \<and>
    length (slots dp') = length (slots dp)"
proof -
  have dp: "neo_dp_ok T tzero N C dp" and w: "neo_good C (kw_socks w)"
    using assms(1) by (simp_all add: neo_ok_def)
  let ?w = "sock_put w sk s"
  obtain w1 where a1: "kw_alloc A ?w = (True, w1)"
    using assms(4) [rule_format, of "kw_env ?w"] by (cases "A (kw_env ?w)") (auto simp: kw_alloc_def)
  let ?w2 = "w1\<lparr>kw_id := kw_id w1 + 1\<rparr>"
  let ?ca1 = "neo_init_fields (kw_id ?w2) (neo_reset (sk_ca s))"
  obtain tp1 ca2 where st: "start_interval (sk_tp s) ?ca1 = Inr (tp1, ca2)" and ring: "ring_ok ca2"
    and sending: "sending ca2" and idx: "send_index ca2 = 0" "receive_index ca2 = 0"
    and stats: "same_stats (sk_tp s) tp1"
    using start_interval_sending [OF neo_init_ring(1) assms(3)]
    by (metis neo_init_idx)
  have mss1: "mss_cache tp1 \<noteq> 0" using same_stats_fields [OF stats] assms(3) by simp
  let ?w3 = "sock_put ?w2 sk \<lparr>sk_tp = tp1, sk_ca = ca2\<rparr>"
  obtain w4 where a2: "kw_alloc A ?w3 = (True, w4)"
    using assms(4) [rule_format, of "kw_env ?w3"] by (cases "A (kw_env ?w3)") (auto simp: kw_alloc_def)
  have socks4: "kw_socks w4 = kw_socks ?w3" using a2 by (rule kw_alloc_socks)
  let ?info = "dp_info_of tp1 ''neo'' SPINE_NEO"
  have info: "length (fi_congAlg ?info) = MAX_CONG_ALG_SIZE"
    by (simp add: dp_info_of_def MAX_CONG_ALG_SIZE_def)
  obtain dp5 w5 where start: "spine_connection_start (kw_alloc A) dp sk ?info ?w3 = Inr (Some j, dp5, w5)"
    and socks5: "kw_socks w5 = kw_socks w4" and dp5: "neo_dp_ok T tzero N (C(sk \<mapsto> Some j)) dp5"
    and len: "length (slots dp5) = length (slots dp)"
    using flows_ok_start [where sk = sk and kcalloc = "kw_alloc A" and w = ?w3, OF dp assms(2,6-8) a2 info] by blast
  define tp2 where "tp2 = (if ecn_flags tp1 AND TCP_ECN_OK = 0 then INET_ECN_dontxmit K tp1 else tp1)"
  have mss2: "mss_cache tp2 \<noteq> 0" using mss1 assms(5) by (simp add: tp2_def)
  let ?s' = "\<lparr>sk_tp = need_pacing tp2, sk_ca = ca2\<lparr>neo_conn := Some j\<rparr>\<rparr>"
  have sk5: "kw_socks w5 sk = Some \<lparr>sk_tp = tp1, sk_ca = ca2\<rparr>" using socks4 socks5 by simp
  have init: "neo_init K A dp sk ?w = Inr (dp5, sock_put w5 sk ?s')"
    using a1 st start sk5 by (simp add: neo_init_def tp2_def Let_def)
  have others: "kw_socks w5 = (kw_socks w)(sk \<mapsto> \<lparr>sk_tp = tp1, sk_ca = ca2\<rparr>)"
    using kw_alloc_socks [OF a1] socks4 socks5 by simp
  have need_pacing_mss: "mss_cache (need_pacing tp2) \<noteq> 0" using mss2 by simp
  have good: "neo_good (C(sk \<mapsto> Some j)) (kw_socks (sock_put w5 sk ?s'))"
    using socks_ok_add [OF w, of ?s' sk] mss2 ring others by (simp add: neo_sock_ok_def need_pacing_mss)
  have "sending (sk_ca ?s')" "outstanding (sk_ca ?s') = 0" "sk_pacing_status (sk_tp ?s') \<noteq> SK_PACING_NONE"
    using sending idx by (simp_all add: sending_def outstanding_def NEO_INTERVALS_def need_pacing_def)
  with init dp5 len good show ?thesis by (auto simp: neo_ok_def)
qed

text \<open>Opening a flow establishes the invariant: with memory available and a free slot before the
  last, the initialisation of a new socket with a non-zero segment size returns, the socket gets
  the first free slot as its connection, its ring is in order with both indices at 0 and its
  first interval open, and every other flow keeps its invariant.\<close>

theorem neo_init_opens_flow:
  fixes T :: "('e, 'ts) time_api"
  assumes "neo_ok T tzero N C (dp, w)" and "C sk = None" and "mss_cache (sk_tp s) \<noteq> 0"
    and "\<forall>e. fst (A e)" and "\<forall>tp. mss_cache (INET_ECN_dontxmit K tp) = mss_cache tp"
    and "Suc j < length (slots dp)" and "conn_index (slots dp ! j) = 0"
    and "\<forall>i < j. conn_index (slots dp ! i) \<noteq> 0"
  shows "\<exists>dp' w' s'. neo_init K A dp sk (sock_put w sk s) = Inr (dp', w') \<and>
    neo_ok T tzero N (C(sk \<mapsto> Some j)) (dp', w') \<and> kw_socks w' sk = Some s' \<and>
    sending (sk_ca s') \<and> outstanding (sk_ca s') = 0 \<and> sk_pacing_status (sk_tp s') \<noteq> SK_PACING_NONE"
  using neo_init_ok [OF assms] by blast

definition demo_idle_dp :: "u64 neo_world spine_datapath" where
  "demo_idle_dp = demo_neo_dp\<lparr>dp_connections := Some [zero_connection, zero_connection]\<rparr>"

definition demo_idle_world :: "u64 neo_world" where
  "demo_idle_world = demo_neo_world\<lparr>kw_socks := (\<lambda>_. None)\<rparr>"

lemma demo_idle_ok: "neo_ok demo_time 0 demo_nl (\<lambda>_. None) (demo_idle_dp, demo_idle_world)"
proof -
  have sl: "slots demo_idle_dp = [zero_connection, zero_connection]"
    by (simp add: demo_idle_dp_def slots_def)
  have "dp_wf demo_idle_dp"
    unfolding dp_wf_def sl by (simp add: demo_idle_dp_def demo_neo_dp_def less_Suc_eq)
  then show ?thesis
    by (simp add: neo_ok_def flows_ok_def sl socks_ok_def less_Suc_eq demo_idle_world_def)
      (simp add: demo_idle_dp_def demo_neo_dp_def uses_env_def uses_cc_def)
qed

theorem neo_init_opens_flow_witness:
  "\<exists>dp' w' s'. neo_init demo_tcp (\<lambda>e. (True, e)) demo_idle_dp 0
      (sock_put demo_idle_world 0 \<lparr>sk_tp = demo_sock, sk_ca = demo_neo\<rparr>) = Inr (dp', w') \<and>
    neo_ok demo_time 0 demo_nl ((\<lambda>_. None)(0 \<mapsto> Some 0)) (dp', w') \<and> kw_socks w' 0 = Some s' \<and>
    sending (sk_ca s') \<and> outstanding (sk_ca s') = 0 \<and> sk_pacing_status (sk_tp s') \<noteq> SK_PACING_NONE"
  by (rule neo_init_opens_flow [OF demo_idle_ok])
    (simp_all add: demo_sock_def demo_tcp_def demo_idle_dp_def slots_def)

lemma neo_release_ok:
  fixes T :: "('e, 'ts) time_api"
  assumes "neo_ok T tzero N C (dp, w)" and "C sk = Some (Some i)"
  shows "\<exists>dp' w' s'. neo_release dp sk w = Inr (dp', w') \<and> kw_socks w' sk = Some s' \<and>
    intervals (sk_ca s') = KFreed \<and>
    spine_connection_lookup dp' (conn_index (slots dp ! i)) = Inr None \<and>
    neo_ok T tzero N (C(sk := None)) (dp', w'\<lparr>kw_socks := (kw_socks w')(sk := None)\<rparr>) \<and>
    length (slots dp') = length (slots dp)"
proof -
  have dp: "neo_dp_ok T tzero N C dp" and w: "neo_good C (kw_socks w)"
    using assms(1) by (simp_all add: neo_ok_def)
  obtain s where s: "kw_socks w sk = Some s" "neo_conn (sk_ca s) = Some i" "neo_sock_ok s"
    by (rule socks_ok_get [OF w assms(2)])
  have i: "i < length (slots dp)" using flows_ok_conn(1) [OF dp assms(2)] by (rule live_slot_bound)
  obtain dp' w1 where free: "spine_connection_free dp (conn_index (slots dp ! i)) w = Inr (dp', w1)"
    and socks: "kw_socks w1 = kw_socks w"
    and none: "spine_connection_lookup dp' (conn_index (slots dp ! i)) = Inr None"
    and dp': "neo_dp_ok T tzero N (C(sk := None)) dp'" and len: "length (slots dp') = length (slots dp)"
    using flows_ok_free [OF dp assms(2), of w] by blast
  let ?s' = "s\<lparr>sk_ca := (sk_ca s)\<lparr>intervals := KFreed\<rparr>\<rparr>"
  let ?w' = "(sock_put w1 sk ?s')\<lparr>kw_id := kw_id w1 - 1\<rparr>"
  have "intervals (sk_ca s) = KLive (ring (sk_ca s))"
    using s(3) by (simp add: neo_sock_ok_def ring_okD)
  then have rel: "neo_release dp sk w = Inr (dp', ?w')"
    using s(1,2) i free by (simp add: neo_release_def)
  have "neo_good (C(sk := None)) ((kw_socks ?w')(sk := None))"
    using socks_ok_remove [OF w, of sk] socks by simp
  with dp' have "neo_ok T tzero N (C(sk := None)) (dp', ?w'\<lparr>kw_socks := (kw_socks ?w')(sk := None)\<rparr>)"
    by (simp add: neo_ok_def)
  then show ?thesis using rel none len by (intro exI [of _ dp'] exI [of _ ?w'] exI [of _ ?s']) simp
qed

text \<open>Closing a flow gives its slot back: the release of an established socket returns, its
  connection's number is unknown afterwards, the ring is freed, and once the socket is gone every
  other flow keeps its invariant.\<close>

theorem neo_release_closes_flow:
  fixes T :: "('e, 'ts) time_api"
  assumes "neo_ok T tzero N C (dp, w)" and "C sk = Some (Some i)"
  shows "\<exists>dp' w' s'. neo_release dp sk w = Inr (dp', w') \<and> kw_socks w' sk = Some s' \<and>
    intervals (sk_ca s') = KFreed \<and>
    spine_connection_lookup dp' (conn_index (slots dp ! i)) = Inr None \<and>
    neo_ok T tzero N (C(sk := None)) (dp', w'\<lparr>kw_socks := (kw_socks w')(sk := None)\<rparr>)"
  using neo_release_ok [OF assms] by blast

theorem neo_release_closes_flow_witness:
  "\<exists>dp' w' s'. neo_release demo_neo_dp 0 demo_neo_world = Inr (dp', w') \<and> kw_socks w' 0 = Some s' \<and>
    intervals (sk_ca s') = KFreed \<and>
    spine_connection_lookup dp' (conn_index (slots demo_neo_dp ! 0)) = Inr None \<and>
    neo_ok demo_time 0 demo_nl (demo_conns(0 := None)) (dp', w'\<lparr>kw_socks := (kw_socks w')(0 := None)\<rparr>)"
  by (rule neo_release_closes_flow [OF demo_neo_wf]) (simp add: demo_conns_def)

text \<open>C37: A flow whose interval ring could not be allocated is not usable: its initialisation
  returns as if nothing had happened, and the first loss makes the threshold handler follow the
  NULL pointer.\<close>

theorem neo_failed_init_then_loss_faults:
  assumes "kw_socks w sk = Some s" and "A (kw_env w) = (False, e)"
  shows "\<exists>w' s'. neo_init K A dp sk w = Inr (dp, w') \<and> kw_socks w' sk = Some s' \<and>
    neo_ssthresh K (sk_tp s') (sk_ca s') = Inl Null_Deref"
proof -
  let ?ca = "(neo_reset (sk_ca s))\<lparr>intervals := KNull\<rparr>"
  let ?tp = "(sk_tp s)\<lparr>snd_cwnd := snd_cwnd (sk_tp s) * 717 div 1000\<rparr>"
  obtain r st where "neo_update_pacing_rate K ?tp = Inr (?tp\<lparr>sk_pacing_status := st, sk_pacing_rate := r\<rparr>)"
    using neo_update_pacing_rate_ok by blast
  then have "neo_ssthresh K (sk_tp s) ?ca = Inl Null_Deref"
    by (simp add: neo_ssthresh_def neo_reset_def neo_adopt_rate_def interval_ref_def)
  then show ?thesis using assms by (simp add: neo_init_def kw_alloc_def)
qed

theorem neo_failed_init_then_loss_faults_witness:
  "\<exists>w' s'. neo_init demo_tcp (\<lambda>e. (False, e)) demo_neo_dp 0 demo_neo_world = Inr (demo_neo_dp, w') \<and>
    kw_socks w' 0 = Some s' \<and> neo_ssthresh demo_tcp (sk_tp s') (sk_ca s') = Inl Null_Deref"
  by (rule neo_failed_init_then_loss_faults [where s = "\<lparr>sk_tp = demo_sock, sk_ca = demo_neo\<rparr>"])
    (simp_all add: demo_neo_world_def)

end
