(* ===== verification/Vanilla.thy ===== *)
theory Vanilla
  imports Netlink
begin

text \<open>
  tcp_vanilla.c: the window-based module. A flow keeps the smallest round-trip time seen, a
  fixed-point counter of pending window change (in units of 1/1024 segment) and four parameters
  set by user space. Each function of the source is a definition on the TCP state and the
  module's private area; the handlers that call the library also take the datapath and the world.
\<close>

section \<open>Constants and state\<close>

definition VANILLA_SCALE :: u32 where [c_consts]: "VANILLA_SCALE = 1024"
definition VANILLA_PARAM_NUM :: u8 where [c_consts]: "VANILLA_PARAM_NUM = 4"

record vanilla =
  min_rtt_us :: u32
  van_cnt :: s32
  van_prev_ca_state :: tcp_ca_state
  van_in_recovery :: bool
  van_prior_cwnd :: u32
  van_r_cwnd :: u32
  van_alpha :: u16
  van_beta :: u16
  van_gamma :: u16
  van_delta :: u16
  van_slow_start_passed :: u8
  van_conn :: "nat option"

type_synonym 'e vanilla_world = "(vanilla, 'e) kworld"

section \<open>Parameters\<close>

text \<open>The argument is a 16-bit value: a caller's 64-bit parameter is truncated first.\<close>

definition check_param :: "u16 \<Rightarrow> bool" where
  "check_param val \<longleftrightarrow> \<not> (val \<le> 0 \<or> val > 1024)"

definition vanilla_store :: "u64 list \<Rightarrow> vanilla \<Rightarrow> vanilla res" where
  "vanilla_store params ca =
     rbind (array_get params 0) (\<lambda>a. rbind (array_get params 1) (\<lambda>b.
     rbind (array_get params 2) (\<lambda>g. rbind (array_get params 3) (\<lambda>d.
       Inr (ca\<lparr>van_alpha := ucast a, van_beta := ucast b, van_gamma := ucast (g * 2),
               van_delta := ucast d\<rparr>)))))"

text \<open>The loop over the parameters, which stops at the first invalid one.\<close>

fun check_params :: "u64 list \<Rightarrow> nat \<Rightarrow> bool res" where
  "check_params params 0 = Inr True"
| "check_params params (Suc n) =
     (case params of
        [] \<Rightarrow> Inl Out_Of_Bounds
      | p # ps \<Rightarrow> if check_param (ucast p) then check_params ps n else Inr False)"

definition vanilla_set_params :: "'e vanilla_world set_params_fn" where
  "vanilla_set_params conn params num_fields w =
     (if fi_alg (flow_info conn) \<noteq> SPINE_VANILLA \<or> num_fields \<noteq> VANILLA_PARAM_NUM then Inr w
      else rbind (check_params params (unat num_fields)) (\<lambda>ok.
        if \<not> ok then Inr w
        else let sk = get_sock_from_spine conn in
          rbind (sock_ref w sk) (\<lambda>s. rbind (vanilla_store params (sk_ca s)) (\<lambda>ca.
            Inr (sock_put w sk (s\<lparr>sk_ca := ca\<rparr>))))))"

section \<open>Rates and windows\<close>

definition vanilla_update_pacing_rate :: "tcp_api \<Rightarrow> tcp_sock \<Rightarrow> tcp_sock res" where
  "vanilla_update_pacing_rate K sk =
     (let tp = need_pacing sk;
          rate = scast (tcp_mss_to_mtu K tp (mss_cache tp)) * USEC_PER_SEC *
                 ucast (max (snd_cwnd tp) (packets_out tp));
          rtt = drop_bit 3 (srtt_us tp) in
      rbind (if rtt \<noteq> 0 then do_div rate rtt else Inr rate) (\<lambda>rate'.
        Inr (tp\<lparr>sk_pacing_rate := min rate' (sk_max_pacing_rate tp)\<rparr>)))"

text \<open>The window change whole segments of the counter amount to.\<close>

definition vanilla_exit_recovery :: "tcp_sock \<Rightarrow> vanilla \<Rightarrow> u32" where
  "vanilla_exit_recovery tp ca =
     (if van_prev_ca_state ca \<ge> TCP_CA_Recovery \<and> icsk_ca_state tp < TCP_CA_Recovery
      then max (snd_cwnd tp) (van_prior_cwnd ca) else snd_cwnd tp)"

definition vanilla_set_cwnd :: "tcp_api \<Rightarrow> tcp_sock \<Rightarrow> vanilla \<Rightarrow> u32 \<Rightarrow> (tcp_sock \<times> vanilla) res" where
  "vanilla_set_cwnd K tp ca acked =
     (let delta = s32_div (van_cnt ca) VANILLA_SCALE;
          cwnd0 = vanilla_exit_recovery tp ca;
          (ca1, cwnd1) = (if delta \<noteq> 0
             then (ca\<lparr>van_cnt := van_cnt ca - delta * VANILLA_SCALE\<rparr>, cwnd0 + delta)
             else (ca, cwnd0));
          cwnd2 = max cwnd1 10 in
      rbind (vanilla_update_pacing_rate K (tp\<lparr>snd_cwnd := min cwnd2 (snd_cwnd_clamp tp)\<rparr>)) (\<lambda>tp1.
        Inr (tp1, ca1)))"

definition spine_slow_start :: "tcp_api \<Rightarrow> tcp_sock \<Rightarrow> vanilla \<Rightarrow> u32 \<Rightarrow> (tcp_sock \<times> vanilla) res" where
  "spine_slow_start K tp ca acked =
     vanilla_set_cwnd K tp (ca\<lparr>van_cnt := van_cnt ca + acked * 500\<rparr>) acked"

section \<open>Handlers of the module\<close>

definition vanilla_release ::
  "'e vanilla_world spine_datapath \<Rightarrow> nat \<Rightarrow> 'e vanilla_world \<Rightarrow>
   ('e vanilla_world spine_datapath \<times> 'e vanilla_world) res" where
  "vanilla_release dp sk w = rbind (sock_ref w sk) (\<lambda>s.
     case van_conn (sk_ca s) of
       None \<Rightarrow> Inr (dp, w)
     | Some i \<Rightarrow> rbind (conn_ref dp i) (\<lambda>c. spine_connection_free dp (conn_index c) w))"

definition vanilla_reset :: "vanilla \<Rightarrow> vanilla" where
  "vanilla_reset ca = ca\<lparr>van_alpha := 50, van_beta := 200, van_gamma := 200, van_delta := 717,
     van_cnt := 0, min_rtt_us := 0x7fffffff, van_prev_ca_state := TCP_CA_Open,
     van_in_recovery := False, van_prior_cwnd := 0, van_r_cwnd := 0, van_slow_start_passed := 0\<rparr>"

definition vanilla_init ::
  "tcp_api \<Rightarrow> ('e \<Rightarrow> bool \<times> 'e) \<Rightarrow> 'e vanilla_world spine_datapath \<Rightarrow> nat \<Rightarrow> 'e vanilla_world \<Rightarrow>
   ('e vanilla_world spine_datapath \<times> 'e vanilla_world) res" where
  "vanilla_init K A dp sk w = rbind (sock_ref w sk) (\<lambda>s.
     let ca0 = vanilla_reset (sk_ca s) in
     rbind (spine_connection_start (kw_alloc A) dp sk (dp_info_of (sk_tp s) ''vanilla'' SPINE_VANILLA)
              (sock_put w sk (s\<lparr>sk_ca := ca0\<rparr>))) (\<lambda>(conn, dp1, w1).
     rbind (sock_ref w1 sk) (\<lambda>s1.
       let tp = sk_tp s1;
           tp1 = (if ecn_flags tp AND TCP_ECN_OK = 0 then INET_ECN_dontxmit K tp else tp) in
       Inr (dp1, sock_put w1 sk \<lparr>sk_tp = need_pacing tp1, sk_ca = (sk_ca s1)\<lparr>van_conn := conn\<rparr>\<rparr>))))"

definition vanilla_cong_avoid :: "tcp_sock \<Rightarrow> vanilla \<Rightarrow> u32 \<Rightarrow> u32 \<Rightarrow> tcp_sock \<times> vanilla" where
  "vanilla_cong_avoid tp ca ack acked = (tp, ca)"

definition vanilla_ssthresh :: "tcp_sock \<Rightarrow> vanilla \<Rightarrow> u32 \<times> tcp_sock \<times> vanilla" where
  "vanilla_ssthresh tp ca =
     (let ca1 = (if van_slow_start_passed ca = 0 then ca\<lparr>van_slow_start_passed := 1\<rparr> else ca);
          target = (ucast (van_delta ca1) * snd_cwnd tp) div VANILLA_SCALE;
          ca2 = ca1\<lparr>van_prior_cwnd := snd_cwnd tp\<rparr>;
          tp1 = tp\<lparr>snd_cwnd := min (max target 2) (snd_cwnd_clamp tp)\<rparr> in
      (snd_cwnd tp1, tp1, ca2))"

definition vanilla_set_state :: "vanilla \<Rightarrow> tcp_ca_state \<Rightarrow> vanilla" where
  "vanilla_set_state ca new_state =
     (if new_state = TCP_CA_Loss then ca\<lparr>van_prev_ca_state := TCP_CA_Loss\<rparr> else ca)"

definition vanilla_pkt_acked :: "vanilla \<Rightarrow> ack_sample \<Rightarrow> vanilla" where
  "vanilla_pkt_acked ca sample =
     (if sint (as_rtt_us sample) < 0 then ca
      else let vrtt = as_rtt_us sample + 1 in
        if vrtt < min_rtt_us ca then ca\<lparr>min_rtt_us := vrtt\<rparr> else ca)"

definition vanilla_undo_cwnd :: "tcp_api \<Rightarrow> tcp_sock \<Rightarrow> u32" where
  "vanilla_undo_cwnd K tp = tcp_reno_undo_cwnd K tp"

text \<open>The change of the counter an acknowledgement causes: the latency test, then the bounds.\<close>

definition vanilla_change :: "tcp_sock \<Rightarrow> vanilla \<Rightarrow> s32 res" where
  "vanilla_change tp ca =
     rbind (do_div (ucast (drop_bit 3 (srtt_us tp) * VANILLA_SCALE)) (min_rtt_us ca)) (\<lambda>lat_inflation.
       let change = (if lat_inflation > ucast (VANILLA_SCALE + ucast (van_gamma ca))
                     then - ucast (van_beta ca) else ucast (van_alpha ca) :: s32);
           c1 = min (sint change) 1024; c2 = max c1 (-512) in
       Inr (word_of_int c2))"

definition vanilla_control_end ::
  "tcp_api \<Rightarrow> 'e vanilla_world spine_datapath \<Rightarrow> nat \<Rightarrow> u32 \<Rightarrow> 'e vanilla_world \<Rightarrow>
   ('e vanilla_world spine_datapath \<times> 'e vanilla_world) res" where
  "vanilla_control_end K dp sk acked w = rbind (sock_ref w sk) (\<lambda>s.
     rbind (vanilla_change (sk_tp s) (sk_ca s)) (\<lambda>change.
     rbind (vanilla_set_cwnd K (sk_tp s) ((sk_ca s)\<lparr>van_cnt := van_cnt (sk_ca s) + change\<rparr>) acked)
       (\<lambda>(tp, ca). Inr (dp, sock_put w sk \<lparr>sk_tp = tp, sk_ca = ca\<rparr>))))"

definition vanilla_cong_control ::
  "tcp_api \<Rightarrow> 'e vanilla_world spine_datapath \<Rightarrow> nat \<Rightarrow> rate_sample \<Rightarrow> 'e vanilla_world \<Rightarrow>
   ('e vanilla_world spine_datapath \<times> 'e vanilla_world) res" where
  "vanilla_cong_control K dp sk rs w = rbind (sock_ref w sk) (\<lambda>s.
     let tp = sk_tp s; ca = sk_ca s; acked = rs_acked_sacked rs in
     if tcp_in_slow_start K tp \<and> van_slow_start_passed ca = 0
     then rbind (spine_slow_start K tp ca acked) (\<lambda>(tp1, ca1).
       Inr (dp, sock_put w sk \<lparr>sk_tp = tp1, sk_ca = ca1\<rparr>))
     else if sint (rs_delivered rs) < 0 \<or> sint (rs_interval_us rs) < 0 then Inr (dp, w)
     else rbind (case van_conn ca of
                   None \<Rightarrow> Inr (dp, w)
                 | Some i \<Rightarrow> rbind (spine_invoke dp (Some i) w) (\<lambda>(ok, dp', w'). Inr (dp', w')))
            (\<lambda>(dp1, w1). vanilla_control_end K dp1 sk acked w1))"

section \<open>Lemmas\<close>

lemma check_params_4:
  "check_params [a, b, g, d] 4 = Inr (check_param (ucast a) \<and> check_param (ucast b) \<and>
     check_param (ucast g) \<and> check_param (ucast d))"
  by (simp add: numeral_eq_Suc)

lemma check_param_range: "check_param v \<longleftrightarrow> 1 \<le> unat v \<and> unat v \<le> 1024"
  by (auto simp: check_param_def word_le_nat_alt word_less_nat_alt not_le Suc_le_eq unat_gt_0)

lemma vanilla_update_pacing_rate_ok:
  "\<exists>r st. vanilla_update_pacing_rate K tp = Inr (tp\<lparr>sk_pacing_status := st, sk_pacing_rate := r\<rparr>)"
  by (cases "drop_bit 3 (srtt_us tp) = 0"; cases "sk_pacing_status tp")
    (auto simp: vanilla_update_pacing_rate_def need_pacing_def Let_def intro!: exI tcp_sock.equality)

end
