(* ===== verification/Vanilla_Module.thy ===== *)
theory Vanilla_Module
  imports Vanilla Flow_Module Demo Command
begin

text \<open>
  Proofs on tcp_vanilla.c: its setter fulfils the contract of \<open>Flow_Module\<close> (the module
  registers no fetch callback), its flows never fault, and the arithmetic of its window control:
  the latency test, the fixed-point counter, the reaction to a loss.
\<close>

section \<open>Parameters\<close>

definition van_params_ok :: "vanilla \<Rightarrow> bool" where
  "van_params_ok ca \<longleftrightarrow> 1 \<le> unat (van_alpha ca) \<and> unat (van_alpha ca) \<le> 1024 \<and>
     1 \<le> unat (van_beta ca) \<and> unat (van_beta ca) \<le> 1024 \<and> unat (van_gamma ca) \<le> 2048 \<and>
     1 \<le> unat (van_delta ca) \<and> unat (van_delta ca) \<le> 1024"

definition vanilla_sock_ok :: "vanilla ksock \<Rightarrow> bool" where
  "vanilla_sock_ok s \<longleftrightarrow> min_rtt_us (sk_ca s) \<noteq> 0 \<and> van_params_ok (sk_ca s)"

abbreviation vanilla_good :: "(nat \<Rightarrow> nat option option) \<Rightarrow> (nat \<Rightarrow> vanilla ksock option) \<Rightarrow> bool" where
  "vanilla_good \<equiv> socks_ok van_conn vanilla_sock_ok"

abbreviation vanilla_dp_ok ::
  "('e, 'ts) time_api \<Rightarrow> 'ts \<Rightarrow> 'e nl_api \<Rightarrow> (nat \<Rightarrow> nat option option) \<Rightarrow> 'e vanilla_world spine_datapath \<Rightarrow> bool" where
  "vanilla_dp_ok \<equiv> flows_ok vanilla_set_params None"

definition vanilla_ok where
  "vanilla_ok T tzero N C = (\<lambda>(dp, w). vanilla_dp_ok T tzero N C dp \<and> vanilla_good C (kw_socks w))"

text \<open>The values a setter call stores.\<close>

definition vanilla_with :: "u64 list \<Rightarrow> vanilla \<Rightarrow> vanilla" where
  "vanilla_with ps ca = ca\<lparr>van_alpha := ucast (ps ! 0), van_beta := ucast (ps ! 1),
     van_gamma := ucast (ps ! 2 * 2), van_delta := ucast (ps ! 3)\<rparr>"

definition valid_params :: "u64 list \<Rightarrow> bool" where
  "valid_params ps \<longleftrightarrow> list_all (\<lambda>p. check_param (ucast p)) (take 4 ps)"

lemma check_params_eq:
  "n \<le> length ps \<Longrightarrow> check_params ps n = Inr (list_all (\<lambda>p. check_param (ucast p)) (take n ps))"
proof (induction ps n rule: check_params.induct)
  case (2 ps n)
  then show ?case by (cases ps) simp_all
qed simp

lemma vanilla_store_eq: "4 \<le> length ps \<Longrightarrow> vanilla_store ps ca = Inr (vanilla_with ps ca)"
  by (auto simp: vanilla_store_def vanilla_with_def array_get_def)

lemma vanilla_set_params_eq:
  assumes "kw_socks w (conn_impl c) = Some s" and "n = 4 \<Longrightarrow> 4 \<le> length ps"
  shows "vanilla_set_params c ps n w =
    (if fi_alg (flow_info c) = SPINE_VANILLA \<and> n = 4 \<and> valid_params ps
     then Inr (sock_put w (conn_impl c) (s\<lparr>sk_ca := vanilla_with ps (sk_ca s)\<rparr>)) else Inr w)"
  using assms by (simp add: vanilla_set_params_def VANILLA_PARAM_NUM_def get_sock_from_spine_def
      spine_get_impl_def check_params_eq vanilla_store_eq valid_params_def)

text \<open>Doubling a valid 16-bit parameter stays within 16 bits.\<close>

lemma unat_ucast_double:
  assumes "check_param (ucast (p :: u64))"
  shows "unat (ucast (p * 2) :: u16) = 2 * unat (ucast p :: u16)"
proof -
  have u: "unat (ucast p :: u16) = unat p mod 65536" "unat (ucast (p * 2) :: u16) = unat (p * 2) mod 65536"
    by (simp_all add: unsigned_ucast_eq take_bit_eq_mod)
  have "unat (p * 2) mod 65536 = (unat p * 2) mod 65536"
    by (simp add: unat_word_ariths mod_mod_cancel)
  also have "\<dots> = (unat p mod 65536 * 2) mod 65536" by (simp add: mod_mult_left_eq)
  also have "\<dots> = unat p mod 65536 * 2"
    using assms u(1) by (simp add: check_param_range)
  finally show ?thesis using u by simp
qed

lemma valid_params_ok:
  assumes "valid_params ps" and "4 \<le> length ps"
  shows "van_params_ok (vanilla_with ps ca)"
proof -
  obtain a b g d rest where ps: "ps = a # b # g # d # rest"
    using assms(2) by (auto simp: numeral_eq_Suc Suc_le_length_iff)
  then have "check_param (ucast a)" "check_param (ucast b)" "check_param (ucast g)" "check_param (ucast d)"
    using assms(1) by (simp_all add: valid_params_def numeral_eq_Suc)
  then show ?thesis
    using ps unat_ucast_double [of g]
    by (simp add: van_params_ok_def vanilla_with_def check_param_range numeral_2_eq_2 numeral_3_eq_3)
qed

interpretation vanilla_flows: flow_module van_conn vanilla_sock_ok
  "vanilla_set_params :: 'e vanilla_world set_params_fn" None
proof
  fix w :: "'e vanilla_world" and c :: spine_connection and s and ps :: "u64 list"
  assume s: "kw_socks w (conn_impl c) = Some s" "vanilla_sock_ok s" and "ps \<noteq> []"
  have eq: "(kw_socks w)(conn_impl c \<mapsto> s) = kw_socks w" using s(1) by auto
  have len: "4 \<le> length ps" if "(word_of_nat (length ps) :: u8) = 4"
  proof -
    have "unat (word_of_nat (length ps) :: u8) = 4" using that by simp
    then have "length ps mod 256 = 4" by (simp add: unsigned_of_nat take_bit_eq_mod)
    then show ?thesis by (metis mod_less_eq_dividend)
  qed
  note set = vanilla_set_params_eq [OF s(1) len, of "word_of_nat (length ps)"]
  show "\<exists>w' s'. vanilla_set_params c ps (word_of_nat (length ps)) w = Inr w' \<and>
      kw_socks w' = (kw_socks w)(conn_impl c \<mapsto> s') \<and> vanilla_sock_ok s' \<and>
      van_conn (sk_ca s') = van_conn (sk_ca s)"
  proof (cases "fi_alg (flow_info c) = SPINE_VANILLA \<and> (word_of_nat (length ps) :: u8) = 4 \<and> valid_params ps")
    case True
    let ?s' = "s\<lparr>sk_ca := vanilla_with ps (sk_ca s)\<rparr>"
    have "vanilla_sock_ok ?s'" "van_conn (sk_ca ?s') = van_conn (sk_ca s)"
      using s(2) valid_params_ok [of ps "sk_ca s"] True len
      by (simp_all add: vanilla_sock_ok_def) (simp_all add: vanilla_with_def)
    with True set show ?thesis
      by (intro exI [of _ "sock_put w (conn_impl c) ?s'"] exI [of _ ?s']) auto
  next
    case False
    then have "vanilla_set_params c ps (word_of_nat (length ps)) w = Inr w" using set by auto
    with s eq show ?thesis by (intro exI [of _ w] exI [of _ s]) simp
  qed
qed simp

section \<open>The handlers\<close>

lemma vanilla_set_cwnd_eq:
  "\<exists>r st. vanilla_set_cwnd K tp ca acked =
    Inr (tp\<lparr>snd_cwnd := min (max (vanilla_exit_recovery tp ca + s32_div (van_cnt ca) VANILLA_SCALE) 10) (snd_cwnd_clamp tp),
            sk_pacing_status := st, sk_pacing_rate := r\<rparr>,
         ca\<lparr>van_cnt := van_cnt ca - s32_div (van_cnt ca) VANILLA_SCALE * VANILLA_SCALE\<rparr>)"
proof -
  let ?d = "s32_div (van_cnt ca) VANILLA_SCALE"
  let ?tp = "tp\<lparr>snd_cwnd := min (max (vanilla_exit_recovery tp ca + ?d) 10) (snd_cwnd_clamp tp)\<rparr>"
  obtain r st where "vanilla_update_pacing_rate K ?tp = Inr (?tp\<lparr>sk_pacing_status := st, sk_pacing_rate := r\<rparr>)"
    using vanilla_update_pacing_rate_ok by blast
  then have "vanilla_set_cwnd K tp ca acked = Inr (?tp\<lparr>sk_pacing_status := st, sk_pacing_rate := r\<rparr>,
      ca\<lparr>van_cnt := van_cnt ca - ?d * VANILLA_SCALE\<rparr>)"
    by (cases "?d = 0") (simp_all add: vanilla_set_cwnd_def Let_def)
  then show ?thesis by blast
qed

lemma van_params_frame [simp]:
  "van_params_ok (ca\<lparr>van_cnt := n\<rparr>) = van_params_ok ca"
  "van_params_ok (ca\<lparr>van_prior_cwnd := m\<rparr>) = van_params_ok ca"
  "van_params_ok (ca\<lparr>van_prev_ca_state := st\<rparr>) = van_params_ok ca"
  "van_params_ok (ca\<lparr>van_slow_start_passed := b\<rparr>) = van_params_ok ca"
  "van_params_ok (ca\<lparr>min_rtt_us := m\<rparr>) = van_params_ok ca"
  "van_params_ok (ca\<lparr>van_conn := x\<rparr>) = van_params_ok ca"
  by (simp_all add: van_params_ok_def)

lemma vanilla_change_ok:
  "min_rtt_us ca \<noteq> 0 \<Longrightarrow> \<exists>c. vanilla_change tp ca = Inr c"
  by (simp add: vanilla_change_def Let_def)

lemma vanilla_control_end_ok:
  assumes "vanilla_good C (kw_socks w)" and "C sk = Some c"
  shows "\<exists>w'. vanilla_control_end K dp sk acked w = Inr (dp, w') \<and> vanilla_good C (kw_socks w')"
proof -
  from assms obtain s where s: "kw_socks w sk = Some s" "vanilla_sock_ok s" by (rule socks_ok_get)
  obtain d where d: "vanilla_change (sk_tp s) (sk_ca s) = Inr d"
    using vanilla_change_ok s(2) by (auto simp: vanilla_sock_ok_def)
  let ?ca = "(sk_ca s)\<lparr>van_cnt := van_cnt (sk_ca s) + d\<rparr>"
  obtain tp' n where "vanilla_set_cwnd K (sk_tp s) ?ca acked = Inr (tp', ?ca\<lparr>van_cnt := n\<rparr>)"
    using vanilla_set_cwnd_eq [of K "sk_tp s" ?ca acked] by blast
  with d s have "vanilla_control_end K dp sk acked w =
      Inr (dp, sock_put w sk \<lparr>sk_tp = tp', sk_ca = ?ca\<lparr>van_cnt := n\<rparr>\<rparr>)"
    by (simp add: vanilla_control_end_def)
  with socks_ok_put [OF assms(1) s(1)] s(2) show ?thesis by (simp add: vanilla_sock_ok_def)
qed

lemma vanilla_cong_control_ok:
  assumes dp: "vanilla_dp_ok T tzero N C dp" and w: "vanilla_good C (kw_socks w)" and sk: "C sk = Some c"
  shows "\<exists>dp' w'. vanilla_cong_control K dp sk rs w = Inr (dp', w') \<and> vanilla_ok T tzero N C (dp', w') \<and>
    length (slots dp') = length (slots dp)"
proof -
  from w sk obtain s where s: "kw_socks w sk = Some s" and conn: "van_conn (sk_ca s) = c"
    and good: "vanilla_sock_ok s"
    by (rule socks_ok_get)
  consider "tcp_in_slow_start K (sk_tp s) \<and> van_slow_start_passed (sk_ca s) = 0"
    | "\<not> (tcp_in_slow_start K (sk_tp s) \<and> van_slow_start_passed (sk_ca s) = 0)"
      "sint (rs_delivered rs) < 0 \<or> sint (rs_interval_us rs) < 0"
    | "\<not> (tcp_in_slow_start K (sk_tp s) \<and> van_slow_start_passed (sk_ca s) = 0)"
      "\<not> (sint (rs_delivered rs) < 0 \<or> sint (rs_interval_us rs) < 0)" by blast
  then show ?thesis
  proof cases
    case 1
    let ?ca = "(sk_ca s)\<lparr>van_cnt := van_cnt (sk_ca s) + rs_acked_sacked rs * 500\<rparr>"
    obtain tp' n where "spine_slow_start K (sk_tp s) (sk_ca s) (rs_acked_sacked rs) = Inr (tp', ?ca\<lparr>van_cnt := n\<rparr>)"
      using vanilla_set_cwnd_eq [of K "sk_tp s" ?ca "rs_acked_sacked rs"] unfolding spine_slow_start_def by blast
    with 1 s have "vanilla_cong_control K dp sk rs w =
        Inr (dp, sock_put w sk \<lparr>sk_tp = tp', sk_ca = ?ca\<lparr>van_cnt := n\<rparr>\<rparr>)"
      by (simp add: vanilla_cong_control_def Let_def)
    with dp good socks_ok_put [OF w s] show ?thesis by (simp add: vanilla_ok_def vanilla_sock_ok_def)
  next
    case 2
    then have "vanilla_cong_control K dp sk rs w = Inr (dp, w)"
      using s by (auto simp: vanilla_cong_control_def Let_def)
    with dp w show ?thesis by (simp add: vanilla_ok_def)
  next
    case 3
    obtain dp1 w1 where inv: "(case c of None \<Rightarrow> Inr (dp, w)
        | Some i \<Rightarrow> rbind (spine_invoke dp (Some i) w) (\<lambda>(ok, dp', w'). Inr (dp', w'))) = Inr (dp1, w1)"
      and dp1: "vanilla_dp_ok T tzero N C dp1" and len: "length (slots dp1) = length (slots dp)" and w1: "vanilla_good C (kw_socks w1)"
      using vanilla_flows.invoke_conn_ok [OF dp w sk] by blast
    obtain w2 where "vanilla_control_end K dp1 sk (rs_acked_sacked rs) w1 = Inr (dp1, w2)"
      "vanilla_good C (kw_socks w2)"
      using vanilla_control_end_ok [OF w1 sk] by blast
    with 3 s conn inv have "vanilla_cong_control K dp sk rs w = Inr (dp1, w2)"
      by (auto simp: vanilla_cong_control_def Let_def)
    with dp1 len \<open>vanilla_good C (kw_socks w2)\<close> show ?thesis by (simp add: vanilla_ok_def)
  qed
qed

text \<open>A round-trip sample never makes the minimum 0.\<close>

lemma vanilla_pkt_acked_ok:
  assumes "min_rtt_us ca \<noteq> 0"
  shows "min_rtt_us (vanilla_pkt_acked ca sample) \<noteq> 0" and "van_conn (vanilla_pkt_acked ca sample) = van_conn ca"
    and "van_params_ok (vanilla_pkt_acked ca sample) = van_params_ok ca"
proof -
  have "as_rtt_us sample + 1 \<noteq> 0" if "\<not> sint (as_rtt_us sample) < 0"
  proof
    assume "as_rtt_us sample + 1 = 0"
    then have "as_rtt_us sample = -1" by (simp add: eq_neg_iff_add_eq_0)
    then have "sint (as_rtt_us sample) = -1" by simp
    with that show False by simp
  qed
  with assms show "min_rtt_us (vanilla_pkt_acked ca sample) \<noteq> 0" by (simp add: vanilla_pkt_acked_def Let_def)
qed (simp_all add: vanilla_pkt_acked_def Let_def)

section \<open>Arithmetic of the window control\<close>

lemma sint_u16_up: "sint (ucast (a :: u16) :: s32) = int (unat a)"
proof -
  have "unat a < 2 ^ 16" using unsigned_less [of a] by simp
  then have "sint (word_of_nat (unat a) :: s32) = int (unat a)" by (intro sint_word_of_nat_small) simp
  moreover have "(word_of_nat (unat a) :: s32) = ucast a"
    by (simp add: word_unat_eq_iff unat_ucast_up)
  ultimately show ?thesis by simp
qed

lemma sint_neg_u16: "sint (- ucast (a :: u16) :: s32) = - int (unat a)"
proof -
  define k where "k = int (unat a)"
  have "0 \<le> k" "k < 65536" using unsigned_less [of a] by (simp_all add: k_def)
  then have "sint (word_of_int (- k) :: s32) = - k" by (intro sint_s32_of_int) simp_all
  then have "sint (word_of_int (- int (unat a)) :: s32) = - int (unat a)" unfolding k_def .
  moreover have "(word_of_int (- int (unat a)) :: s32) = - ucast a"
    by (simp add: word_unat_eq_iff unat_ucast_up)
  ultimately show ?thesis by simp
qed

lemma sdiv_1024_cases:
  assumes "-1536 < t" and "t < (2048 :: int)"
  shows "t sdiv 1024 = 0 \<and> \<bar>t\<bar> < 1024 \<or> t sdiv 1024 = 1 \<and> 1024 \<le> t \<or> t sdiv 1024 = -1 \<and> t \<le> -1024"
proof -
  consider "t \<le> -1024" | "\<bar>t\<bar> < 1024" | "1024 \<le> t" by linarith
  then show ?thesis
  proof cases
    case 1
    with assms have "- t div 1024 = 1" by (simp add: div_pos_geq)
    with 1 show ?thesis by (simp add: signed_divide_int_def)
  next
    case 2
    then have "\<bar>t\<bar> div 1024 = 0" by simp
    with 2 show ?thesis by (simp add: signed_divide_int_def)
  next
    case 3
    with assms have "t div 1024 = 1" by (simp add: div_pos_geq)
    with 3 show ?thesis by (simp add: signed_divide_int_def)
  qed
qed

text \<open>A step of at most one segment, away from the ends of the range.\<close>

lemma unat_add_step:
  assumes "-1 \<le> d" and "d \<le> 1" and "1 \<le> unat (b :: u32)" and "unat b < 2 ^ 32 - 1"
  shows "int (unat (b + word_of_int d)) = int (unat b) + d"
proof -
  define n where "n = int (unat b)"
  have "unat b < 4294967295" using assms(4) by simp
  with assms(3) have "1 \<le> n" "n < 4294967295" unfolding n_def by linarith+
  with assms(1,2) have "0 \<le> n + d" "n + d < 2 ^ 32" by simp_all
  then have "uint (word_of_int (n + d) :: u32) = n + d" by (intro uint_word_of_int_small) simp_all
  moreover have "b + word_of_int d = word_of_int (n + d)" by (simp add: n_def)
  ultimately have "uint (b + word_of_int d) = n + d" by simp
  then show ?thesis by (simp add: n_def)
qed

lemma unat_sample_plus_1: "0 \<le> sint (r :: s32) \<Longrightarrow> unat (r + 1) = nat (sint r) + 1"
proof -
  assume r: "0 \<le> sint r"
  have "sint r < 2 ^ 31" using sint_less [of r] by simp
  moreover have "r + 1 = word_of_int (sint r + 1)" by simp
  ultimately have "uint (r + 1) = sint r + 1"
    using r by (simp only:) (intro uint_word_of_int_small, simp_all)
  then show ?thesis using r by (simp add: unat_eq_nat_uint)
qed

lemma vanilla_change_eq:
  assumes "min_rtt_us ca \<noteq> 0" and "van_params_ok ca"
  shows "\<exists>change. vanilla_change tp ca = Inr change \<and> sint change =
    (if ucast (drop_bit 3 (srtt_us tp) * VANILLA_SCALE) div ucast (min_rtt_us ca) >
        (ucast (VANILLA_SCALE + ucast (van_gamma ca)) :: u64)
     then - int (min 512 (unat (van_beta ca))) else int (unat (van_alpha ca)))"
proof -
  let ?t = "ucast (drop_bit 3 (srtt_us tp) * VANILLA_SCALE) div ucast (min_rtt_us ca) >
      (ucast (VANILLA_SCALE + ucast (van_gamma ca)) :: u64)"
  define k where "k = (if ?t then - int (min 512 (unat (van_beta ca))) else int (unat (van_alpha ca)))"
  define a b where "a = int (unat (van_alpha ca))" and "b = int (unat (van_beta ca))"
  have ab: "1 \<le> a" "a \<le> 1024" "1 \<le> b" "b \<le> 1024"
    using assms(2) unfolding a_def b_def van_params_ok_def by linarith+
  have k: "k = (if ?t then - min 512 b else a)" by (simp only: k_def a_def b_def of_nat_min of_nat_numeral)
  have r: "-512 \<le> k" "k \<le> 1024" using ab unfolding k by auto
  let ?ch = "if ?t then - ucast (van_beta ca) else ucast (van_alpha ca) :: s32"
  have "sint ?ch = (if ?t then - b else a)"
    unfolding a_def b_def by (simp only: sint_u16_up sint_neg_u16 split: if_split) simp
  then have "max (min (sint ?ch) 1024) (- 512) = k" using ab unfolding k by auto
  then have c: "vanilla_change tp ca = Inr (word_of_int k)"
    using assms(1) by (simp only: vanilla_change_def Let_def) simp
  have "sint (word_of_int k :: s32) = k"
    using r by (intro sint_s32_of_int) simp_all
  with c show ?thesis by (auto simp: k_def)
qed

lemma vanilla_test_nat:
  assumes "unat (x :: u32) = n * 1024" and "(m :: u32) \<noteq> 0" and "unat (g :: u16) \<le> 2048"
  shows "ucast x div ucast m > (ucast (VANILLA_SCALE + ucast g) :: u64) \<longleftrightarrow>
    (1025 + unat g) * unat m \<le> n * 1024"
proof -
  have g: "unat (ucast (VANILLA_SCALE + ucast g) :: u64) = 1024 + unat g"
    using assms(3) by (simp add: unat_ucast_up VANILLA_SCALE_def unat_add_exact)
  have q: "unat (ucast x div ucast m :: u64) = n * 1024 div unat m"
    using assms(1) by (simp add: unat_div unat_ucast_up)
  have m: "0 < unat m" using assms(2) by (simp add: unat_gt_0)
  have "1024 + unat g < n * 1024 div unat m \<longleftrightarrow> Suc (1024 + unat g) * unat m \<le> n * 1024"
    using m by (simp only: less_eq_Suc_le less_eq_div_iff_mult_less_eq)
  then show ?thesis using g q by (simp add: word_less_nat_alt)
qed

section \<open>The module as a machine\<close>

datatype vanilla_event =
    Van_Stats nat tcp_sock
  | Van_Ack nat rate_sample
  | Van_Sample nat ack_sample
  | Van_Ssthresh nat
  | Van_State nat tcp_ca_state
  | Van_Undo nat
  | Van_Packet "u8 list"

type_synonym 'e vanilla_state = "'e vanilla_world spine_datapath \<times> 'e vanilla_world"

definition on_sock ::
  "'e vanilla_world \<Rightarrow> nat \<Rightarrow> (vanilla ksock \<Rightarrow> vanilla ksock) \<Rightarrow> 'e vanilla_world res" where
  "on_sock w sk f = rbind (sock_ref w sk) (\<lambda>s. Inr (sock_put w sk (f s)))"

fun vanilla_step :: "tcp_api \<Rightarrow> bool \<Rightarrow> vanilla_event \<Rightarrow> 'e vanilla_state \<Rightarrow> 'e vanilla_state res" where
  "vanilla_step K cs (Van_Stats sk tp) (dp, w) =
     rbind (on_sock w sk (\<lambda>s. s\<lparr>sk_tp := tp\<rparr>)) (\<lambda>w'. Inr (dp, w'))"
| "vanilla_step K cs (Van_Ack sk rs) (dp, w) = vanilla_cong_control K dp sk rs w"
| "vanilla_step K cs (Van_Sample sk smp) (dp, w) =
     rbind (on_sock w sk (\<lambda>s. s\<lparr>sk_ca := vanilla_pkt_acked (sk_ca s) smp\<rparr>)) (\<lambda>w'. Inr (dp, w'))"
| "vanilla_step K cs (Van_Ssthresh sk) (dp, w) =
     rbind (on_sock w sk (\<lambda>s. let (_, tp, ca) = vanilla_ssthresh (sk_tp s) (sk_ca s) in
       \<lparr>sk_tp = tp, sk_ca = ca\<rparr>)) (\<lambda>w'. Inr (dp, w'))"
| "vanilla_step K cs (Van_State sk st) (dp, w) =
     rbind (on_sock w sk (\<lambda>s. s\<lparr>sk_ca := vanilla_set_state (sk_ca s) st\<rparr>)) (\<lambda>w'. Inr (dp, w'))"
| "vanilla_step K cs (Van_Undo sk) (dp, w) =
     rbind (on_sock w sk (\<lambda>s. s\<lparr>sk_tp := (sk_tp s)\<lparr>snd_cwnd := vanilla_undo_cwnd K (sk_tp s)\<rparr>\<rparr>)) (\<lambda>w'. Inr (dp, w'))"
| "vanilla_step K cs (Van_Packet p) (dp, w) =
     rbind (spine_nl_recv (Some (spine_read_msg cs)) (Some dp) (nl_packet p)) (\<lambda>dp'.
     rbind (deref dp') (\<lambda>dp1. Inr (dp1, w)))"

fun vanilla_allowed :: "(nat \<Rightarrow> nat option option) \<Rightarrow> vanilla_event \<Rightarrow> bool" where
  "vanilla_allowed C (Van_Stats sk tp) \<longleftrightarrow> C sk \<noteq> None"
| "vanilla_allowed C (Van_Ack sk rs) \<longleftrightarrow> C sk \<noteq> None"
| "vanilla_allowed C (Van_Sample sk smp) \<longleftrightarrow> C sk \<noteq> None"
| "vanilla_allowed C (Van_Ssthresh sk) \<longleftrightarrow> C sk \<noteq> None"
| "vanilla_allowed C (Van_State sk st) \<longleftrightarrow> C sk \<noteq> None"
| "vanilla_allowed C (Van_Undo sk) \<longleftrightarrow> C sk \<noteq> None"
| "vanilla_allowed C (Van_Packet p) \<longleftrightarrow> controller_payload p"

lemma on_sock_ok:
  assumes "vanilla_good C (kw_socks w)" and "C sk \<noteq> None"
    and "\<And>s. vanilla_sock_ok s \<Longrightarrow> vanilla_sock_ok (f s) \<and> van_conn (sk_ca (f s)) = van_conn (sk_ca s)"
  shows "\<exists>w'. on_sock w sk f = Inr w' \<and> vanilla_good C (kw_socks w')"
proof -
  from assms(2) obtain c where "C sk = Some c" by auto
  from assms(1) this obtain s where s: "kw_socks w sk = Some s" "vanilla_sock_ok s" by (rule socks_ok_get)
  with assms(3) socks_ok_put [OF assms(1) s(1)] show ?thesis by (simp add: on_sock_def)
qed

lemma on_sock_step:
  assumes "vanilla_dp_ok T tzero N C dp" and "vanilla_good C (kw_socks w)" and "C sk \<noteq> None"
    and "\<And>s. vanilla_sock_ok s \<Longrightarrow> vanilla_sock_ok (f s) \<and> van_conn (sk_ca (f s)) = van_conn (sk_ca s)"
  shows "\<exists>dp' w'. rbind (on_sock w sk f) (\<lambda>w'. Inr (dp, w')) = Inr (dp', w') \<and> vanilla_ok T tzero N C (dp', w') \<and>
    length (slots dp') = length (slots dp)"
  using on_sock_ok [OF assms(2,3,4)] assms(1) by (force simp: vanilla_ok_def)

text \<open>Every event keeps the invariant and the size of the table.\<close>

lemma vanilla_step_ok:
  fixes T :: "('e, 'ts) time_api"
  assumes ok: "vanilla_ok T tzero N C (dp, w)" and e: "vanilla_allowed C e"
  shows "\<exists>dp' w'. vanilla_step K cs e (dp, w) = Inr (dp', w') \<and> vanilla_ok T tzero N C (dp', w') \<and>
    length (slots dp') = length (slots dp)"
proof -
  from ok have dp: "vanilla_dp_ok T tzero N C dp" and w: "vanilla_good C (kw_socks w)"
    by (simp_all add: vanilla_ok_def)
  show ?thesis
  proof (cases e)
    case (Van_Stats sk tp)
    with e have "C sk \<noteq> None" by simp
    then show ?thesis
      unfolding Van_Stats vanilla_step.simps
      by (rule on_sock_step [OF dp w]) (simp_all add: vanilla_sock_ok_def)
  next
    case (Van_Ack sk rs)
    with e obtain c where "C sk = Some c" by auto
    from vanilla_cong_control_ok [OF dp w this, of K rs] Van_Ack show ?thesis by auto
  next
    case (Van_Sample sk smp)
    with e have "C sk \<noteq> None" by simp
    then show ?thesis
      unfolding Van_Sample vanilla_step.simps
      by (rule on_sock_step [OF dp w]) (simp_all add: vanilla_sock_ok_def vanilla_pkt_acked_ok)
  next
    case (Van_Ssthresh sk)
    with e have "C sk \<noteq> None" by simp
    then show ?thesis
      unfolding Van_Ssthresh vanilla_step.simps
      by (rule on_sock_step [OF dp w]) (simp_all add: vanilla_sock_ok_def vanilla_ssthresh_def Let_def)
  next
    case (Van_State sk st)
    with e have "C sk \<noteq> None" by simp
    then show ?thesis
      unfolding Van_State vanilla_step.simps
      by (rule on_sock_step [OF dp w]) (simp_all add: vanilla_sock_ok_def vanilla_set_state_def)
  next
    case (Van_Undo sk)
    with e have "C sk \<noteq> None" by simp
    then show ?thesis
      unfolding Van_Undo vanilla_step.simps
      by (rule on_sock_step [OF dp w]) (simp_all add: vanilla_sock_ok_def)
  next
    case (Van_Packet p)
    with flows_ok_recv [OF dp, of p cs] e w show ?thesis by (auto simp: vanilla_ok_def)
  qed
qed

interpretation vanilla_machine: machine "vanilla_step K cs" "vanilla_ok T tzero N C" "vanilla_allowed C"
  for K cs and T :: "('e, 'ts) time_api" and tzero :: 'ts and N :: "'e nl_api" and C
proof
  fix s :: "'e vanilla_state" and e
  assume "vanilla_ok T tzero N C s" and "vanilla_allowed C e"
  then show "\<exists>s'. vanilla_step K cs e s = Inr s' \<and> vanilla_ok T tzero N C s'"
    using vanilla_step_ok [of T tzero N C "fst s" "snd s" e K cs] by auto
qed

section \<open>Properties\<close>

definition demo_van :: vanilla where
  "demo_van = \<lparr>min_rtt_us = 10000, van_cnt = 1000, van_prev_ca_state = TCP_CA_Open,
     van_in_recovery = False, van_prior_cwnd = 0, van_r_cwnd = 0, van_alpha = 50, van_beta = 200,
     van_gamma = 200, van_delta = 717, van_slow_start_passed = 1, van_conn = Some 0\<rparr>"

definition demo_van_conn :: spine_connection where
  "demo_van_conn = (demo_used 0)\<lparr>flow_info := zero_info\<lparr>fi_alg := SPINE_VANILLA\<rparr>,
     conn_state := PLive \<lparr>sent_create = True, pending_update = zero_update\<rparr>\<rparr>"

definition demo_van_dp :: "u64 vanilla_world spine_datapath" where
  "demo_van_dp = \<lparr>dp_set_params = Some vanilla_set_params, dp_fetch_measurements = None,
     dp_send_msg = Some (kw_send demo_nl), dp_time_zero = 0, dp_now = Some (kw_now demo_time 0),
     dp_since_usecs = Some (kw_since demo_time 0), dp_after_usecs = Some (kw_after demo_time 0),
     dp_max_connections = 2, dp_connections = Some [demo_van_conn, zero_connection], dp_fto_us = 1000,
     dp_last_msg_sent = 0, dp_in_fallback = False\<rparr>"

definition demo_van_world :: "u64 vanilla_world" where
  "demo_van_world = \<lparr>kw_socks = [0 \<mapsto> \<lparr>sk_tp = demo_sock, sk_ca = demo_van\<rparr>], kw_id = 0, kw_env = 5000\<rparr>"

lemma demo_van_ok: "vanilla_ok demo_time 0 demo_nl [0 \<mapsto> Some 0] (demo_van_dp, demo_van_world)"
proof -
  have sl: "slots demo_van_dp = [demo_van_conn, zero_connection]"
    by (simp add: slots_def demo_van_dp_def)
  have "conn_wf 0 demo_van_conn"
    unfolding demo_van_conn_def using conn_wf_demo_used [of 0] by (simp add: conn_wf_def zero_info_def)
  then have "dp_wf demo_van_dp"
    unfolding dp_wf_def sl by (simp add: demo_van_dp_def less_Suc_eq)
  moreover have "vanilla_good [0 \<mapsto> Some 0] (kw_socks demo_van_world)"
    by (auto simp: socks_ok_def vanilla_sock_ok_def van_params_ok_def demo_van_world_def demo_van_def)
  ultimately show ?thesis
    by (auto simp: vanilla_ok_def flows_ok_def sl uses_env_def uses_cc_def live_slot_def less_Suc_eq
        demo_van_conn_def) (simp_all add: demo_van_dp_def)
qed

text \<open>Established vanilla flows never fault: whatever statistics and round-trip samples the stack
  reports, in whatever order it calls the handlers, and whatever packets of the controller arrive
  in between, every handler returns (in particular the division by the minimum round-trip time
  never divides by zero) and every flow keeps parameters in range: alpha, beta and delta between
  1 and 1024, gamma at most 2048.\<close>

theorem vanilla_flows_never_fault:
  fixes T :: "('e, 'ts) time_api"
  assumes "vanilla_ok T tzero N C (dp, w)" and "list_all (vanilla_allowed C) es"
  shows "\<exists>dp' w'. run (vanilla_step K char_signed) es (dp, w) = Inr (dp', w') \<and>
    vanilla_ok T tzero N C (dp', w') \<and>
    (\<forall>sk s. kw_socks w' sk = Some s \<longrightarrow> min_rtt_us (sk_ca s) \<noteq> 0 \<and> van_params_ok (sk_ca s))"
  using vanilla_machine.run_safe [OF assms, of K char_signed]
  by (auto simp: vanilla_ok_def socks_ok_def vanilla_sock_ok_def)

theorem vanilla_flows_never_fault_witness:
  "\<exists>dp' w'. run (vanilla_step demo_tcp True) [Van_Sample 0 \<lparr>as_rtt_us = 9000\<rparr>,
      Van_Ack 0 \<lparr>rs_delivered = 1, rs_interval_us = 1, rs_acked_sacked = 1\<rparr>, Van_Ssthresh 0]
      (demo_van_dp, demo_van_world) = Inr (dp', w') \<and>
    vanilla_ok demo_time 0 demo_nl [0 \<mapsto> Some 0] (dp', w') \<and>
    (\<forall>sk s. kw_socks w' sk = Some s \<longrightarrow> min_rtt_us (sk_ca s) \<noteq> 0 \<and> van_params_ok (sk_ca s))"
  by (rule vanilla_flows_never_fault [OF demo_van_ok]) simp

text \<open>A command reaches all four parameters in whatever order Python iterates its key set: when the
  packet send_vanilla_message builds for an announced vanilla connection with an empty mailbox is
  received and the module then invokes the library, exactly that connection's socket gets alpha,
  beta, twice gamma and delta if all four values are accepted, nothing changes otherwise, and the
  mailbox is empty again.\<close>

theorem vanilla_command_sets_parameters:
  fixes T :: "('e, 'ts) time_api"
  assumes "vanilla_dp_ok T tzero N C dp" and "C sk = Some (Some i)"
    and "conn_state (slots dp ! i) = PLive \<lparr>sent_create = True, pending_update = zero_update\<rparr>"
    and "fi_alg (flow_info (slots dp ! i)) = SPINE_VANILLA"
    and "conn_index (slots dp ! i) = ucast sid" and "(ucast sid :: u16) \<noteq> 0"
    and "kw_socks w sk = Some s"
    and "mset keys = mset [Vanilla_alpha, Vanilla_beta, Vanilla_gamma, Vanilla_delta]"
    and "send_vanilla_message keys (\<lambda>key. Some (val key)) sid = Some packet"
  shows "\<exists>dp1 dp2. spine_nl_recv (Some (spine_read_msg char_signed)) (Some dp) (nl_packet packet) = Inr (Some dp1) \<and>
    spine_invoke dp1 (Some i) w = Inr (0, dp2,
      if \<forall>key. check_param (ucast (val key))
      then sock_put w sk (s\<lparr>sk_ca := (sk_ca s)\<lparr>van_alpha := ucast (val Vanilla_alpha),
        van_beta := ucast (val Vanilla_beta), van_gamma := ucast (val Vanilla_gamma * 2),
        van_delta := ucast (val Vanilla_delta)\<rparr>\<rparr>) else w) \<and>
    pending_of dp2 i = zero_update"
proof -
  let ?ps = "map val [Vanilla_alpha, Vanilla_beta, Vanilla_gamma, Vanilla_delta]"
  let ?fs = "map (\<lambda>key. control_field (vanilla_reg key) (val key)) keys"
  have "list_ex (\<lambda>key. Some (val key) = None) keys = False" by (induction keys) simp_all
  then have packet: "packet = update_packet sid ?fs"
    using assms(9) by (simp add: send_vanilla_message_def split: if_splits)
  have valid: "valid_params ?ps \<longleftrightarrow> (\<forall>key. check_param (ucast (val key)))"
    unfolding valid_params_def by simp (metis vanilla_key.exhaust)
  have set_ok: "vanilla_set_params c ?ps (word_of_nat (length ?ps)) w = Inr (if valid_params ?ps
      then sock_put w sk (s\<lparr>sk_ca := vanilla_with ?ps (sk_ca s)\<rparr>) else w)"
    if "conn_impl c = sk" "flow_info c = flow_info (slots dp ! i)" for c
    using that assms(4,7) by (subst vanilla_set_params_eq [where s = s]) simp_all
  have ne: "?ps \<noteq> []" "length ?ps \<le> MAX_CONTROL_REG" by (simp_all add: MAX_CONTROL_REG_def)
  have with_ps: "vanilla_with ?ps ca = ca\<lparr>van_alpha := ucast (val Vanilla_alpha),
      van_beta := ucast (val Vanilla_beta), van_gamma := ucast (val Vanilla_gamma * 2),
      van_delta := ucast (val Vanilla_delta)\<rparr>" for ca
    by (simp add: vanilla_with_def)
  from set_ok ne send_vanilla_fields [OF assms(8), of val] have "\<exists>dp1 dp2. spine_nl_recv (Some (spine_read_msg char_signed)) (Some dp)
      (nl_packet (update_packet sid ?fs)) = Inr (Some dp1) \<and>
    spine_invoke dp1 (Some i) w = Inr (0, dp2, if valid_params ?ps
      then sock_put w sk (s\<lparr>sk_ca := vanilla_with ?ps (sk_ca s)\<rparr>) else w) \<and> pending_of dp2 i = zero_update"
    by (intro command_delivered [OF assms(1-3,5,6)]) 
  with with_ps show ?thesis unfolding valid packet by (simp only:)
qed

theorem vanilla_command_sets_parameters_witness:
  "\<exists>dp1 dp2. spine_nl_recv (Some (spine_read_msg True)) (Some demo_van_dp)
      (nl_packet (the (send_vanilla_message [Vanilla_gamma, Vanilla_delta, Vanilla_alpha, Vanilla_beta]
        (\<lambda>key. Some 300) 1))) = Inr (Some dp1) \<and>
    spine_invoke dp1 (Some 0) demo_van_world = Inr (0, dp2,
      if \<forall>key :: vanilla_key. check_param (ucast (300 :: u64))
      then sock_put demo_van_world 0 (\<lparr>sk_tp = demo_sock, sk_ca = demo_van\<rparr>
        \<lparr>sk_ca := (sk_ca \<lparr>sk_tp = demo_sock, sk_ca = demo_van\<rparr>)\<lparr>van_alpha := ucast (300 :: u64),
        van_beta := ucast (300 :: u64), van_gamma := ucast ((300 :: u64) * 2), van_delta := ucast (300 :: u64)\<rparr>\<rparr>)
      else demo_van_world) \<and>
    pending_of dp2 0 = zero_update"
proof (rule vanilla_command_sets_parameters [where sid = 1 and
      keys = "[Vanilla_gamma, Vanilla_delta, Vanilla_alpha, Vanilla_beta]" and val = "\<lambda>_. 300" and sk = 0])
  show "vanilla_dp_ok demo_time 0 demo_nl [0 \<mapsto> Some 0] demo_van_dp"
    using demo_van_ok by (simp add: vanilla_ok_def)
qed (simp_all add: demo_van_world_def demo_van_dp_def demo_van_conn_def slots_def send_vanilla_message_def)

text \<open>C30: The latency test of an acknowledgement: while the smoothed round-trip time is below 2^22
  microseconds, the counter moves down by the smaller of beta and 512 exactly when that time
  exceeds the minimum by the factor (1025 + gamma) / 1024, and up by alpha otherwise.\<close>

theorem vanilla_latency_test:
  assumes "min_rtt_us ca \<noteq> 0" and "van_params_ok ca" and "rtt = unat (drop_bit 3 (srtt_us tp))"
    and "rtt < 2 ^ 22"
  shows "\<exists>change. vanilla_change tp ca = Inr change \<and> sint change =
    (if (1025 + unat (van_gamma ca)) * unat (min_rtt_us ca) \<le> rtt * 1024
     then - int (min 512 (unat (van_beta ca))) else int (unat (van_alpha ca)))"
proof -
  have "unat (drop_bit 3 (srtt_us tp) * VANILLA_SCALE) = rtt * 1024"
    using assms(3,4) by (simp add: VANILLA_SCALE_def unat_mult_exact)
  then have test: "ucast (drop_bit 3 (srtt_us tp) * VANILLA_SCALE) div ucast (min_rtt_us ca) >
      (ucast (VANILLA_SCALE + ucast (van_gamma ca)) :: u64) \<longleftrightarrow>
      (1025 + unat (van_gamma ca)) * unat (min_rtt_us ca) \<le> rtt * 1024"
    using vanilla_test_nat assms(1,2) by (simp add: van_params_ok_def)
  show ?thesis
    using vanilla_change_eq [OF assms(1,2), of tp] unfolding test by blast
qed

text \<open>The product in the latency test is computed in 32 bits: a smoothed round-trip time that is
  a multiple of 2^22 microseconds (about 4.2 seconds) counts as no latency at all, and the window
  counter grows by alpha whatever the minimum was.\<close>

theorem vanilla_latency_wraps:
  assumes "min_rtt_us ca \<noteq> 0" and "van_params_ok ca"
    and "unat (drop_bit 3 (srtt_us tp)) mod 2 ^ 22 = 0"
  shows "\<exists>change. vanilla_change tp ca = Inr change \<and> sint change = int (unat (van_alpha ca))"
proof -
  have "unat (drop_bit 3 (srtt_us tp) * VANILLA_SCALE) = (unat (drop_bit 3 (srtt_us tp)) * 1024) mod (2 ^ 22 * 1024)"
    by (simp add: VANILLA_SCALE_def unat_word_ariths)
  also have "\<dots> = (unat (drop_bit 3 (srtt_us tp)) mod 2 ^ 22) * 1024" by (rule mult_mod_left [symmetric])
  finally have "drop_bit 3 (srtt_us tp) * VANILLA_SCALE = 0" using assms(3) by (simp add: word_unat_eq_iff)
  then have "\<not> ucast (drop_bit 3 (srtt_us tp) * VANILLA_SCALE) div ucast (min_rtt_us ca) >
      (ucast (VANILLA_SCALE + ucast (van_gamma ca)) :: u64)" by simp
  then show ?thesis using vanilla_change_eq [OF assms(1,2), of tp] by auto
qed

lemma demo_van_rtt: "unat (drop_bit 3 (srtt_us demo_sock)) = 10000" "van_params_ok demo_van"
    "min_rtt_us demo_van \<noteq> 0"
  by (simp_all add: demo_sock_def demo_van_def van_params_ok_def drop_bit_eq_div)

theorem vanilla_latency_test_witness:
  "\<exists>change. vanilla_change demo_sock demo_van = Inr change \<and> sint change =
    (if (1025 + unat (van_gamma demo_van)) * unat (min_rtt_us demo_van) \<le> 10000 * 1024
     then - int (min 512 (unat (van_beta demo_van))) else int (unat (van_alpha demo_van)))"
  by (rule vanilla_latency_test) (simp_all add: demo_van_rtt)

theorem vanilla_latency_wraps_witness:
  "\<exists>change. vanilla_change (demo_sock\<lparr>srtt_us := 33554432\<rparr>) demo_van = Inr change \<and>
    sint change = int (unat (van_alpha demo_van))"
  by (rule vanilla_latency_wraps) (simp_all add: demo_van_rtt drop_bit_eq_div)

text \<open>The fixed-point counter loses nothing: when less than one segment was pending and the change
  of an acknowledgement (between -512 and 1024 units) is added, the window moves by d whole
  segments with d one of -1, 0 and 1, subject only to the floor of 10 and the clamp, and the
  counter keeps the rest, again less than one segment.\<close>

theorem vanilla_window_step:
  assumes "\<bar>sint (van_cnt ca)\<bar> < 1024" and "-512 \<le> sint change" and "sint change \<le> 1024"
    and "1 \<le> unat (vanilla_exit_recovery tp ca)" and "unat (vanilla_exit_recovery tp ca) < 2 ^ 32 - 1"
  shows "\<exists>tp' ca' d. vanilla_set_cwnd K tp (ca\<lparr>van_cnt := van_cnt ca + change\<rparr>) acked = Inr (tp', ca') \<and>
    -1 \<le> d \<and> d \<le> 1 \<and> \<bar>sint (van_cnt ca')\<bar> < 1024 \<and>
    sint (van_cnt ca') + 1024 * d = sint (van_cnt ca) + sint change \<and>
    int (unat (snd_cwnd tp')) =
      min (max (int (unat (vanilla_exit_recovery tp ca)) + d) 10) (int (unat (snd_cwnd_clamp tp)))"
proof -
  define t where "t = sint (van_cnt ca) + sint change"
  define d where "d = t sdiv 1024"
  have t: "-1536 < t" "t < 2048" using assms(1-3) by (auto simp: t_def)
  have cases_d: "d = 0 \<and> \<bar>t\<bar> < 1024 \<or> d = 1 \<and> 1024 \<le> t \<or> d = -1 \<and> t \<le> -1024"
    unfolding d_def by (rule sdiv_1024_cases [OF t])
  let ?ca = "ca\<lparr>van_cnt := van_cnt ca + change\<rparr>" and ?base = "vanilla_exit_recovery tp ca"
  have cnt: "van_cnt ca + change = word_of_int t" by (simp add: t_def)
  then have sc: "sint (van_cnt ca + change) = t" using t by (simp only:) (intro sint_s32_of_int, simp_all)
  then have div: "s32_div (van_cnt ca + change) VANILLA_SCALE = word_of_int d"
    by (simp add: s32_div_def VANILLA_SCALE_def d_def)
  have rest: "van_cnt ca + change - word_of_int d * VANILLA_SCALE = word_of_int (t - 1024 * d)"
    by (simp add: cnt VANILLA_SCALE_def mult.commute)
  define e where "e = t - 1024 * d"
  have e: "\<bar>e\<bar> < 1024" using cases_d t by (auto simp: e_def)
  then have "sint (word_of_int e :: s32) = e" by (intro sint_s32_of_int) simp_all
  with e have rest': "sint (word_of_int (t - 1024 * d) :: s32) = t - 1024 * d" "\<bar>t - 1024 * d\<bar> < 1024"
    by (simp_all only: e_def)
  have base: "vanilla_exit_recovery tp ?ca = ?base" by (simp add: vanilla_exit_recovery_def)
  have win: "int (unat (?base + word_of_int d)) = int (unat ?base) + d"
    using cases_d assms(4,5) by (intro unat_add_step) auto
  let ?cwnd = "min (max (?base + word_of_int d) 10) (snd_cwnd_clamp tp)"
  let ?ca' = "?ca\<lparr>van_cnt := word_of_int (t - 1024 * d)\<rparr>"
  obtain r st where set: "vanilla_set_cwnd K tp ?ca acked =
      Inr (tp\<lparr>snd_cwnd := ?cwnd, sk_pacing_status := st, sk_pacing_rate := r\<rparr>, ?ca')"
    using vanilla_set_cwnd_eq [of K tp ?ca acked] base div rest by auto
  have cwnd: "int (unat ?cwnd) = min (max (int (unat ?base) + d) 10) (int (unat (snd_cwnd_clamp tp)))"
    by (simp only: unat_min unat_max of_nat_min of_nat_max win) simp
  have d: "-1 \<le> d" "d \<le> 1" using cases_d by auto
  have sum: "t - 1024 * d + 1024 * d = sint (van_cnt ca) + sint change" by (simp add: t_def)
  have cnt': "van_cnt (ca\<lparr>van_cnt := x, van_cnt := y\<rparr>) = y" for x y by simp
  have cwnd': "snd_cwnd (tp\<lparr>snd_cwnd := x, sk_pacing_status := st, sk_pacing_rate := r\<rparr>) = x" for x
    by simp
  show ?thesis
    by (rule exI, rule exI, rule exI, intro conjI, rule set, rule d(1), rule d(2))
      (simp_all only: cnt' rest' cwnd' cwnd sum)
qed

theorem vanilla_window_step_witness:
  "\<exists>tp' ca' d. vanilla_set_cwnd demo_tcp demo_sock (demo_van\<lparr>van_cnt := van_cnt demo_van + 50\<rparr>) 1 = Inr (tp', ca') \<and>
    -1 \<le> d \<and> d \<le> 1 \<and> \<bar>sint (van_cnt ca')\<bar> < 1024 \<and>
    sint (van_cnt ca') + 1024 * d = sint (van_cnt demo_van) + sint (50 :: s32) \<and>
    int (unat (snd_cwnd tp')) =
      min (max (int (unat (vanilla_exit_recovery demo_sock demo_van)) + d) 10) (int (unat (snd_cwnd_clamp demo_sock)))"
  by (rule vanilla_window_step)
    (simp_all add: demo_van_def demo_sock_def vanilla_exit_recovery_def)

text \<open>A loss sets the window to delta / 1024 of its value, at least 2 and at most the clamp, and
  reports it as the threshold: as long as the 32-bit product does not overflow, a valid delta
  never grows a window of two segments or more, and the old window is remembered.\<close>

theorem vanilla_loss_shrinks_window:
  assumes "unat (van_delta ca) \<le> 1024" and "unat (van_delta ca) * unat (snd_cwnd tp) < 2 ^ 32"
    and "2 \<le> snd_cwnd tp"
  shows "\<exists>tp' ca'. vanilla_ssthresh tp ca = (snd_cwnd tp', tp', ca') \<and> van_prior_cwnd ca' = snd_cwnd tp \<and>
    unat (snd_cwnd tp') = min (max (unat (van_delta ca) * unat (snd_cwnd tp) div 1024) 2) (unat (snd_cwnd_clamp tp)) \<and>
    snd_cwnd tp' \<le> snd_cwnd tp"
proof -
  let ?n = "unat (van_delta ca) * unat (snd_cwnd tp)"
  have "unat (ucast (van_delta ca) * snd_cwnd tp) = ?n"
    using assms(2) by (subst unat_mult_exact) (simp_all add: unat_ucast_up)
  then have q: "unat ((ucast (van_delta ca) * snd_cwnd tp) div VANILLA_SCALE) = ?n div 1024"
    by (simp add: unat_div VANILLA_SCALE_def)
  have "?n div 1024 \<le> unat (snd_cwnd tp)"
    using div_le_mono [OF mult_le_mono1 [OF assms(1)], of "unat (snd_cwnd tp)" 1024] by simp
  moreover have "2 \<le> unat (snd_cwnd tp)" using assms(3) by (simp add: word_le_nat_alt)
  ultimately show ?thesis
    using q by (auto simp: vanilla_ssthresh_def Let_def unat_min unat_max word_le_nat_alt)
qed

theorem vanilla_loss_shrinks_window_witness:
  "\<exists>tp' ca'. vanilla_ssthresh demo_sock demo_van = (snd_cwnd tp', tp', ca') \<and> van_prior_cwnd ca' = snd_cwnd demo_sock \<and>
    unat (snd_cwnd tp') = min (max (unat (van_delta demo_van) * unat (snd_cwnd demo_sock) div 1024) 2) (unat (snd_cwnd_clamp demo_sock)) \<and>
    snd_cwnd tp' \<le> snd_cwnd demo_sock"
  by (rule vanilla_loss_shrinks_window) (simp_all add: demo_van_def demo_sock_def)

text \<open>The minimum round-trip time is the smallest of its old value and one more than every
  non-negative sample, in microseconds, whatever the order of the samples; negative samples are
  ignored and a sample of 2^31 - 1 does not overflow.\<close>

theorem vanilla_min_rtt_is_minimum:
  "unat (min_rtt_us (fold (\<lambda>smp ca. vanilla_pkt_acked ca smp) smps ca)) =
    Min (set (unat (min_rtt_us ca) #
      map (\<lambda>smp. nat (sint (as_rtt_us smp)) + 1) (filter (\<lambda>smp. 0 \<le> sint (as_rtt_us smp)) smps)))"
proof (induction smps arbitrary: ca)
  case Nil
  show ?case by simp
next
  case (Cons smp smps)
  let ?S = "set (map (\<lambda>smp. nat (sint (as_rtt_us smp)) + 1) (filter (\<lambda>smp. 0 \<le> sint (as_rtt_us smp)) smps))"
  have one: "unat (min_rtt_us (vanilla_pkt_acked ca smp)) =
      (if 0 \<le> sint (as_rtt_us smp) then min (unat (min_rtt_us ca)) (nat (sint (as_rtt_us smp)) + 1)
       else unat (min_rtt_us ca))"
    using unat_sample_plus_1 [of "as_rtt_us smp"]
    by (auto simp: vanilla_pkt_acked_def word_less_nat_alt Let_def min_def)
  have "unat (min_rtt_us (fold (\<lambda>smp ca. vanilla_pkt_acked ca smp) (smp # smps) ca)) =
      Min (insert (unat (min_rtt_us (vanilla_pkt_acked ca smp))) ?S)"
    using Cons.IH [of "vanilla_pkt_acked ca smp"] by simp
  also have "\<dots> = Min (set (unat (min_rtt_us ca) #
      map (\<lambda>smp. nat (sint (as_rtt_us smp)) + 1) (filter (\<lambda>smp. 0 \<le> sint (as_rtt_us smp)) (smp # smps))))"
    unfolding one by (cases "?S = {}") (simp_all add: Min_insert min.assoc min.left_commute del: Suc_eq_plus1)
  finally show ?case .
qed

end
