(* ===== verification/Scubic.thy ===== *)
theory Scubic
  imports Netlink "HOL-Library.While_Combinator"
begin

text \<open>
  tcp_scubic.c: CUBIC with its scale and its decrease factor set by user space. Every read of the
  kernel's clocks is a separate call that may return another value (\<open>clock_api\<close>, with the
  environment threaded through); the module parameters of the source, which the administrator can
  change at any time, are an argument of each call (\<open>scubic_config\<close>).
\<close>

section \<open>Constants, state and what the kernel provides\<close>

definition BICTCP_BETA_SCALE :: s32 where [c_consts]: "BICTCP_BETA_SCALE = 1024"
definition BICTCP_HZ :: nat where [c_consts]: "BICTCP_HZ = 10"
definition HYSTART_ACK_TRAIN :: s32 where [c_consts]: "HYSTART_ACK_TRAIN = 1"
definition HYSTART_DELAY :: s32 where [c_consts]: "HYSTART_DELAY = 2"
definition HYSTART_MIN_SAMPLES :: u8 where [c_consts]: "HYSTART_MIN_SAMPLES = 8"
definition HYSTART_DELAY_MIN :: u32 where [c_consts]: "HYSTART_DELAY_MIN = 32"
definition HYSTART_DELAY_MAX :: u32 where [c_consts]: "HYSTART_DELAY_MAX = 128"
definition SCUBIC_PARAM_NUM :: u8 where [c_consts]: "SCUBIC_PARAM_NUM = 2"

definition HYSTART_DELAY_THRESH :: "u32 \<Rightarrow> u32" where
  "HYSTART_DELAY_THRESH x = min (max x HYSTART_DELAY_MIN) HYSTART_DELAY_MAX"

record scubic_config =
  fast_convergence :: s32
  initial_ssthresh :: s32
  tcp_friendliness :: s32
  cfg_hystart :: s32
  hystart_detect :: s32
  hystart_low_window :: s32
  hystart_ack_delta :: s32

record bictcp =
  bt_cnt :: u32
  last_max_cwnd :: u32
  last_cwnd :: u32
  last_time :: u32
  bic_origin_point :: u32
  bic_K :: u32
  delay_min :: u32
  epoch_start :: u32
  ack_cnt :: u32
  tcp_cwnd :: u32
  bt_unused :: u16
  sample_cnt :: u8
  bt_found :: u8
  round_start :: u32
  end_seq :: u32
  last_ack :: u32
  curr_rtt :: u32
  bt_beta :: s32
  bic_scale :: s32
  cube_rtt_scale :: u32
  beta_scale :: u32
  cube_factor :: u64
  bt_conn :: "nat option"

text \<open>
  The kernel's clocks (the jiffy counter, the real-time clock and the jiffy counter in
  milliseconds), its unit conversion, the index of the highest bit set and the tick rate.
\<close>

record 'e clock_api =
  tcp_jiffies32 :: "'e \<Rightarrow> u32 \<times> 'e"
  ktime_real_ms :: "'e \<Rightarrow> u32 \<times> 'e"
  jiffies_ms :: "'e \<Rightarrow> u32 \<times> 'e"
  msecs_to_jiffies :: "u32 \<Rightarrow> u64"
  fls64 :: "u64 \<Rightarrow> u32"
  kernel_HZ :: u32

datatype tcp_ca_event =
    CA_EVENT_TX_START | CA_EVENT_CWND_RESTART | CA_EVENT_COMPLETE_CWR | CA_EVENT_LOSS
  | CA_EVENT_ECN_NO_CE | CA_EVENT_ECN_IS_CE

type_synonym 'e scubic_world = "(bictcp, 'e) kworld"

text \<open>The sequence comparison \<open>after(a, b)\<close> of the TCP stack, and signed division that traps on 0.\<close>

definition seq_after :: "u32 \<Rightarrow> u32 \<Rightarrow> bool" where
  "seq_after a b \<longleftrightarrow> sint (b - a) < 0"

definition s32_quot :: "s32 \<Rightarrow> s32 \<Rightarrow> s32 res" where
  "s32_quot a b = (if b = 0 then Inl Div_By_Zero else Inr (s32_div a b))"

section \<open>Parameters\<close>

definition bictcp_update_params :: "bictcp \<Rightarrow> bictcp res" where
  "bictcp_update_params ca =
     rbind (s32_quot (8 * (BICTCP_BETA_SCALE + bt_beta ca)) 3) (\<lambda>third.
     rbind (s32_quot third (BICTCP_BETA_SCALE - bt_beta ca)) (\<lambda>scale.
     rbind (do_div (push_bit (10 + 3 * BICTCP_HZ) 1) (bic_scale ca * 10)) (\<lambda>factor.
       Inr (ca\<lparr>beta_scale := scale, cube_factor := factor\<rparr>))))"

definition scubic_set_params :: "'e scubic_world set_params_fn" where
  "scubic_set_params conn params num_fields w =
     (if num_fields = 0 then Inr w
      else if fi_alg (flow_info conn) \<noteq> SPINE_CUBIC then Inr w
      else if num_fields \<noteq> SCUBIC_PARAM_NUM then Inr w
      else let sk = get_sock_from_spine conn in
        rbind (sock_ref w sk) (\<lambda>s.
        rbind (array_get params 0) (\<lambda>p0. if p0 = 0 then Inr w else
        rbind (array_get params 1) (\<lambda>p1.
          if p1 = 0 \<or> p0 \<ge> 1024 \<or> p1 \<ge> 1024 then Inr w
          else rbind (bictcp_update_params ((sk_ca s)\<lparr>bic_scale := ucast p0, bt_beta := ucast p1\<rparr>))
            (\<lambda>ca. Inr (sock_put w sk (s\<lparr>sk_ca := ca\<rparr>)))))))"

section \<open>Opening and closing a flow\<close>

definition bictcp_release ::
  "'e scubic_world spine_datapath \<Rightarrow> nat \<Rightarrow> 'e scubic_world \<Rightarrow>
   ('e scubic_world spine_datapath \<times> 'e scubic_world) res" where
  "bictcp_release dp sk w = rbind (sock_ref w sk) (\<lambda>s.
     case bt_conn (sk_ca s) of
       None \<Rightarrow> Inr (dp, w)
     | Some i \<Rightarrow> rbind (conn_ref dp i) (\<lambda>c. spine_connection_free dp (conn_index c) w))"

definition bictcp_reset :: "bictcp \<Rightarrow> bictcp" where
  "bictcp_reset ca = ca\<lparr>bt_cnt := 0, last_max_cwnd := 0, last_cwnd := 0, last_time := 0,
     bic_origin_point := 0, bic_K := 0, delay_min := 0, epoch_start := 0, ack_cnt := 0,
     tcp_cwnd := 0, bt_found := 0\<rparr>"

definition bictcp_clock :: "'e clock_api \<Rightarrow> 'e \<Rightarrow> u32 \<times> 'e" where
  "bictcp_clock J e = (if kernel_HZ J < 1000 then ktime_real_ms J e else jiffies_ms J e)"

definition bictcp_hystart_reset :: "'e clock_api \<Rightarrow> tcp_sock \<Rightarrow> bictcp \<Rightarrow> 'e \<Rightarrow> bictcp \<times> 'e" where
  "bictcp_hystart_reset J tp ca e =
     (let (now, e1) = bictcp_clock J e in
      (ca\<lparr>round_start := now, last_ack := now, end_seq := snd_nxt tp, curr_rtt := 0, sample_cnt := 0\<rparr>, e1))"

text \<open>The state a new flow starts from, before it is announced.\<close>

definition bictcp_init_state ::
  "'e clock_api \<Rightarrow> scubic_config \<Rightarrow> tcp_sock \<Rightarrow> bictcp \<Rightarrow> 'e \<Rightarrow> (tcp_sock \<times> bictcp \<times> 'e) res" where
  "bictcp_init_state J P tp ca e =
     (let ca0 = bictcp_reset ca;
          (ca1, e1) = (if cfg_hystart P \<noteq> 0 then bictcp_hystart_reset J tp ca0 e else (ca0, e));
          tp1 = (if cfg_hystart P = 0 \<and> initial_ssthresh P \<noteq> 0
                 then tp\<lparr>snd_ssthresh := initial_ssthresh P\<rparr> else tp) in
      rbind (bictcp_update_params (ca1\<lparr>bic_scale := 41, bt_beta := 717\<rparr>)) (\<lambda>ca2.
        Inr (tp1, ca2, e1)))"

definition bictcp_init ::
  "tcp_api \<Rightarrow> 'e clock_api \<Rightarrow> scubic_config \<Rightarrow> ('e \<Rightarrow> bool \<times> 'e) \<Rightarrow> 'e scubic_world spine_datapath \<Rightarrow>
   nat \<Rightarrow> 'e scubic_world \<Rightarrow> ('e scubic_world spine_datapath \<times> 'e scubic_world) res" where
  "bictcp_init K J P A dp sk w = rbind (sock_ref w sk) (\<lambda>s.
     rbind (bictcp_init_state J P (sk_tp s) (sk_ca s) (kw_env w)) (\<lambda>(tp1, ca1, e1).
     rbind (spine_connection_start (kw_alloc A) dp sk (dp_info_of tp1 ''scubic'' SPINE_CUBIC)
              (sock_put (w\<lparr>kw_env := e1\<rparr>) sk \<lparr>sk_tp = tp1, sk_ca = ca1\<rparr>)) (\<lambda>(conn, dp1, w1).
     rbind (sock_ref w1 sk) (\<lambda>s1.
       let tp = sk_tp s1;
           tp2 = (if ecn_flags tp AND TCP_ECN_OK = 0 then INET_ECN_dontxmit K tp else tp) in
       Inr (dp1, sock_put w1 sk \<lparr>sk_tp = need_pacing tp2, sk_ca = (sk_ca s1)\<lparr>bt_conn := conn\<rparr>\<rparr>)))))"

section \<open>Idle periods\<close>

definition bictcp_cwnd_event ::
  "'e clock_api \<Rightarrow> tcp_sock \<Rightarrow> bictcp \<Rightarrow> tcp_ca_event \<Rightarrow> 'e \<Rightarrow> bictcp \<times> 'e" where
  "bictcp_cwnd_event J tp ca event e =
     (if event \<noteq> CA_EVENT_TX_START then (ca, e)
      else let (now, e1) = tcp_jiffies32 J e; delta = now - lsndtime tp in
        if epoch_start ca \<noteq> 0 \<and> sint delta > 0 then
          let ca1 = ca\<lparr>epoch_start := epoch_start ca + delta\<rparr> in
          (if seq_after (epoch_start ca1) now then ca1\<lparr>epoch_start := now\<rparr> else ca1, e1)
        else (ca, e1))"

section \<open>The cube root\<close>

definition cbrt_table :: "u8 list" where
  "cbrt_table =
    [0, 54, 54, 54, 118, 118, 118, 118,
     123, 129, 134, 138, 143, 147, 151, 156,
     157, 161, 164, 168, 170, 173, 176, 179,
     181, 185, 187, 190, 192, 194, 197, 199,
     200, 202, 204, 206, 209, 211, 213, 215,
     217, 219, 221, 222, 224, 225, 227, 229,
     231, 232, 234, 236, 237, 239, 240, 242,
     244, 245, 246, 248, 250, 251, 252, 254]"

text \<open>The first estimate from the table, and the Newton-Raphson step.\<close>

definition cbrt_estimate :: "u64 \<Rightarrow> u32 \<Rightarrow> u32 res" where
  "cbrt_estimate a fls =
     (let b = drop_bit 8 (fls * 84) - 1; shift = ucast (drop_bit (unat (b * 3)) a) :: u32 in
      rbind (array_get cbrt_table (unat shift)) (\<lambda>v.
        Inr (drop_bit 6 (push_bit (unat b) (ucast v + 10)))))"

definition cbrt_newton :: "u64 \<Rightarrow> u32 \<Rightarrow> u32 res" where
  "cbrt_newton a x = rbind (u64_div a (ucast x * ucast (x - 1))) (\<lambda>q.
     Inr (drop_bit 10 ((2 * x + ucast q) * 341)))"

definition cubic_root :: "(u64 \<Rightarrow> u32) \<Rightarrow> u64 \<Rightarrow> u32 res" where
  "cubic_root fls a =
     (let b = fls a in
      if b < 7 then rbind (array_get cbrt_table (unat (ucast a :: u32))) (\<lambda>v.
        Inr (drop_bit 6 (ucast v + 35)))
      else rbind (cbrt_estimate a b) (\<lambda>x. cbrt_newton a x))"

section \<open>The window growth\<close>

text \<open>The start of an epoch: the time \<open>bic_K\<close> to the origin point and the origin itself.\<close>

definition bictcp_start_epoch ::
  "'e clock_api \<Rightarrow> bictcp \<Rightarrow> u32 \<Rightarrow> u32 \<Rightarrow> 'e \<Rightarrow> (bictcp \<times> 'e) res" where
  "bictcp_start_epoch J ca cwnd acked e =
     (if epoch_start ca \<noteq> 0 then Inr (ca, e)
      else let (now, e1) = tcp_jiffies32 J e;
               ca1 = ca\<lparr>epoch_start := now, ack_cnt := acked, tcp_cwnd := cwnd,
                        cube_rtt_scale := bic_scale ca * 10\<rparr> in
        if last_max_cwnd ca1 \<le> cwnd
        then Inr (ca1\<lparr>bic_K := 0, bic_origin_point := cwnd\<rparr>, e1)
        else rbind (cubic_root (fls64 J) (cube_factor ca1 * ucast (last_max_cwnd ca1 - cwnd))) (\<lambda>k.
          Inr (ca1\<lparr>bic_K := k, bic_origin_point := last_max_cwnd ca1\<rparr>, e1)))"

text \<open>The cubic function at time \<open>t\<close> (in units of 1/1024 s) and the count it amounts to.\<close>

definition bic_target :: "bictcp \<Rightarrow> u64 \<Rightarrow> u32" where
  "bic_target ca t =
     (let offs = (if t < ucast (bic_K ca) then ucast (bic_K ca) - t else t - ucast (bic_K ca));
          delta = ucast (drop_bit (10 + 3 * BICTCP_HZ) (ucast (cube_rtt_scale ca) * offs * offs * offs)) in
      if t < ucast (bic_K ca) then bic_origin_point ca - delta else bic_origin_point ca + delta)"

definition bictcp_curve :: "'e clock_api \<Rightarrow> bictcp \<Rightarrow> u32 \<Rightarrow> 'e \<Rightarrow> (bictcp \<times> 'e) res" where
  "bictcp_curve J ca cwnd e =
     (let (now, e1) = tcp_jiffies32 J e;
          t0 = scast (now - epoch_start ca) + msecs_to_jiffies J (drop_bit 3 (delay_min ca)) in
      rbind (do_div (push_bit BICTCP_HZ t0) (kernel_HZ J)) (\<lambda>t.
        let target = bic_target ca t in
        rbind (if target > cwnd then u32_div cwnd (target - cwnd) else Inr (100 * cwnd)) (\<lambda>n.
          Inr (ca\<lparr>bt_cnt := if last_max_cwnd ca = 0 \<and> n > 20 then 20 else n\<rparr>, e1))))"

text \<open>The loop that advances the window plain TCP would have, which need not end.\<close>

definition friendly_loop :: "u32 \<Rightarrow> u32 \<Rightarrow> u32 \<Rightarrow> (u32 \<times> u32) res" where
  "friendly_loop delta acks cwnd =
     (case while_option (\<lambda>(a, c). a > delta) (\<lambda>(a, c). (a - delta, c + 1)) (acks, cwnd) of
        None \<Rightarrow> Inl Diverges
      | Some r \<Rightarrow> Inr r)"

definition bictcp_friendliness :: "scubic_config \<Rightarrow> bictcp \<Rightarrow> u32 \<Rightarrow> bictcp res" where
  "bictcp_friendliness P ca cwnd =
     (if tcp_friendliness P = 0 then Inr ca
      else rbind (friendly_loop (drop_bit 3 (cwnd * beta_scale ca)) (ack_cnt ca) (tcp_cwnd ca)) (\<lambda>(a, c).
        let ca1 = ca\<lparr>ack_cnt := a, tcp_cwnd := c\<rparr> in
        if tcp_cwnd ca1 > cwnd
        then rbind (u32_div cwnd (tcp_cwnd ca1 - cwnd)) (\<lambda>max_cnt.
          Inr (if bt_cnt ca1 > max_cnt then ca1\<lparr>bt_cnt := max_cnt\<rparr> else ca1))
        else Inr ca1))"

text \<open>\<open>bictcp_update\<close>: two early exits, the curve, the friendliness and the lower bound of 2.\<close>

definition update_too_soon :: "'e clock_api \<Rightarrow> bictcp \<Rightarrow> u32 \<Rightarrow> 'e \<Rightarrow> bool \<times> 'e" where
  "update_too_soon J ca cwnd e =
     (if last_cwnd ca = cwnd
      then let (now, e1) = tcp_jiffies32 J e in
        (sint (now - last_time ca) \<le> sint (s32_div (kernel_HZ J) 32), e1)
      else (False, e))"

definition same_jiffy :: "'e clock_api \<Rightarrow> bictcp \<Rightarrow> 'e \<Rightarrow> bool \<times> 'e" where
  "same_jiffy J ca e =
     (if epoch_start ca \<noteq> 0
      then let (now, e1) = tcp_jiffies32 J e in (now = last_time ca, e1)
      else (False, e))"

definition bictcp_recompute ::
  "'e clock_api \<Rightarrow> bictcp \<Rightarrow> u32 \<Rightarrow> u32 \<Rightarrow> 'e \<Rightarrow> (bictcp \<times> 'e) res" where
  "bictcp_recompute J ca cwnd acked e =
     (let (now, e1) = tcp_jiffies32 J e; ca1 = ca\<lparr>last_cwnd := cwnd, last_time := now\<rparr> in
      rbind (bictcp_start_epoch J ca1 cwnd acked e1) (\<lambda>(ca2, e2). bictcp_curve J ca2 cwnd e2))"

definition bictcp_update ::
  "'e clock_api \<Rightarrow> scubic_config \<Rightarrow> bictcp \<Rightarrow> u32 \<Rightarrow> u32 \<Rightarrow> 'e \<Rightarrow> (bictcp \<times> 'e) res" where
  "bictcp_update J P ca cwnd acked e =
     (let ca0 = ca\<lparr>ack_cnt := ack_cnt ca + acked\<rparr>; (soon, e0) = update_too_soon J ca0 cwnd e in
      if soon then Inr (ca0, e0)
      else let (same, e1) = same_jiffy J ca0 e0 in
        rbind (if same then Inr (ca0, e1) else bictcp_recompute J ca0 cwnd acked e1) (\<lambda>(ca1, e2).
        rbind (bictcp_friendliness P ca1 cwnd) (\<lambda>ca2.
          Inr (ca2\<lparr>bt_cnt := max (bt_cnt ca2) 2\<rparr>, e2))))"

section \<open>Handlers of the module\<close>

text \<open>What \<open>bictcp_cong_avoid\<close> does after the invocation of the library.\<close>

definition bictcp_grow ::
  "tcp_api \<Rightarrow> 'e clock_api \<Rightarrow> scubic_config \<Rightarrow> bictcp ksock \<Rightarrow> u32 \<Rightarrow> u32 \<Rightarrow> 'e \<Rightarrow> (bictcp ksock \<times> 'e) res" where
  "bictcp_grow K J P s ack acked e =
     (let tp = sk_tp s; ca = sk_ca s in
      if \<not> tcp_is_cwnd_limited K tp then Inr (s, e)
      else let slow = tcp_in_slow_start K tp;
               (ca1, e1) = (if slow \<and> cfg_hystart P \<noteq> 0 \<and> seq_after ack (end_seq ca)
                            then bictcp_hystart_reset J tp ca e else (ca, e));
               (acked1, tp1) = (if slow then tcp_slow_start K tp acked else (acked, tp)) in
        if slow \<and> acked1 = 0 then Inr (\<lparr>sk_tp = tp1, sk_ca = ca1\<rparr>, e1)
        else rbind (bictcp_update J P ca1 (snd_cwnd tp1) acked1 e1) (\<lambda>(ca2, e2).
          Inr (\<lparr>sk_tp = tcp_cong_avoid_ai K tp1 (bt_cnt ca2) acked1, sk_ca = ca2\<rparr>, e2)))"

definition bictcp_cong_avoid ::
  "tcp_api \<Rightarrow> 'e clock_api \<Rightarrow> scubic_config \<Rightarrow> 'e scubic_world spine_datapath \<Rightarrow> nat \<Rightarrow> u32 \<Rightarrow> u32 \<Rightarrow>
   'e scubic_world \<Rightarrow> ('e scubic_world spine_datapath \<times> 'e scubic_world) res" where
  "bictcp_cong_avoid K J P dp sk ack acked w = rbind (sock_ref w sk) (\<lambda>s.
     rbind (case bt_conn (sk_ca s) of
              None \<Rightarrow> Inr (dp, w)
            | Some i \<Rightarrow> rbind (spine_invoke dp (Some i) w) (\<lambda>(ok, dp', w'). Inr (dp', w')))
       (\<lambda>(dp1, w1). rbind (sock_ref w1 sk) (\<lambda>s1.
         rbind (bictcp_grow K J P s1 ack acked (kw_env w1)) (\<lambda>(s2, e2).
           Inr (dp1, sock_put (w1\<lparr>kw_env := e2\<rparr>) sk s2)))))"

definition bictcp_recalc_ssthresh :: "scubic_config \<Rightarrow> tcp_sock \<Rightarrow> bictcp \<Rightarrow> u32 \<times> bictcp" where
  "bictcp_recalc_ssthresh P tp ca =
     (let ca1 = ca\<lparr>epoch_start := 0\<rparr>;
          ca2 = (if snd_cwnd tp < last_max_cwnd ca1 \<and> fast_convergence P \<noteq> 0
             then ca1\<lparr>last_max_cwnd := (snd_cwnd tp * (BICTCP_BETA_SCALE + bt_beta ca1)) div (2 * BICTCP_BETA_SCALE)\<rparr>
             else ca1\<lparr>last_max_cwnd := snd_cwnd tp\<rparr>) in
      (max ((snd_cwnd tp * bt_beta ca2) div BICTCP_BETA_SCALE) 2, ca2))"

definition bictcp_state ::
  "'e clock_api \<Rightarrow> tcp_sock \<Rightarrow> bictcp \<Rightarrow> tcp_ca_state \<Rightarrow> 'e \<Rightarrow> bictcp \<times> 'e" where
  "bictcp_state J tp ca new_state e =
     (if new_state = TCP_CA_Loss then bictcp_hystart_reset J tp (bictcp_reset ca) e else (ca, e))"

text \<open>
  Hybrid slow start. The train test compares a signed difference with an unsigned value, which C
  does unsigned.
\<close>

definition hystart_train ::
  "'e clock_api \<Rightarrow> scubic_config \<Rightarrow> tcp_sock \<Rightarrow> bictcp \<Rightarrow> 'e \<Rightarrow> tcp_sock \<times> bictcp \<times> 'e" where
  "hystart_train J P tp ca e =
     (let (now, e1) = bictcp_clock J e in
      if sint (now - last_ack ca) \<le> sint (hystart_ack_delta P) then
        let ca1 = ca\<lparr>last_ack := now\<rparr> in
        if now - round_start ca1 > drop_bit 4 (delay_min ca1)
        then (tp\<lparr>snd_ssthresh := snd_cwnd tp\<rparr>, ca1\<lparr>bt_found := bt_found ca1 OR ucast HYSTART_ACK_TRAIN\<rparr>, e1)
        else (tp, ca1, e1)
      else (tp, ca, e1))"

definition hystart_delay_check :: "tcp_sock \<Rightarrow> bictcp \<Rightarrow> u32 \<Rightarrow> tcp_sock \<times> bictcp" where
  "hystart_delay_check tp ca delay =
     (let ca1 = (if curr_rtt ca > delay then ca\<lparr>curr_rtt := delay\<rparr> else ca) in
      if sample_cnt ca1 < HYSTART_MIN_SAMPLES then
        let ca2 = (if curr_rtt ca1 = 0 \<or> curr_rtt ca1 > delay then ca1\<lparr>curr_rtt := delay\<rparr> else ca1) in
        (tp, ca2\<lparr>sample_cnt := sample_cnt ca2 + 1\<rparr>)
      else if curr_rtt ca1 > delay_min ca1 + HYSTART_DELAY_THRESH (drop_bit 3 (delay_min ca1))
      then (tp\<lparr>snd_ssthresh := snd_cwnd tp\<rparr>, ca1\<lparr>bt_found := bt_found ca1 OR ucast HYSTART_DELAY\<rparr>)
      else (tp, ca1))"

definition hystart_update ::
  "'e clock_api \<Rightarrow> scubic_config \<Rightarrow> tcp_sock \<Rightarrow> bictcp \<Rightarrow> u32 \<Rightarrow> 'e \<Rightarrow> tcp_sock \<times> bictcp \<times> 'e" where
  "hystart_update J P tp ca delay e =
     (if ucast (bt_found ca) AND hystart_detect P \<noteq> 0 then (tp, ca, e)
      else let (tp1, ca1, e1) =
          (if hystart_detect P AND HYSTART_ACK_TRAIN \<noteq> 0 then hystart_train J P tp ca e else (tp, ca, e)) in
        if hystart_detect P AND HYSTART_DELAY \<noteq> 0
        then let (tp2, ca2) = hystart_delay_check tp1 ca1 delay in (tp2, ca2, e1)
        else (tp1, ca1, e1))"

text \<open>The delay of a sample, in units of 1/8 ms, at least 1.\<close>

definition sample_delay :: "s32 \<Rightarrow> u32" where
  "sample_delay rtt_us =
     (let delay = s32_div (push_bit 3 rtt_us) USEC_PER_MSEC in if delay = 0 then 1 else delay)"

definition bictcp_acked ::
  "tcp_api \<Rightarrow> 'e clock_api \<Rightarrow> scubic_config \<Rightarrow> tcp_sock \<Rightarrow> bictcp \<Rightarrow> ack_sample \<Rightarrow> 'e \<Rightarrow>
   tcp_sock \<times> bictcp \<times> 'e" where
  "bictcp_acked K J P tp ca sample e =
     (if sint (as_rtt_us sample) < 0 then (tp, ca, e)
      else let (now, e1) = (if epoch_start ca \<noteq> 0 then tcp_jiffies32 J e else (0, e)) in
        if epoch_start ca \<noteq> 0 \<and> sint (now - epoch_start ca) < sint (kernel_HZ J) then (tp, ca, e1)
        else let delay = sample_delay (as_rtt_us sample);
                 ca1 = (if delay_min ca = 0 \<or> delay_min ca > delay then ca\<lparr>delay_min := delay\<rparr> else ca) in
          if cfg_hystart P \<noteq> 0 \<and> tcp_in_slow_start K tp \<and> snd_cwnd tp \<ge> hystart_low_window P
          then hystart_update J P tp ca1 delay e1 else (tp, ca1, e1))"

end
