(* ===== verification/Scubic_Math.thy ===== *)
theory Scubic_Math
  imports Scubic
begin

text \<open>
  The arithmetic of tcp_scubic.c: the loop of the TCP-friendly window in closed form, the range of
  the scale factors a valid command computes, and the cube root, which never indexes past its
  table nor divides by zero.
\<close>

section \<open>The friendliness loop\<close>

abbreviation friendly_while :: "u32 \<Rightarrow> u32 \<times> u32 \<Rightarrow> (u32 \<times> u32) option" where
  "friendly_while delta \<equiv> while_option (\<lambda>(a, c). a > delta) (\<lambda>(a, c). (a - delta, c + 1))"

text \<open>How often the body runs.\<close>

definition friendly_steps :: "u32 \<Rightarrow> u32 \<Rightarrow> nat" where
  "friendly_steps delta acks = (unat acks - 1) div unat delta"

lemma friendly_while_stuck: "0 < acks \<Longrightarrow> friendly_while 0 (acks, c) = None"
proof (rule ccontr)
  assume pos: "0 < acks" and "friendly_while 0 (acks, c) \<noteq> None"
  then obtain r where r: "friendly_while 0 (acks, c) = Some r" by auto
  have "(\<lambda>(a, c). 0 < a) r"
    by (rule while_option_rule [OF _ r]) (use pos in auto)
  with while_option_stop [OF r] show False by auto
qed

lemma friendly_while_eq:
  assumes "delta \<noteq> 0"
  shows "friendly_while delta (acks, c) = Some (acks - of_nat (friendly_steps delta acks) * delta,
    c + of_nat (friendly_steps delta acks))"
proof (induction "unat acks" arbitrary: acks c rule: less_induct)
  case less
  have d: "0 < unat delta" using assms by (simp add: unat_gt_0)
  show ?case
  proof (cases "acks > delta")
    case False
    then have "unat acks - 1 < unat delta" using d by (simp add: word_less_nat_alt)
    then have "friendly_steps delta acks = 0" by (simp add: friendly_steps_def)
    with False show ?thesis by (subst while_option_unfold) simp
  next
    case True
    then have lt: "unat delta < unat acks" by (simp add: word_less_nat_alt)
    then have sub: "unat (acks - delta) = unat acks - unat delta"
      by (simp add: unat_sub word_le_nat_alt)
    have "unat acks - 1 = (unat acks - unat delta - 1) + unat delta" using lt d by simp
    then have steps: "friendly_steps delta acks = Suc (friendly_steps delta (acks - delta))"
      using d unfolding friendly_steps_def sub by (simp only: div_add_self2)
    have "friendly_while delta (acks, c) = friendly_while delta (acks - delta, c + 1)"
      using True by (subst while_option_unfold) simp
    also have "\<dots> = Some (acks - delta - of_nat (friendly_steps delta (acks - delta)) * delta,
        c + 1 + of_nat (friendly_steps delta (acks - delta)))"
      using sub lt d by (intro less) simp
    finally show ?thesis unfolding steps by (simp add: algebra_simps)
  qed
qed

lemma friendly_loop_ok:
  "delta \<noteq> 0 \<Longrightarrow> \<exists>a c'. friendly_loop delta acks c = Inr (a, c')"
  by (simp add: friendly_loop_def friendly_while_eq)

lemma friendly_loop_diverges: "0 < acks \<Longrightarrow> friendly_loop 0 acks c = Inl Diverges"
  by (simp only: friendly_loop_def friendly_while_stuck option.simps)

lemma friendly_loop_none: "friendly_loop delta 0 c = Inr (0, c)"
  unfolding friendly_loop_def by (subst while_option_unfold) simp

section \<open>Scale factors\<close>

lemma s32_quot_ok:
  assumes "unat a < 2 ^ 31" and "0 < unat b" and "unat b < 2 ^ 31"
  shows "s32_quot a b = Inr (word_of_nat (unat a div unat b))"
proof -
  define m n where "m = unat a" and "n = unat b"
  have small: "sint x = int (unat x)" if "unat x < 2 ^ 31" for x :: s32
    using that sint_word_of_nat_small [of "unat x", where 'a = 32] by simp
  have s: "sint a = int m" "sint b = int n"
    unfolding m_def n_def by (rule small [OF assms(1)], rule small [OF assms(3)])
  have "b \<noteq> 0" using assms(2) by (simp add: unat_gt_0)
  then show ?thesis
    by (simp only: s32_quot_def s32_div_def s sdiv_nonneg of_nat_0_le_iff m_def n_def flip: zdiv_int) simp
qed

definition beta_scale_of :: "nat \<Rightarrow> nat" where
  "beta_scale_of b = 8 * (1024 + b) div 3 div (1024 - b)"

lemma beta_scale_range:
  assumes "1 \<le> b" and "b \<le> 1023"
  shows "2 \<le> beta_scale_of b" and "beta_scale_of b \<le> 5458" and "512 \<le> b \<Longrightarrow> 8 \<le> beta_scale_of b"
proof -
  define q where "q = 8 * (1024 + b) div 3"
  have q: "3 * q \<le> 8 * (1024 + b)" "8 * (1024 + b) < 3 * q + 3" unfolding q_def by linarith+
  have pos: "0 < 1024 - b" using assms by simp
  have "2 * (1024 - b) \<le> q" using q assms by (simp add: algebra_simps)
  then show "2 \<le> beta_scale_of b"
    unfolding beta_scale_of_def q_def [symmetric] using pos by (subst less_eq_div_iff_mult_less_eq)
  have "8 * (1024 - b) \<le> q" if "512 \<le> b" using q assms that by (simp add: algebra_simps)
  then show "8 \<le> beta_scale_of b" if "512 \<le> b"
    unfolding beta_scale_of_def q_def [symmetric] using pos that
    by (subst less_eq_div_iff_mult_less_eq) simp_all
  have "3 * q < 3 * 5459" using q assms(2) by (simp add: algebra_simps)
  then have "q \<le> 5458" by simp
  then show "beta_scale_of b \<le> 5458"
    unfolding beta_scale_of_def q_def [symmetric] by (meson div_le_dividend order_trans)
qed

text \<open>What a valid pair of parameters computes.\<close>

lemma bictcp_update_params_ok:
  assumes "1 \<le> unat (bt_beta ca)" and "unat (bt_beta ca) \<le> 1023"
    and "1 \<le> unat (bic_scale ca)" and "unat (bic_scale ca) \<le> 1023"
  shows "bictcp_update_params ca = Inr (ca\<lparr>beta_scale := word_of_nat (beta_scale_of (unat (bt_beta ca))),
    cube_factor := 2 ^ 40 div ucast (bic_scale ca * 10)\<rparr>)"
proof -
  let ?b = "unat (bt_beta ca)"
  have add: "unat (1024 + bt_beta ca) = 1024 + ?b" using assms(2) by (simp add: unat_add_exact)
  have m: "unat (8 * (1024 + bt_beta ca)) = 8 * (1024 + ?b)"
    using assms(2) unat_mult_exact [of 8 "1024 + bt_beta ca"] by (simp only: add) simp
  have third: "s32_quot (8 * (1024 + bt_beta ca)) 3 = Inr (word_of_nat (8 * (1024 + ?b) div 3))"
    using assms(2) m by (subst s32_quot_ok) simp_all
  have "8 * (1024 + ?b) div 3 < 2 ^ 31" using assms(2) by simp
  then have q: "unat (word_of_nat (8 * (1024 + ?b) div 3) :: s32) = 8 * (1024 + ?b) div 3"
    by (intro unat_word_of_nat_small) simp
  have s: "unat (1024 - bt_beta ca) = 1024 - ?b"
    using assms(2) by (subst unat_sub) (simp_all add: word_le_nat_alt)
  have scale: "s32_quot (word_of_nat (8 * (1024 + ?b) div 3)) (1024 - bt_beta ca) =
      Inr (word_of_nat (beta_scale_of ?b))"
    using assms(2) q s by (subst s32_quot_ok) (simp_all add: beta_scale_of_def)
  have "unat (bic_scale ca * 10) = unat (bic_scale ca) * 10"
    using assms(4) by (simp add: unat_mult_exact)
  then have "bic_scale ca * 10 \<noteq> 0" using assms(3) by (metis mult_is_0 not_one_le_zero unat_0 zero_neq_numeral)
  then have "do_div (push_bit (10 + 3 * BICTCP_HZ) 1) (bic_scale ca * 10) =
      Inr (2 ^ 40 div ucast (bic_scale ca * 10))"
    by (simp add: BICTCP_HZ_def push_bit_eq_mult)
  then show ?thesis
    by (simp only: bictcp_update_params_def BICTCP_BETA_SCALE_def third scale rbind.simps)
qed

section \<open>The cube root\<close>

text \<open>What the kernel documents of \<open>fls64\<close>: 0 for 0, otherwise the number of significant bits.\<close>

definition fls_spec :: "(u64 \<Rightarrow> u32) \<Rightarrow> bool" where
  "fls_spec fls \<longleftrightarrow> fls 0 = 0 \<and> (\<forall>a. a \<noteq> 0 \<longrightarrow> 1 \<le> unat (fls a) \<and> unat (fls a) \<le> 64 \<and>
     2 ^ (unat (fls a) - 1) \<le> unat a \<and> unat a < 2 ^ unat (fls a))"

text \<open>The exponent \<open>b\<close> of the estimate: three bits of the argument per bit of the root.\<close>

definition cbrt_shift :: "nat \<Rightarrow> nat" where
  "cbrt_shift n = n * 84 div 256 - 1"

lemma cbrt_shift_all: "list_all (\<lambda>n. 1 \<le> cbrt_shift n \<and> cbrt_shift n \<le> 20 \<and>
    3 + 3 * cbrt_shift n \<le> n - 1 \<and> n \<le> 6 + 3 * cbrt_shift n \<and> 2 \<le> n * 84 div 256) [7..<65]"
  by (simp add: upt_rec cbrt_shift_def)

lemma cbrt_shift_range:
  assumes "7 \<le> n" and "n \<le> 64"
  shows "1 \<le> cbrt_shift n" "cbrt_shift n \<le> 20" "3 + 3 * cbrt_shift n \<le> n - 1"
    "n \<le> 6 + 3 * cbrt_shift n" "2 \<le> n * 84 div 256"
proof -
  have "n \<in> set [7..<65]" unfolding set_upt atLeastLessThan_iff using assms by simp
  with cbrt_shift_all show "1 \<le> cbrt_shift n" "cbrt_shift n \<le> 20" "3 + 3 * cbrt_shift n \<le> n - 1"
    "n \<le> 6 + 3 * cbrt_shift n" "2 \<le> n * 84 div 256"
    by (auto simp only: list_all_iff)
qed

lemma length_cbrt_table [simp]: "length cbrt_table = 64"
  by (simp add: cbrt_table_def)

text \<open>The table from index 8 on: near 64 times the cube root, less 10.\<close>

lemma cbrt_table_all: "list_all (\<lambda>s. 133 \<le> unat (cbrt_table ! s) + 10 \<and> unat (cbrt_table ! s) + 10 \<le> 264 \<and>
    (unat (cbrt_table ! s) + 10) ^ 3 * 100 \<le> 117 * (s * 2 ^ 18) \<and>
    997 * (Suc s * 2 ^ 18) \<le> (unat (cbrt_table ! s) + 10) ^ 3 * 1000) [8..<64]"
  by (simp add: upt_rec cbrt_table_def)

lemma cbrt_table_range:
  assumes "8 \<le> s" and "s < 64"
  shows "133 \<le> unat (cbrt_table ! s) + 10" "unat (cbrt_table ! s) + 10 \<le> 264"
    "(unat (cbrt_table ! s) + 10) ^ 3 * 100 \<le> 117 * (s * 2 ^ 18)"
    "997 * (Suc s * 2 ^ 18) \<le> (unat (cbrt_table ! s) + 10) ^ 3 * 1000"
proof -
  have "s \<in> set [8..<64]" unfolding set_upt atLeastLessThan_iff using assms by simp
  with cbrt_table_all show "133 \<le> unat (cbrt_table ! s) + 10" "unat (cbrt_table ! s) + 10 \<le> 264"
    "(unat (cbrt_table ! s) + 10) ^ 3 * 100 \<le> 117 * (s * 2 ^ 18)"
    "997 * (Suc s * 2 ^ 18) \<le> (unat (cbrt_table ! s) + 10) ^ 3 * 1000"
    by (auto simp only: list_all_iff)
qed

text \<open>The estimate as a natural number.\<close>

definition estimate_nat :: "nat \<Rightarrow> nat \<Rightarrow> nat" where
  "estimate_nat s B = (unat (cbrt_table ! s) + 10) * 2 ^ B div 64"

lemma estimate_nat_range:
  assumes "8 \<le> s" and "s < 64" and "1 \<le> B" and "B \<le> 20"
  shows "4 \<le> estimate_nat s B" and "estimate_nat s B \<le> 264 * 2 ^ B div 64"
    and "(unat (cbrt_table ! s) + 10) * 2 ^ B < 2 ^ 32"
proof -
  note v = cbrt_table_range [OF assms(1,2)]
  have "133 * 2 ^ 1 \<le> (unat (cbrt_table ! s) + 10) * 2 ^ B"
    using v(1) assms(3) by (intro mult_le_mono power_increasing) simp_all
  then show "4 \<le> estimate_nat s B" unfolding estimate_nat_def by simp
  show "estimate_nat s B \<le> 264 * 2 ^ B div 64"
    unfolding estimate_nat_def using v(2) by (intro div_le_mono mult_le_mono) simp_all
  have "(unat (cbrt_table ! s) + 10) * 2 ^ B \<le> 264 * 2 ^ 20"
    using v(2) assms(4) by (intro mult_le_mono power_increasing) simp_all
  then show "(unat (cbrt_table ! s) + 10) * 2 ^ B < 2 ^ 32" by simp
qed

lemma cbrt_estimate_ok:
  assumes n: "7 \<le> unat fls" "unat fls \<le> 64" "2 ^ (unat fls - 1) \<le> unat a" "unat a < 2 ^ unat fls"
  defines "B \<equiv> cbrt_shift (unat fls)"
  defines "s \<equiv> unat a div 8 ^ B"
  shows "8 \<le> s" and "s < 64" and "cbrt_estimate a fls = Inr (word_of_nat (estimate_nat s B))"
proof -
  note R = cbrt_shift_range [OF n(1,2), folded B_def]
  have p8: "(8::nat) ^ B = 2 ^ (3 * B)" by (simp add: power_mult)
  have "2 ^ (3 + 3 * B) \<le> unat a" using R(3) n(3) by (meson one_le_numeral order_trans power_increasing)
  then show lo: "8 \<le> s" unfolding s_def p8 by (simp add: less_eq_div_iff_mult_less_eq power_add)
  have "unat a < 2 ^ (6 + 3 * B)" using R(4) n(4) by (meson one_le_numeral order_less_le_trans power_increasing)
  then show hi: "s < 64" unfolding s_def p8 by (simp add: div_less_iff_less_mult power_add)
  have "unat (fls * 84) = unat fls * 84" using n(2) by (simp add: unat_mult_exact)
  then have "unat (drop_bit 8 (fls * 84)) = unat fls * 84 div 256"
    by (simp add: drop_bit_eq_div unat_div)
  then have b: "unat (drop_bit 8 (fls * 84) - 1) = B"
    using R(5) by (subst unat_sub) (simp_all add: word_le_nat_alt B_def cbrt_shift_def)
  then have b3: "unat ((drop_bit 8 (fls * 84) - 1) * 3) = 3 * B"
    using R(2) by (subst unat_mult_exact) simp_all
  have "unat (drop_bit (3 * B) a) = s"
    unfolding unat_drop_bit_eq unfolding drop_bit_eq_div s_def p8 ..
  then have "unat (ucast (drop_bit (3 * B) a) :: u32) = s mod 2 ^ 32"
    by (simp add: unsigned_ucast_eq take_bit_eq_mod)
  then have sh: "unat (ucast (drop_bit (3 * B) a) :: u32) = s" using hi by simp
  let ?v = "cbrt_table ! s"
  have v: "unat ((ucast ?v :: u32) + 10) = unat ?v + 10"
    using cbrt_table_range(2) [OF lo hi] by (simp add: unat_add_exact unat_ucast_up)
  have "unat (push_bit B ((ucast ?v :: u32) + 10)) = (unat ?v + 10) * 2 ^ B"
    unfolding unsigned_push_bit_eq v unfolding push_bit_eq_mult
    using estimate_nat_range(3) [OF lo hi R(1,2)] by (simp add: take_bit_nat_eq_self_iff)
  then have "unat (drop_bit 6 (push_bit B ((ucast ?v :: u32) + 10))) = estimate_nat s B"
    unfolding unat_drop_bit_eq unfolding drop_bit_eq_div estimate_nat_def by simp
  from arg_cong [OF this, of "word_of_nat :: nat \<Rightarrow> u32"]
  have "drop_bit 6 (push_bit B ((ucast ?v :: u32) + 10)) = word_of_nat (estimate_nat s B)" by simp
  then show "cbrt_estimate a fls = Inr (word_of_nat (estimate_nat s B))"
    using hi by (simp only: cbrt_estimate_def Let_def b b3 sh) simp
qed

end
