(* ===== verification/Scubic_Cbrt.thy ===== *)
theory Scubic_Cbrt
  imports Scubic_Math Complex_Main
begin

text \<open>
  The cube root of tcp_scubic.c: with the documented \<open>fls64\<close> it returns for every 64-bit
  argument, and its result is the cube root up to a constant factor.
\<close>

section \<open>The estimate against the argument\<close>

lemma cube_mono: "(x::nat) \<le> y \<Longrightarrow> x ^ 3 \<le> y ^ 3"
  by (rule power_mono) simp_all

text \<open>Both sides of the estimate \<open>X\<close>, from the table.\<close>

lemma estimate_bounds:
  assumes s: "8 \<le> s" "s < 64" and B: "1 \<le> B" "B \<le> 20" and a: "a div 8 ^ B = s"
  defines "X \<equiv> estimate_nat s B"
  shows "100 * X ^ 3 \<le> 117 * a" and "100 * a \<le> 196 * X ^ 3" and "64 \<le> X \<Longrightarrow> 100 * a \<le> 106 * X ^ 3"
proof -
  note v = cbrt_table_range [OF s]
  define V where "V = unat (cbrt_table ! s) + 10"
  define Y where "Y = V * 2 ^ B"
  have cube: "Y ^ 3 = V ^ 3 * 8 ^ B" 
    using power_mult [of "2::nat" B 3] power_mult [of "2::nat" 3 B]
    by (simp add: Y_def power_mult_distrib mult.commute)
  have lo: "s * 8 ^ B \<le> a" using a by (metis div_times_less_eq_dividend)
  have hi: "a < Suc s * 8 ^ B" using a by (metis dividend_less_div_times mult_Suc zero_less_numeral zero_less_power)
  have X: "64 * X \<le> Y" "Y < 64 * X + 64" unfolding X_def estimate_nat_def Y_def V_def by linarith+
  have X4: "4 \<le> X" unfolding X_def by (rule estimate_nat_range [OF s B])
  have "(64 * X) ^ 3 * 100 \<le> Y ^ 3 * 100" using X(1) by (intro mult_le_mono1 cube_mono)
  also have "\<dots> \<le> 117 * (s * 2 ^ 18) * 8 ^ B"
    using mult_le_mono1 [OF v(3), of "8 ^ B"] by (simp add: cube V_def algebra_simps)
  also have "\<dots> \<le> 117 * 2 ^ 18 * a" using lo by (simp add: algebra_simps)
  finally show "100 * X ^ 3 \<le> 117 * a" by (simp add: power_mult_distrib)
  have "997 * 2 ^ 18 * a \<le> 997 * (Suc s * 2 ^ 18) * 8 ^ B" using hi by (simp add: algebra_simps)
  also have "\<dots> \<le> 1000 * Y ^ 3"
    using mult_le_mono1 [OF v(4), of "8 ^ B"] by (simp add: cube V_def algebra_simps)
  finally have up: "997 * 2 ^ 18 * a \<le> 1000 * Y ^ 3" .
  have "Y ^ 3 \<le> (80 * X) ^ 3" using X X4 by (intro cube_mono) linarith
  with up have "997 * 2 ^ 18 * a \<le> 1000 * (80 * X) ^ 3" by linarith
  then show "100 * a \<le> 196 * X ^ 3" by (simp add: power_mult_distrib)
  show "100 * a \<le> 106 * X ^ 3" if "64 \<le> X"
  proof -
    have "Y ^ 3 \<le> (65 * X) ^ 3" using X that by (intro cube_mono) linarith
    with up have "997 * 2 ^ 18 * a \<le> 1000 * (65 * X) ^ 3" by linarith
    then show ?thesis by (simp add: power_mult_distrib)
  qed
qed

section \<open>The Newton-Raphson step\<close>

definition newton_nat :: "nat \<Rightarrow> nat \<Rightarrow> nat" where
  "newton_nat a X = (2 * X + a div (X * (X - 1))) * 341 div 1024"

lemma newton_quotient:
  assumes "4 \<le> (X :: nat)" and "q = a div (X * (X - 1))"
  shows "100 * a \<le> 196 * X ^ 3 \<Longrightarrow> 300 * q \<le> 784 * X"
    and "64 \<le> X \<Longrightarrow> 100 * a \<le> 106 * X ^ 3 \<Longrightarrow> 6300 * q \<le> 6784 * X"
proof -
  have q: "q * (X * (X - 1)) \<le> a" unfolding assms(2) by (rule div_times_less_eq_dividend)
  have cancel: "m * q \<le> k * X" if "m * (q * X ^ 2) \<le> k * X ^ 3" for m k
  proof -
    have "X ^ 2 * (m * q) \<le> X ^ 2 * (k * X)" using that by (simp add: power3_eq_cube power2_eq_square algebra_simps)
    then show ?thesis using assms(1) by simp
  qed
  show "300 * q \<le> 784 * X" if "100 * a \<le> 196 * X ^ 3"
  proof (rule cancel)
    have "3 * X \<le> 4 * (X - 1)" using assms(1) by simp
    then have "q * X * (3 * X) \<le> q * X * (4 * (X - 1))" by (rule mult_le_mono2)
    then have "3 * (q * X ^ 2) \<le> 4 * a" using q by (simp add: power2_eq_square algebra_simps)
    with that show "300 * (q * X ^ 2) \<le> 784 * X ^ 3" by linarith
  qed
  show "6300 * q \<le> 6784 * X" if "64 \<le> X" "100 * a \<le> 106 * X ^ 3"
  proof (rule cancel)
    have "63 * X \<le> 64 * (X - 1)" using that(1) by simp
    then have "q * X * (63 * X) \<le> q * X * (64 * (X - 1))" by (rule mult_le_mono2)
    then have "63 * (q * X ^ 2) \<le> 64 * a" using q by (simp add: power2_eq_square algebra_simps)
    with that(2) show "6300 * (q * X ^ 2) \<le> 6784 * X ^ 3" by linarith
  qed
qed

lemma newton_fits:
  assumes "4 \<le> (X :: nat)" and "a < 2 ^ 64" and "100 * X ^ 3 \<le> 117 * a" and "100 * a \<le> 196 * X ^ 3"
    and "64 \<le> X \<Longrightarrow> 100 * a \<le> 106 * X ^ 3"
  shows "X < 2800000" and "(2 * X + a div (X * (X - 1))) * 341 < 2 ^ 32"
proof -
  show X: "X < 2800000"
  proof (rule ccontr)
    assume "\<not> X < 2800000"
    then have "2800000 ^ 3 \<le> X ^ 3" by (intro cube_mono) simp
    with assms(2,3) show False by simp
  qed
  define q where "q = a div (X * (X - 1))"
  note Q = newton_quotient [OF assms(1) q_def]
  have "(2 * X + q) * 341 < 2 ^ 32"
  proof (cases "X < 2500000")
    case True
    with Q(1) [OF assms(4)] show ?thesis by simp
  next
    case False
    then have "6300 * q \<le> 6784 * X" using assms(5) by (intro Q(2)) simp_all
    with X show ?thesis by simp
  qed
  then show "(2 * X + a div (X * (X - 1))) * 341 < 2 ^ 32" by (simp only: q_def)
qed

lemma cbrt_newton_ok:
  assumes X: "4 \<le> X" "X < 2800000" "(2 * X + unat a div (X * (X - 1))) * 341 < 2 ^ 32"
  shows "cbrt_newton a (word_of_nat X) = Inr (word_of_nat (newton_nat (unat a) X))"
proof -
  define x :: u32 where "x = word_of_nat X"
  have ux: "unat x = X" using X(2) unfolding x_def by (intro unat_word_of_nat_small) simp
  then have ux1: "unat (x - 1) = X - 1" using X(1) by (subst unat_sub) (simp_all add: word_le_nat_alt)
  have "X * (X - 1) \<le> 2800000 * 2800000" using X(2) by (intro mult_le_mono) simp_all
  then have prod: "unat (ucast x * ucast (x - 1) :: u64) = X * (X - 1)"
    by (subst unat_mult_exact) (simp_all add: unat_ucast_up ux ux1)
  define q where "q = unat a div (X * (X - 1))"
  have "(ucast x * ucast (x - 1) :: u64) \<noteq> 0" using prod X(1) by auto
  then have div: "u64_div a (ucast x * ucast (x - 1)) = Inr (a div (ucast x * ucast (x - 1)))" by simp
  have small: "(2 * X + q) * 341 < 2 ^ 32" using X(3) by (simp only: q_def)
  then have "unat (ucast (a div (ucast x * ucast (x - 1))) :: u32) = q"
    by (simp add: unsigned_ucast_eq take_bit_nat_eq_self_iff unat_div prod q_def)
  moreover have "unat (2 * x) = 2 * X" using X(2) ux by (subst unat_mult_exact) simp_all
  ultimately have "unat (2 * x + ucast (a div (ucast x * ucast (x - 1)))) = 2 * X + q"
    using small by (subst unat_add_exact) simp_all
  then have "unat ((2 * x + ucast (a div (ucast x * ucast (x - 1)))) * 341) = (2 * X + q) * 341"
    using small by (subst unat_mult_exact) simp_all
  then have "unat (drop_bit 10 ((2 * x + ucast (a div (ucast x * ucast (x - 1)))) * 341)) = newton_nat (unat a) X"
    unfolding unat_drop_bit_eq unfolding drop_bit_eq_div newton_nat_def q_def by simp
  from arg_cong [OF this, of "word_of_nat :: nat \<Rightarrow> u32"]
  have "drop_bit 10 ((2 * x + ucast (a div (ucast x * ucast (x - 1)))) * 341) = word_of_nat (newton_nat (unat a) X)"
    by simp
  then show ?thesis by (simp only: cbrt_newton_def x_def [symmetric] div rbind.simps)
qed

section \<open>Accuracy\<close>

text \<open>The step over the reals: the ratio of the argument to the cube of the estimate is \<open>u\<close>.\<close>

lemma newton_ratio:
  assumes "17 / 20 \<le> (u::real)" and "u \<le> 49 / 25"
  shows "(6 + 4 * u) ^ 3 \<le> 1458 * u"
proof -
  have "1458 * u - (6 + 4 * u) ^ 3 =
      (u - 17 / 20) * (49 / 25 - u) * (64 * u + 11696 / 25) + (56342144 / 100000 - 1820064 / 10000 * u)"
    by (simp add: power3_eq_cube algebra_simps)
  moreover have "0 \<le> (u - 17 / 20) * (49 / 25 - u) * (64 * u + 11696 / 25)"
    using assms by (intro mult_nonneg_nonneg) simp_all
  moreover have "0 \<le> 56342144 / 100000 - 1820064 / 10000 * u" using assms(2) by simp
  ultimately show ?thesis by linarith
qed

lemma mean_inequality:
  assumes "0 < (x::real)" and "0 \<le> A"
  shows "27 * A \<le> (2 * x + A / x ^ 2) ^ 3"
proof -
  define p where "p = A / x ^ 2"
  have A: "A = p * x ^ 2" using assms(1) by (simp add: p_def)
  have "0 \<le> p" using assms by (simp add: p_def)
  then have "0 \<le> (p - x) ^ 2 * (p + 8 * x)" using assms(1) by (intro mult_nonneg_nonneg) simp_all
  also have "\<dots> = (2 * x + p) ^ 3 - 27 * A"
    unfolding A by (simp add: power2_eq_square power3_eq_cube algebra_simps)
  finally show ?thesis by (simp add: p_def)
qed

lemma third_of: "3 * (m * 341 div 1024) \<le> (m::nat)" "m * 341 < (m * 341 div 1024 + 1) * (1024::nat)"
  using dividend_less_div_times [of 1024 "m * 341"] by (linarith, simp)

lemma newton_upper:
  assumes X: "4 \<le> (X::nat)" and lo: "100 * X ^ 3 \<le> 117 * a" and hi: "100 * a \<le> 196 * X ^ 3"
  shows "newton_nat a X ^ 3 \<le> 2 * a"
proof -
  define q r where "q = a div (X * (X - 1))" and "r = newton_nat a X"
  have "q * (X * (X - 1)) \<le> a" unfolding q_def by (rule div_times_less_eq_dividend)
  moreover have "q * X * (3 * X) \<le> q * X * (4 * (X - 1))" using X by (intro mult_le_mono2) simp
  ultimately have q: "3 * (q * X ^ 2) \<le> 4 * a" by (simp add: power2_eq_square algebra_simps)
  have r: "3 * r \<le> 2 * X + q" unfolding r_def newton_nat_def q_def by (rule third_of)
  define x A where "x = real X" and "A = real a"
  have "(3 * r) * (3 * X ^ 2) \<le> (2 * X + q) * (3 * X ^ 2)" using r by (rule mult_le_mono1)
  with q have "9 * (r * X ^ 2) \<le> 6 * X ^ 3 + 4 * a" by (simp add: power2_eq_square power3_eq_cube algebra_simps)
  then have "real (9 * (r * X ^ 2)) \<le> real (6 * X ^ 3 + 4 * a)" by (rule of_nat_mono)
  then have step: "9 * (r * x ^ 2) \<le> 6 * x ^ 3 + 4 * A" by (simp add: x_def A_def)
  have x: "0 < x" using X by (simp add: x_def)
  define u where "u = A / x ^ 3"
  have A: "A = u * x ^ 3" using x by (simp add: u_def)
  have "real (100 * X ^ 3) \<le> real (117 * a)" "real (100 * a) \<le> real (196 * X ^ 3)"
    by (rule of_nat_mono [OF lo], rule of_nat_mono [OF hi])
  then have "100 * x ^ 3 \<le> 117 * A" "100 * A \<le> 196 * x ^ 3" by (simp_all add: x_def A_def)
  then have u: "17 / 20 \<le> u" "u \<le> 49 / 25" unfolding u_def using x by (simp_all add: field_simps)
  have "9 * r * x ^ 2 \<le> (6 + 4 * u) * x * x ^ 2"
    using step unfolding A by (simp add: power2_eq_square power3_eq_cube algebra_simps)
  then have "9 * real r \<le> (6 + 4 * u) * x" using x by simp
  then have "(9 * real r) ^ 3 \<le> ((6 + 4 * u) * x) ^ 3" by (rule power_mono) simp
  also have "\<dots> \<le> 1458 * u * x ^ 3"
    unfolding power_mult_distrib using newton_ratio [OF u] x by (intro mult_right_mono) simp_all
  finally have "729 * real r ^ 3 \<le> 1458 * A" by (simp add: A power_mult_distrib)
  then have "real (r ^ 3) \<le> real (2 * a)" by (simp add: A_def)
  then show ?thesis unfolding r_def by (simp only: of_nat_le_iff)
qed

lemma newton_lower:
  assumes X: "4 \<le> (X::nat)" and a: "64 \<le> a"
  shows "a \<le> 2 * (newton_nat a X + 1) ^ 3"
proof -
  define q r where "q = a div (X * (X - 1))" and "r = newton_nat a X"
  define x A where "x = real X" and "A = real a"
  have x: "4 \<le> x" "64 \<le> A" using X a by (simp_all add: x_def A_def)
  have "0 < X * (X - 1)" using X by simp
  then have "a < (q + 1) * (X * (X - 1))" unfolding q_def by (simp add: dividend_less_div_times)
  also have "\<dots> \<le> (q + 1) * X ^ 2" by (simp add: power2_eq_square algebra_simps)
  finally have "real a \<le> real ((q + 1) * X ^ 2)" by linarith
  then have q: "A / x ^ 2 \<le> q + 1" using x by (simp add: x_def A_def field_simps)
  define w where "w = 2 * x + A / x ^ 2"
  have w3: "27 * A \<le> w ^ 3" unfolding w_def using x by (intro mean_inequality) simp_all
  have w0: "0 \<le> w" unfolding w_def using x by simp
  have w12: "12 \<le> w"
  proof (rule ccontr)
    assume "\<not> 12 \<le> w"
    with w0 have "w ^ 3 < 12 ^ 3" by (intro power_strict_mono) simp_all
    with w3 x(2) show False by simp
  qed
  have "(2 * X + q) * 341 < (r + 1) * 1024" unfolding r_def newton_nat_def q_def by (rule third_of)
  then have "real ((2 * X + q) * 341) < real ((r + 1) * 1024)" by (simp only: of_nat_less_iff)
  then have "(2 * x + q) * 341 < (r + 1) * 1024" by (simp add: x_def)
  moreover have "w - 1 \<le> 2 * x + q" using q by (simp add: w_def)
  ultimately have "(w - 1) * 341 \<le> (real r + 1) * 1024" by simp
  with w12 have "3 * w \<le> 10 * (real r + 1)" by simp
  then have "(3 * w) ^ 3 \<le> (10 * (real r + 1)) ^ 3" using w0 by (intro power_mono) simp_all
  then have "27 * w ^ 3 \<le> 1000 * (real r + 1) ^ 3" unfolding power_mult_distrib by simp
  moreover have "0 \<le> (real r + 1) ^ 3" by simp
  ultimately have "A \<le> 2 * (real r + 1) ^ 3" using w3 by linarith
  then have "real a \<le> real (2 * (r + 1) ^ 3)" by (simp add: A_def add.commute)
  then show ?thesis unfolding r_def by (simp only: of_nat_le_iff)
qed

section \<open>The cube root\<close>

lemma cbrt_small_all:
  "list_all (\<lambda>i. let r = unat (drop_bit 6 (ucast (cbrt_table ! i) + 35 :: u32)) in
     r ^ 3 \<le> 2 * i \<and> i \<le> 2 * (r + 1) ^ 3) [0..<64]"
  by (simp add: upt_rec cbrt_table_def drop_bit_eq_div unat_div power3_eq_cube)

lemma cubic_root_small:
  assumes "unat a < 64" and "unat (fls a) < 7"
  shows "cubic_root fls a = Inr (drop_bit 6 (ucast (cbrt_table ! unat a) + 35))"
proof -
  have "unat (ucast a :: u32) = unat a"
    using assms(1) by (simp add: unsigned_ucast_eq take_bit_nat_eq_self_iff)
  with assms show ?thesis by (simp add: cubic_root_def word_less_nat_alt Let_def)
qed

lemma cubic_root_large:
  assumes fls: "7 \<le> unat (fls a)" "unat (fls a) \<le> 64" "2 ^ (unat (fls a) - 1) \<le> unat a" "unat a < 2 ^ unat (fls a)"
  shows "\<exists>r. cubic_root fls a = Inr (word_of_nat r) \<and> r < 2 ^ 32 \<and> r ^ 3 \<le> 2 * unat a \<and> unat a \<le> 2 * (r + 1) ^ 3"
proof -
  define B where "B = cbrt_shift (unat (fls a))"
  define s where "s = unat a div 8 ^ B"
  define X where "X = estimate_nat s B"
  note E = cbrt_estimate_ok [OF fls, folded B_def, folded s_def, folded X_def]
  note R = cbrt_shift_range [OF fls(1,2), folded B_def]
  note b = estimate_bounds [OF E(1,2) R(1,2) s_def [symmetric], folded X_def]
  have X: "4 \<le> X" unfolding X_def by (rule estimate_nat_range [OF E(1,2) R(1,2)])
  have a: "unat a < 2 ^ 64" using unsigned_less [of a] by simp
  note F = newton_fits [OF X a b]
  have "(2::nat) ^ 6 \<le> 2 ^ (unat (fls a) - 1)" using fls(1) by (intro power_increasing) simp_all
  also note fls(3)
  finally have "64 \<le> unat a" by simp
  then have acc: "newton_nat (unat a) X ^ 3 \<le> 2 * unat a" "unat a \<le> 2 * (newton_nat (unat a) X + 1) ^ 3"
    using newton_upper [OF X b(1,2)] newton_lower [OF X] by blast+
  have "newton_nat (unat a) X < 2 ^ 32" using F(2) unfolding newton_nat_def by simp
  moreover have "cubic_root fls a = Inr (word_of_nat (newton_nat (unat a) X))"
    using fls(1) E(3) cbrt_newton_ok [OF X F] by (simp add: cubic_root_def word_less_nat_alt Let_def)
  ultimately show ?thesis using acc by blast
qed

lemma cubic_root_near:
  assumes "fls_spec fls"
  shows "\<exists>r. cubic_root fls a = Inr r \<and> unat r ^ 3 \<le> 2 * unat a \<and> unat a \<le> 2 * (unat r + 1) ^ 3"
proof (cases "unat (fls a) < 7")
  case True
  have "unat a < 64"
  proof (cases "a = 0")
    case False
    with assms have "unat a < 2 ^ unat (fls a)" by (simp add: fls_spec_def)
    also have "\<dots> \<le> 2 ^ 6" using True by (intro power_increasing) simp_all
    finally show ?thesis by simp
  qed simp
  then have "unat a \<in> set [0..<64]" by simp
  with cbrt_small_all cubic_root_small [of a fls, OF \<open>unat a < 64\<close> True] show ?thesis
    unfolding list_all_iff Let_def by blast
next
  case False
  with assms have "a \<noteq> 0" by (auto simp: fls_spec_def)
  with assms False cubic_root_large [of fls a]
  obtain r where r: "cubic_root fls a = Inr (word_of_nat r)" "r < 2 ^ 32" "r ^ 3 \<le> 2 * unat a"
      "unat a \<le> 2 * (r + 1) ^ 3" by (auto simp: fls_spec_def)
  have "unat (word_of_nat r :: u32) = r" using r(2) by (intro unat_word_of_nat_small) simp
  with r show ?thesis by (intro exI [of _ "word_of_nat r"]) simp
qed

end
