(* ===== verification/Scubic_Module.thy ===== *)
theory Scubic_Module
  imports Scubic_Cbrt Flow_Module Demo
begin

text \<open>
  Proofs on tcp_scubic.c: the window computation returns whenever the friendliness loop has a
  positive step, its setter fulfils the contract of \<open>Flow_Module\<close>, and its flows never fault.
\<close>

section \<open>Invariants of a flow\<close>

definition scubic_params_ok :: "bictcp \<Rightarrow> bool" where
  "scubic_params_ok ca \<longleftrightarrow> 1 \<le> unat (bt_beta ca) \<and> unat (bt_beta ca) \<le> 1023 \<and>
     1 \<le> unat (bic_scale ca) \<and> unat (bic_scale ca) \<le> 1023 \<and>
     beta_scale ca = word_of_nat (beta_scale_of (unat (bt_beta ca))) \<and>
     cube_factor ca = 2 ^ 40 div ucast (bic_scale ca * 10)"

text \<open>The count is at least 2 as soon as it has been computed since the last reset.\<close>

definition scubic_cnt_ok :: "bictcp \<Rightarrow> bool" where
  "scubic_cnt_ok ca \<longleftrightarrow> last_cwnd ca = 0 \<or> 2 \<le> unat (bt_cnt ca)"

definition window_ok :: "tcp_sock \<Rightarrow> bool" where
  "window_ok tp \<longleftrightarrow> 4 \<le> unat (snd_cwnd tp) \<and> snd_cwnd tp \<le> snd_cwnd_clamp tp \<and>
     unat (snd_cwnd_clamp tp) \<le> 2 ^ 19"

definition scubic_sock_ok :: "bictcp ksock \<Rightarrow> bool" where
  "scubic_sock_ok s \<longleftrightarrow> scubic_params_ok (sk_ca s) \<and> scubic_cnt_ok (sk_ca s) \<and> window_ok (sk_tp s)"

text \<open>What the stack documents of its two window functions: they only grow the window, up to the clamp.\<close>

definition tcp_laws :: "tcp_api \<Rightarrow> bool" where
  "tcp_laws K \<longleftrightarrow> (\<forall>tp acked. snd_cwnd tp \<le> snd_cwnd_clamp tp \<longrightarrow>
     (let tp' = snd (tcp_slow_start K tp acked) in
        snd_cwnd tp \<le> snd_cwnd tp' \<and> snd_cwnd tp' \<le> snd_cwnd_clamp tp \<and> snd_cwnd_clamp tp' = snd_cwnd_clamp tp) \<and>
     (\<forall>n. n \<noteq> 0 \<longrightarrow> (let tp' = tcp_cong_avoid_ai K tp n acked in
        snd_cwnd tp \<le> snd_cwnd tp' \<and> snd_cwnd tp' \<le> snd_cwnd_clamp tp \<and> snd_cwnd_clamp tp' = snd_cwnd_clamp tp)))"

definition clock_ok :: "'e clock_api \<Rightarrow> bool" where
  "clock_ok J \<longleftrightarrow> kernel_HZ J \<noteq> 0 \<and> fls_spec (fls64 J)"

definition same_params :: "bictcp \<Rightarrow> bictcp \<Rightarrow> bool" where
  "same_params ca ca' \<longleftrightarrow> bt_beta ca' = bt_beta ca \<and> bic_scale ca' = bic_scale ca \<and>
     beta_scale ca' = beta_scale ca \<and> cube_factor ca' = cube_factor ca \<and> bt_conn ca' = bt_conn ca"

lemma same_params_ok: "same_params ca ca' \<Longrightarrow> scubic_params_ok ca \<Longrightarrow> scubic_params_ok ca'"
  by (simp add: same_params_def scubic_params_ok_def)

lemma same_params_trans: "same_params a b \<Longrightarrow> same_params b c \<Longrightarrow> same_params a c"
  by (simp add: same_params_def)

lemma window_grow:
  "tcp_laws K \<Longrightarrow> window_ok tp \<Longrightarrow> window_ok (snd (tcp_slow_start K tp acked))"
  "tcp_laws K \<Longrightarrow> window_ok tp \<Longrightarrow> n \<noteq> 0 \<Longrightarrow> window_ok (tcp_cong_avoid_ai K tp n acked)"
  by (auto simp: tcp_laws_def window_ok_def Let_def word_le_nat_alt intro: order_trans)

section \<open>The window computation\<close>

text \<open>With a valid decrease factor and a window of four segments or more, the loop has a positive step.\<close>

lemma friendly_delta:
  assumes "scubic_params_ok ca" and "unat cwnd \<le> 2 ^ 19"
    and "4 \<le> unat cwnd \<or> 512 \<le> unat (bt_beta ca) \<and> 1 \<le> unat cwnd"
  shows "drop_bit 3 (cwnd * beta_scale ca) \<noteq> 0"
proof -
  let ?b = "unat (bt_beta ca)"
  have b: "1 \<le> ?b" "?b \<le> 1023" using assms(1) by (simp_all add: scubic_params_ok_def)
  note R = beta_scale_range [OF b]
  have scale: "unat (beta_scale ca) = beta_scale_of ?b"
    using assms(1) R(2) by (simp add: scubic_params_ok_def unat_word_of_nat_small)
  have "unat cwnd * beta_scale_of ?b \<le> 2 ^ 19 * 5458" using assms(2) R(2) by (rule mult_le_mono)
  then have prod: "unat (cwnd * beta_scale ca) = unat cwnd * beta_scale_of ?b"
    by (subst unat_mult_exact) (simp_all add: scale)
  have "8 \<le> unat cwnd * beta_scale_of ?b"
    using assms(3) mult_le_mono [of 4 "unat cwnd" 2 "beta_scale_of ?b"]
      mult_le_mono [of 1 "unat cwnd" 8 "beta_scale_of ?b"] R(1,3) by linarith
  moreover have "unat (drop_bit 3 (cwnd * beta_scale ca)) = unat cwnd * beta_scale_of ?b div 8"
    unfolding unat_drop_bit_eq prod unfolding drop_bit_eq_div by simp
  moreover have "unat (drop_bit 3 (cwnd * beta_scale ca)) = 0" if "drop_bit 3 (cwnd * beta_scale ca) = 0"
    unfolding that by simp
  ultimately show ?thesis by linarith
qed

lemma bictcp_start_epoch_ok:
  assumes "fls_spec (fls64 J)"
  shows "\<exists>ca' e'. bictcp_start_epoch J ca cwnd acked e = Inr (ca', e') \<and> same_params ca ca' \<and>
    last_cwnd ca' = last_cwnd ca"
proof -
  obtain now e1 where now: "tcp_jiffies32 J e = (now, e1)" by fastforce
  obtain r where "cubic_root (fls64 J) (cube_factor ca * ucast (last_max_cwnd ca - cwnd)) = Inr r"
    using cubic_root_near [OF assms] by blast
  with now show ?thesis by (simp add: bictcp_start_epoch_def Let_def same_params_def)
qed

lemma bictcp_curve_ok:
  assumes "kernel_HZ J \<noteq> 0"
  shows "\<exists>n e'. bictcp_curve J ca cwnd e = Inr (ca\<lparr>bt_cnt := n\<rparr>, e')"
proof -
  obtain now e1 where now: "tcp_jiffies32 J e = (now, e1)" by fastforce
  define t where "t = push_bit BICTCP_HZ (scast (now - epoch_start ca) +
    msecs_to_jiffies J (drop_bit 3 (delay_min ca))) div ucast (kernel_HZ J)"
  have "\<exists>m. (if bic_target ca t > cwnd then u32_div cwnd (bic_target ca t - cwnd) else Inr (100 * cwnd)) = Inr m"
    by auto
  then obtain m where "(if bic_target ca t > cwnd then u32_div cwnd (bic_target ca t - cwnd)
    else Inr (100 * cwnd)) = Inr m" by blast
  then have "bictcp_curve J ca cwnd e = Inr (ca\<lparr>bt_cnt := if last_max_cwnd ca = 0 \<and> m > 20 then 20 else m\<rparr>, e1)"
    using assms now by (simp only: bictcp_curve_def Let_def t_def [symmetric] do_div_ok not_False_eq_True
        prod.case rbind.simps)
  then show ?thesis by blast
qed

lemma bictcp_friendliness_ok:
  assumes "tcp_friendliness P \<noteq> 0 \<Longrightarrow> drop_bit 3 (cwnd * beta_scale ca) \<noteq> 0"
  shows "\<exists>a c n. bictcp_friendliness P ca cwnd = Inr (ca\<lparr>ack_cnt := a, tcp_cwnd := c, bt_cnt := n\<rparr>)"
proof (cases "tcp_friendliness P = 0")
  case True
  have "ca = ca\<lparr>ack_cnt := ack_cnt ca, tcp_cwnd := tcp_cwnd ca, bt_cnt := bt_cnt ca\<rparr>" by simp
  then have "bictcp_friendliness P ca cwnd =
      Inr (ca\<lparr>ack_cnt := ack_cnt ca, tcp_cwnd := tcp_cwnd ca, bt_cnt := bt_cnt ca\<rparr>)"
    using True by (simp add: bictcp_friendliness_def)
  then show ?thesis by blast
next
  case False
  with assms obtain a c where loop:
    "friendly_loop (drop_bit 3 (cwnd * beta_scale ca)) (ack_cnt ca) (tcp_cwnd ca) = Inr (a, c)"
    using friendly_loop_ok by blast
  have "c - cwnd \<noteq> 0" if "cwnd < c" using that by auto
  with False loop have "bictcp_friendliness P ca cwnd = Inr (ca\<lparr>ack_cnt := a, tcp_cwnd := c,
      bt_cnt := if cwnd < c \<and> bt_cnt ca > cwnd div (c - cwnd) then cwnd div (c - cwnd) else bt_cnt ca\<rparr>)"
    by (simp add: bictcp_friendliness_def Let_def)
  then show ?thesis by blast
qed

text \<open>A new epoch counts its acknowledgements from the current ones.\<close>

lemma recompute_new_epoch:
  assumes J: "clock_ok J" and new: "epoch_start ca = 0"
  shows "\<exists>ca' e'. bictcp_recompute J ca cwnd acked e = Inr (ca', e') \<and> ack_cnt ca' = acked \<and>
    beta_scale ca' = beta_scale ca"
proof -
  have hz: "kernel_HZ J \<noteq> 0" and fls: "fls_spec (fls64 J)" using J by (simp_all add: clock_ok_def)
  obtain t e1 where t: "tcp_jiffies32 J e = (t, e1)" by fastforce
  obtain now e2 where now: "tcp_jiffies32 J e1 = (now, e2)" by fastforce
  let ?ca = "ca\<lparr>last_cwnd := cwnd, last_time := t\<rparr>"
  obtain r where "cubic_root (fls64 J) (cube_factor ca * ucast (last_max_cwnd ca - cwnd)) = Inr r"
    using cubic_root_near [OF fls] by blast
  then have "\<exists>ca2. bictcp_start_epoch J ?ca cwnd acked e1 = Inr (ca2, e2) \<and> ack_cnt ca2 = acked \<and>
      beta_scale ca2 = beta_scale ca"
    using new now by (simp add: bictcp_start_epoch_def Let_def)
  then obtain ca2 where "bictcp_start_epoch J ?ca cwnd acked e1 = Inr (ca2, e2)"
    and ca2: "ack_cnt ca2 = acked" "beta_scale ca2 = beta_scale ca" by blast
  moreover obtain n e3 where "bictcp_curve J ca2 cwnd e2 = Inr (ca2\<lparr>bt_cnt := n\<rparr>, e3)"
    using bictcp_curve_ok [OF hz] by blast
  ultimately show ?thesis using t by (simp add: bictcp_recompute_def Let_def)
qed

text \<open>The whole computation: it returns, and its count is at least 2.\<close>

lemma bictcp_update_ok:
  assumes J: "clock_ok J" and cnt: "scubic_cnt_ok ca" and cwnd: "cwnd \<noteq> 0"
    and step: "tcp_friendliness P \<noteq> 0 \<Longrightarrow> drop_bit 3 (cwnd * beta_scale ca) \<noteq> 0"
  shows "\<exists>ca' e'. bictcp_update J P ca cwnd acked e = Inr (ca', e') \<and> same_params ca ca' \<and>
    2 \<le> unat (bt_cnt ca')"
proof -
  have hz: "kernel_HZ J \<noteq> 0" and fls: "fls_spec (fls64 J)" using J by (simp_all add: clock_ok_def)
  let ?ca0 = "ca\<lparr>ack_cnt := ack_cnt ca + acked\<rparr>"
  obtain soon e0 where soon: "update_too_soon J ?ca0 cwnd e = (soon, e0)" by fastforce
  show ?thesis
  proof (cases soon)
    case True
    with soon have "last_cwnd ca = cwnd" by (simp add: update_too_soon_def split: if_splits)
    with cnt cwnd have "2 \<le> unat (bt_cnt ca)" by (simp add: scubic_cnt_ok_def)
    with True soon show ?thesis by (simp add: bictcp_update_def Let_def same_params_def)
  next
    case False
    obtain same e1 where same: "same_jiffy J ?ca0 e0 = (same, e1)" by fastforce
    have "\<exists>ca1 e2. (if same then Inr (?ca0, e1) else bictcp_recompute J ?ca0 cwnd acked e1) = Inr (ca1, e2) \<and>
        same_params ca ca1"
    proof (cases same)
      case True
      then show ?thesis by (simp add: same_params_def)
    next
      case False
      obtain now e2 where now: "tcp_jiffies32 J e1 = (now, e2)" by fastforce
      let ?ca1 = "?ca0\<lparr>last_cwnd := cwnd, last_time := now\<rparr>"
      obtain ca2 e3 where "bictcp_start_epoch J ?ca1 cwnd acked e2 = Inr (ca2, e3)" "same_params ?ca1 ca2"
        using bictcp_start_epoch_ok [OF fls] by blast
      moreover obtain n e4 where "bictcp_curve J ca2 cwnd e3 = Inr (ca2\<lparr>bt_cnt := n\<rparr>, e4)"
        using bictcp_curve_ok [OF hz] by blast
      ultimately show ?thesis using False now by (simp add: bictcp_recompute_def Let_def same_params_def)
    qed
    then obtain ca1 e2 where rec: "(if same then Inr (?ca0, e1) else bictcp_recompute J ?ca0 cwnd acked e1) = Inr (ca1, e2)"
      and p1: "same_params ca ca1" by blast
    have "beta_scale ca1 = beta_scale ca" using p1 by (simp add: same_params_def)
    with step obtain a c n where
      "bictcp_friendliness P ca1 cwnd = Inr (ca1\<lparr>ack_cnt := a, tcp_cwnd := c, bt_cnt := n\<rparr>)"
      using bictcp_friendliness_ok [of P cwnd ca1] by auto
    then have "bictcp_update J P ca cwnd acked e =
        Inr (ca1\<lparr>ack_cnt := a, tcp_cwnd := c, bt_cnt := max n 2\<rparr>, e2)"
      using False soon same rec by (simp add: bictcp_update_def Let_def)
    moreover have "same_params ca (ca1\<lparr>ack_cnt := a, tcp_cwnd := c, bt_cnt := max n 2\<rparr>)"
      using p1 by (simp add: same_params_def)
    ultimately show ?thesis by (auto simp: unat_max)
  qed
qed

section \<open>Commands of the controller\<close>

definition valid_pair :: "u64 list \<Rightarrow> bool" where
  "valid_pair ps \<longleftrightarrow> 0 < ps ! 0 \<and> ps ! 0 < 1024 \<and> 0 < ps ! 1 \<and> ps ! 1 < 1024"

text \<open>The parameters a valid pair sets, with the factors computed from them.\<close>

definition scubic_with :: "u64 list \<Rightarrow> bictcp \<Rightarrow> bictcp" where
  "scubic_with ps ca = ca\<lparr>bic_scale := ucast (ps ! 0), bt_beta := ucast (ps ! 1),
     beta_scale := word_of_nat (beta_scale_of (unat (ps ! 1))),
     cube_factor := 2 ^ 40 div ucast (ucast (ps ! 0) * 10 :: s32)\<rparr>"

lemma unat_ucast_small: "unat (p :: u64) < 1024 \<Longrightarrow> unat (ucast p :: u32) = unat p"
  by (simp add: unsigned_ucast_eq take_bit_nat_eq_self_iff)

lemma update_params_valid:
  assumes "valid_pair ps"
  shows "bictcp_update_params (ca\<lparr>bic_scale := ucast (ps ! 0), bt_beta := ucast (ps ! 1)\<rparr>) = Inr (scubic_with ps ca)"
    and "scubic_params_ok (scubic_with ps ca)"
proof -
  define p q where "p = ps ! 0" and "q = ps ! 1"
  have p: "unat p < 1024" "unat q < 1024" "1 \<le> unat p" "1 \<le> unat q"
    using assms by (simp_all add: valid_pair_def word_less_nat_alt Suc_le_eq p_def q_def)
  note u = unat_ucast_small [OF p(1)] unat_ucast_small [OF p(2)]
  show "bictcp_update_params (ca\<lparr>bic_scale := ucast (ps ! 0), bt_beta := ucast (ps ! 1)\<rparr>) = Inr (scubic_with ps ca)"
    unfolding scubic_with_def p_def [symmetric] q_def [symmetric]
    using p by (subst bictcp_update_params_ok) (simp_all add: u)
  show "scubic_params_ok (scubic_with ps ca)"
    unfolding scubic_with_def p_def [symmetric] q_def [symmetric]
    using p by (simp add: scubic_params_ok_def u)
qed

lemma scubic_set_params_eq:
  assumes s: "kw_socks w (conn_impl c) = Some s" and n: "n = 2 \<Longrightarrow> 2 \<le> length ps"
  shows "scubic_set_params c ps n w =
    (if fi_alg (flow_info c) = SPINE_CUBIC \<and> n = 2 \<and> valid_pair ps
     then Inr (sock_put w (conn_impl c) (s\<lparr>sk_ca := scubic_with ps (sk_ca s)\<rparr>)) else Inr w)"
proof (cases "fi_alg (flow_info c) = SPINE_CUBIC \<and> n = 2")
  case True
  with n have "2 \<le> length ps" by blast
  then have len: "0 < length ps" "1 < length ps" by linarith+
  show ?thesis
  proof (cases "valid_pair ps")
    case valid: True
    have "ps ! 0 \<noteq> 0" "\<not> (ps ! 1 = 0 \<or> ps ! 0 \<ge> 1024 \<or> ps ! 1 \<ge> 1024)"
      using valid by (auto simp: valid_pair_def not_le)
    with True valid len s update_params_valid(1) [OF valid, of "sk_ca s"] show ?thesis
      by (simp add: scubic_set_params_def SCUBIC_PARAM_NUM_def get_sock_from_spine_def spine_get_impl_def)
  next
    case False
    then have "ps ! 0 = 0 \<or> (ps ! 1 = 0 \<or> ps ! 0 \<ge> 1024 \<or> ps ! 1 \<ge> 1024)"
      by (auto simp: valid_pair_def not_less word_gt_0)
    with True False len s show ?thesis
      by (auto simp: scubic_set_params_def SCUBIC_PARAM_NUM_def get_sock_from_spine_def spine_get_impl_def)
  qed
qed (auto simp: scubic_set_params_def SCUBIC_PARAM_NUM_def)

abbreviation scubic_good :: "(nat \<Rightarrow> nat option option) \<Rightarrow> (nat \<Rightarrow> bictcp ksock option) \<Rightarrow> bool" where
  "scubic_good \<equiv> socks_ok bt_conn scubic_sock_ok"

abbreviation scubic_dp_ok ::
  "('e, 'ts) time_api \<Rightarrow> 'ts \<Rightarrow> 'e nl_api \<Rightarrow> (nat \<Rightarrow> nat option option) \<Rightarrow> 'e scubic_world spine_datapath \<Rightarrow> bool" where
  "scubic_dp_ok \<equiv> flows_ok scubic_set_params None"

definition scubic_ok where
  "scubic_ok T tzero N C = (\<lambda>(dp, w). scubic_dp_ok T tzero N C dp \<and> scubic_good C (kw_socks w))"

lemma length_of_count:
  assumes "(word_of_nat (length ps) :: u8) = word_of_nat k" and "k < 256"
  shows "k \<le> length ps"
proof -
  have "length ps mod 256 = k mod 256"
    using arg_cong [OF assms(1), of unat] by (simp add: unsigned_of_nat take_bit_eq_mod)
  then show ?thesis using assms(2) by (metis mod_less mod_less_eq_dividend)
qed

interpretation scubic_flows: flow_module bt_conn scubic_sock_ok
  "scubic_set_params :: 'e scubic_world set_params_fn" None
proof
  fix w :: "'e scubic_world" and c :: spine_connection and s and ps :: "u64 list"
  assume s: "kw_socks w (conn_impl c) = Some s" "scubic_sock_ok s" and "ps \<noteq> []"
  have len: "2 \<le> length ps" if "(word_of_nat (length ps) :: u8) = 2"
    using that length_of_count [of ps 2] by simp
  note set = scubic_set_params_eq [OF s(1) len, of "word_of_nat (length ps)"]
  let ?s' = "if fi_alg (flow_info c) = SPINE_CUBIC \<and> (word_of_nat (length ps) :: u8) = 2 \<and> valid_pair ps
    then s\<lparr>sk_ca := scubic_with ps (sk_ca s)\<rparr> else s"
  have "(kw_socks w)(conn_impl c \<mapsto> s) = kw_socks w" using s(1) by auto
  then have "\<exists>w'. scubic_set_params c ps (word_of_nat (length ps)) w = Inr w' \<and>
      kw_socks w' = (kw_socks w)(conn_impl c \<mapsto> ?s')"
    using set by simp
  moreover have "scubic_sock_ok ?s'"
    using s(2) update_params_valid(2) [of ps "sk_ca s"]
    by (simp add: scubic_sock_ok_def) (simp add: scubic_cnt_ok_def scubic_with_def)
  moreover have "bt_conn (sk_ca ?s') = bt_conn (sk_ca s)" by (simp add: scubic_with_def)
  ultimately show "\<exists>w' s'. scubic_set_params c ps (word_of_nat (length ps)) w = Inr w' \<and>
      kw_socks w' = (kw_socks w)(conn_impl c \<mapsto> s') \<and> scubic_sock_ok s' \<and>
      bt_conn (sk_ca s') = bt_conn (sk_ca s)" by blast
qed simp

section \<open>The handlers\<close>

lemma scubic_frame [simp]:
  "bictcp_hystart_reset J tp ca e = (ca', e') \<Longrightarrow> same_params ca ca' \<and> last_cwnd ca' = last_cwnd ca \<and> bt_cnt ca' = bt_cnt ca"
  by (auto simp: bictcp_hystart_reset_def same_params_def split: prod.splits)

lemma bictcp_grow_ok:
  assumes K: "tcp_laws K" and J: "clock_ok J" and s: "scubic_sock_ok s"
  shows "\<exists>s' e'. bictcp_grow K J P s ack acked e = Inr (s', e') \<and> scubic_sock_ok s' \<and>
    bt_conn (sk_ca s') = bt_conn (sk_ca s)"
proof (cases "tcp_is_cwnd_limited K (sk_tp s)")
  case False
  with s show ?thesis by (simp add: bictcp_grow_def Let_def)
next
  case True
  let ?slow = "tcp_in_slow_start K (sk_tp s)"
  have params: "scubic_params_ok (sk_ca s)" and cnt: "scubic_cnt_ok (sk_ca s)" and win: "window_ok (sk_tp s)"
    using s by (simp_all add: scubic_sock_ok_def)
  obtain ca1 e1 where ca1: "(if ?slow \<and> cfg_hystart P \<noteq> 0 \<and> seq_after ack (end_seq (sk_ca s))
      then bictcp_hystart_reset J (sk_tp s) (sk_ca s) e else (sk_ca s, e)) = (ca1, e1)" by fastforce
  then have "same_params (sk_ca s) ca1 \<and> last_cwnd ca1 = last_cwnd (sk_ca s) \<and> bt_cnt ca1 = bt_cnt (sk_ca s)"
    by (auto simp: same_params_def split: if_splits dest: scubic_frame)
  then have same: "same_params (sk_ca s) ca1" and p1: "scubic_params_ok ca1" and c1: "scubic_cnt_ok ca1"
    using params cnt same_params_ok by (auto simp: scubic_cnt_ok_def)
  obtain acked1 tp1 where tp1: "(if ?slow then tcp_slow_start K (sk_tp s) acked else (acked, sk_tp s)) = (acked1, tp1)"
    by fastforce
  have win1: "window_ok tp1" using tp1 win window_grow(1) [OF K win, of acked] by (auto split: if_splits)
  show ?thesis
  proof (cases "?slow \<and> acked1 = 0")
    case True
    then have "bictcp_grow K J P s ack acked e = Inr (\<lparr>sk_tp = tp1, sk_ca = ca1\<rparr>, e1)"
      using \<open>tcp_is_cwnd_limited K (sk_tp s)\<close> ca1 tp1 by (simp add: bictcp_grow_def Let_def)
    with p1 c1 win1 same show ?thesis by (simp add: scubic_sock_ok_def same_params_def)
  next
    case False
    have cwnd: "unat (snd_cwnd tp1) \<le> 2 ^ 19" "4 \<le> unat (snd_cwnd tp1)" "snd_cwnd tp1 \<noteq> 0"
      using win1 by (auto simp: window_ok_def word_le_nat_alt)
    obtain ca2 e2 where upd: "bictcp_update J P ca1 (snd_cwnd tp1) acked1 e1 = Inr (ca2, e2)"
      and p2: "same_params ca1 ca2" and n: "2 \<le> unat (bt_cnt ca2)"
      using bictcp_update_ok [OF J c1 cwnd(3), of P acked1 e1] friendly_delta [OF p1 cwnd(1)] cwnd(2) by blast
    have "bictcp_grow K J P s ack acked e =
        Inr (\<lparr>sk_tp = tcp_cong_avoid_ai K tp1 (bt_cnt ca2) acked1, sk_ca = ca2\<rparr>, e2)"
      using \<open>tcp_is_cwnd_limited K (sk_tp s)\<close> if_not_P [OF False] upd
      by (simp only: bictcp_grow_def Let_def ca1 tp1 prod.case rbind.simps not_True_eq_False if_False)
    moreover have "bt_cnt ca2 \<noteq> 0" using n by auto
    then have "window_ok (tcp_cong_avoid_ai K tp1 (bt_cnt ca2) acked1)" by (rule window_grow(2) [OF K win1])
    moreover have "scubic_params_ok ca2" "bt_conn ca2 = bt_conn (sk_ca s)"
      using same_params_ok [OF p2 p1] p2 same by (simp_all add: same_params_def)
    ultimately show ?thesis using n by (simp add: scubic_sock_ok_def scubic_cnt_ok_def)
  qed
qed

lemma kw_socks_env [simp]: "kw_socks (w\<lparr>kw_env := e\<rparr>) = kw_socks w"
  by simp

lemma bictcp_cong_avoid_ok:
  assumes K: "tcp_laws K" and J: "clock_ok J"
    and dp: "scubic_dp_ok T tzero N C dp" and w: "scubic_good C (kw_socks w)" and sk: "C sk = Some c"
  shows "\<exists>dp' w'. bictcp_cong_avoid K J P dp sk ack acked w = Inr (dp', w') \<and> scubic_ok T tzero N C (dp', w') \<and>
    length (slots dp') = length (slots dp)"
proof -
  from w sk obtain s where s: "kw_socks w sk = Some s" and conn: "bt_conn (sk_ca s) = c"
    by (rule socks_ok_get)
  obtain dp1 w1 where inv: "(case c of None \<Rightarrow> Inr (dp, w)
      | Some i \<Rightarrow> rbind (spine_invoke dp (Some i) w) (\<lambda>(ok, dp', w'). Inr (dp', w'))) = Inr (dp1, w1)"
    and dp1: "scubic_dp_ok T tzero N C dp1" and len: "length (slots dp1) = length (slots dp)" and w1: "scubic_good C (kw_socks w1)"
    using scubic_flows.invoke_conn_ok [OF dp w sk] by blast
  from w1 sk obtain s1 where s1: "kw_socks w1 sk = Some s1" "scubic_sock_ok s1" by (rule socks_ok_get)
  obtain s2 e2 where grow: "bictcp_grow K J P s1 ack acked (kw_env w1) = Inr (s2, e2)"
    and s2: "scubic_sock_ok s2" "bt_conn (sk_ca s2) = bt_conn (sk_ca s1)"
    using bictcp_grow_ok [OF K J s1(2)] by blast
  have "bictcp_cong_avoid K J P dp sk ack acked w = Inr (dp1, sock_put (w1\<lparr>kw_env := e2\<rparr>) sk s2)"
    using s conn inv s1(1) grow by (simp add: bictcp_cong_avoid_def)
  with dp1 len socks_ok_put [OF w1 s1(1) s2] show ?thesis by (simp add: scubic_ok_def)
qed

text \<open>The handlers that measure: they keep the parameters, the count and the window.\<close>

definition keeps_flow :: "tcp_sock \<Rightarrow> bictcp \<Rightarrow> tcp_sock \<Rightarrow> bictcp \<Rightarrow> bool" where
  "keeps_flow tp ca tp' ca' \<longleftrightarrow> same_params ca ca' \<and> last_cwnd ca' = last_cwnd ca \<and> bt_cnt ca' = bt_cnt ca \<and>
     snd_cwnd tp' = snd_cwnd tp \<and> snd_cwnd_clamp tp' = snd_cwnd_clamp tp"

lemma keeps_flow_ok:
  assumes "keeps_flow (sk_tp s) (sk_ca s) tp' ca'" and "scubic_sock_ok s"
  shows "scubic_sock_ok \<lparr>sk_tp = tp', sk_ca = ca'\<rparr>" and "bt_conn ca' = bt_conn (sk_ca s)"
proof -
  have "same_params (sk_ca s) ca'" using assms(1) by (simp add: keeps_flow_def)
  then have "scubic_params_ok ca'" using assms(2) by (simp add: same_params_ok scubic_sock_ok_def)
  with assms show "scubic_sock_ok \<lparr>sk_tp = tp', sk_ca = ca'\<rparr>"
    by (simp add: keeps_flow_def scubic_sock_ok_def scubic_cnt_ok_def window_ok_def)
  show "bt_conn ca' = bt_conn (sk_ca s)" using assms(1) by (simp add: keeps_flow_def same_params_def)
qed

lemma keeps_flow_refl [simp]: "keeps_flow tp ca tp ca"
  by (simp add: keeps_flow_def same_params_def)

lemma keeps_flow_trans: "keeps_flow a x b y \<Longrightarrow> keeps_flow b y c z \<Longrightarrow> keeps_flow a x c z"
  by (simp add: keeps_flow_def same_params_def)

lemma keeps_flow_updates [simp]:
  "keeps_flow tp ca tp (ca\<lparr>last_ack := x\<rparr>)" "keeps_flow tp ca tp (ca\<lparr>curr_rtt := x\<rparr>)"
  "keeps_flow tp ca tp (ca\<lparr>curr_rtt := x, sample_cnt := z\<rparr>)" "keeps_flow tp ca tp (ca\<lparr>sample_cnt := z\<rparr>)"
  "keeps_flow tp ca (tp\<lparr>snd_ssthresh := y\<rparr>) (ca\<lparr>last_ack := x, bt_found := f\<rparr>)"
  "keeps_flow tp ca (tp\<lparr>snd_ssthresh := y\<rparr>) (ca\<lparr>curr_rtt := x, bt_found := f\<rparr>)"
  "keeps_flow tp ca (tp\<lparr>snd_ssthresh := y\<rparr>) (ca\<lparr>bt_found := f\<rparr>)"
  "keeps_flow tp ca tp (ca\<lparr>delay_min := x\<rparr>)" "keeps_flow tp ca tp (ca\<lparr>epoch_start := x\<rparr>)"
  by (simp_all add: keeps_flow_def same_params_def)

lemma hystart_train_keeps:
  "case hystart_train J P tp ca e of (tp', ca', e') \<Rightarrow> keeps_flow tp ca tp' ca'"
  by (cases "bictcp_clock J e") (simp add: hystart_train_def Let_def)

lemma hystart_delay_keeps:
  "case hystart_delay_check tp ca delay of (tp', ca') \<Rightarrow> keeps_flow tp ca tp' ca'"
  by (simp add: hystart_delay_check_def Let_def)

lemma hystart_update_keeps:
  "case hystart_update J P tp ca delay e of (tp', ca', e') \<Rightarrow> keeps_flow tp ca tp' ca'"
proof -
  obtain tp1 ca1 e1 where one: "(if hystart_detect P AND HYSTART_ACK_TRAIN \<noteq> 0 then hystart_train J P tp ca e
      else (tp, ca, e)) = (tp1, ca1, e1)" by (metis prod_cases3)
  then have k1: "keeps_flow tp ca tp1 ca1"
    using hystart_train_keeps [where J = J and P = P and tp = tp and ca = ca and e = e] by (cases "hystart_detect P AND HYSTART_ACK_TRAIN \<noteq> 0") simp_all
  obtain tp2 ca2 where two: "hystart_delay_check tp1 ca1 delay = (tp2, ca2)" by fastforce
  with hystart_delay_keeps [where tp = tp1 and ca = ca1 and delay = delay] have k2: "keeps_flow tp ca tp2 ca2"
    using keeps_flow_trans [OF k1] by simp
  show ?thesis
    unfolding hystart_update_def Let_def one prod.case two using k1 k2 by simp
qed

lemma bictcp_acked_keeps:
  "case bictcp_acked K J P tp ca sample e of (tp', ca', e') \<Rightarrow> keeps_flow tp ca tp' ca'"
proof -
  obtain now e1 where now: "(if epoch_start ca \<noteq> 0 then tcp_jiffies32 J e else (0, e)) = (now, e1)" by fastforce
  define d where "d = sample_delay (as_rtt_us sample)"
  define ca1 where "ca1 = (if delay_min ca = 0 \<or> delay_min ca > d then ca\<lparr>delay_min := d\<rparr> else ca)"
  have k1: "keeps_flow tp ca tp ca1" by (simp add: ca1_def)
  obtain tp2 ca2 e2 where two: "hystart_update J P tp ca1 d e1 = (tp2, ca2, e2)" by (metis prod_cases3)
  with hystart_update_keeps [where J = J and P = P and tp = tp and ca = ca1 and delay = d and e = e1] have k2: "keeps_flow tp ca tp2 ca2"
    using keeps_flow_trans [OF k1] by simp
  show ?thesis
    unfolding bictcp_acked_def Let_def now prod.case d_def [symmetric] ca1_def [symmetric] two
    using k1 k2 by simp
qed

lemma bictcp_cwnd_event_keeps:
  "case bictcp_cwnd_event J tp ca ev e of (ca', e') \<Rightarrow> keeps_flow tp ca tp ca'"
  by (cases "tcp_jiffies32 J e") (simp add: bictcp_cwnd_event_def Let_def)

lemma bictcp_state_ok:
  assumes "scubic_sock_ok s"
  shows "case bictcp_state J (sk_tp s) (sk_ca s) st e of (ca', e') \<Rightarrow>
    scubic_sock_ok \<lparr>sk_tp = sk_tp s, sk_ca = ca'\<rparr> \<and> bt_conn ca' = bt_conn (sk_ca s)"
  using assms
  by (cases "bictcp_clock J e")
    (simp add: bictcp_state_def bictcp_hystart_reset_def bictcp_reset_def Let_def scubic_sock_ok_def
      scubic_params_ok_def scubic_cnt_ok_def)

section \<open>The module as a machine\<close>

datatype scubic_event =
    Sc_Stats nat tcp_sock
  | Sc_Ack nat u32 u32
  | Sc_Sample nat ack_sample
  | Sc_Ssthresh nat
  | Sc_State nat tcp_ca_state
  | Sc_Event nat tcp_ca_event
  | Sc_Packet "u8 list"

type_synonym 'e scubic_state = "'e scubic_world spine_datapath \<times> 'e scubic_world"

definition on_flow ::
  "'e scubic_world \<Rightarrow> nat \<Rightarrow> (bictcp ksock \<Rightarrow> 'e \<Rightarrow> bictcp ksock \<times> 'e) \<Rightarrow> 'e scubic_world res" where
  "on_flow w sk f = rbind (sock_ref w sk) (\<lambda>s.
     let (s', e') = f s (kw_env w) in Inr (sock_put (w\<lparr>kw_env := e'\<rparr>) sk s'))"

text \<open>An event comes with the values the module parameters have at that moment.\<close>

fun scubic_step ::
  "tcp_api \<Rightarrow> 'e clock_api \<Rightarrow> bool \<Rightarrow> scubic_config \<times> scubic_event \<Rightarrow> 'e scubic_state \<Rightarrow> 'e scubic_state res" where
  "scubic_step K J cs (P, Sc_Stats sk tp) (dp, w) =
     rbind (on_flow w sk (\<lambda>s e. (s\<lparr>sk_tp := tp\<rparr>, e))) (\<lambda>w'. Inr (dp, w'))"
| "scubic_step K J cs (P, Sc_Ack sk ack acked) (dp, w) = bictcp_cong_avoid K J P dp sk ack acked w"
| "scubic_step K J cs (P, Sc_Sample sk smp) (dp, w) =
     rbind (on_flow w sk (\<lambda>s e. let (tp, ca, e') = bictcp_acked K J P (sk_tp s) (sk_ca s) smp e in
       (\<lparr>sk_tp = tp, sk_ca = ca\<rparr>, e'))) (\<lambda>w'. Inr (dp, w'))"
| "scubic_step K J cs (P, Sc_Ssthresh sk) (dp, w) =
     rbind (on_flow w sk (\<lambda>s e. (s\<lparr>sk_ca := snd (bictcp_recalc_ssthresh P (sk_tp s) (sk_ca s))\<rparr>, e)))
       (\<lambda>w'. Inr (dp, w'))"
| "scubic_step K J cs (P, Sc_State sk st) (dp, w) =
     rbind (on_flow w sk (\<lambda>s e. let (ca, e') = bictcp_state J (sk_tp s) (sk_ca s) st e in
       (\<lparr>sk_tp = sk_tp s, sk_ca = ca\<rparr>, e'))) (\<lambda>w'. Inr (dp, w'))"
| "scubic_step K J cs (P, Sc_Event sk ev) (dp, w) =
     rbind (on_flow w sk (\<lambda>s e. let (ca, e') = bictcp_cwnd_event J (sk_tp s) (sk_ca s) ev e in
       (\<lparr>sk_tp = sk_tp s, sk_ca = ca\<rparr>, e'))) (\<lambda>w'. Inr (dp, w'))"
| "scubic_step K J cs (P, Sc_Packet p) (dp, w) =
     rbind (spine_nl_recv (Some (spine_read_msg cs)) (Some dp) (nl_packet p)) (\<lambda>dp'.
     rbind (deref dp') (\<lambda>dp1. Inr (dp1, w)))"

fun scubic_allowed :: "(nat \<Rightarrow> nat option option) \<Rightarrow> scubic_config \<times> scubic_event \<Rightarrow> bool" where
  "scubic_allowed C (P, Sc_Stats sk tp) \<longleftrightarrow> C sk \<noteq> None \<and> window_ok tp"
| "scubic_allowed C (P, Sc_Ack sk ack acked) \<longleftrightarrow> C sk \<noteq> None"
| "scubic_allowed C (P, Sc_Sample sk smp) \<longleftrightarrow> C sk \<noteq> None"
| "scubic_allowed C (P, Sc_Ssthresh sk) \<longleftrightarrow> C sk \<noteq> None"
| "scubic_allowed C (P, Sc_State sk st) \<longleftrightarrow> C sk \<noteq> None"
| "scubic_allowed C (P, Sc_Event sk ev) \<longleftrightarrow> C sk \<noteq> None"
| "scubic_allowed C (P, Sc_Packet p) \<longleftrightarrow> controller_payload p"

lemma on_flow_step:
  assumes dp: "scubic_dp_ok T tzero N C dp" and w: "scubic_good C (kw_socks w)" and sk: "C sk \<noteq> None"
    and f: "\<And>s e. scubic_sock_ok s \<Longrightarrow> case f s e of (s', e') \<Rightarrow>
      scubic_sock_ok s' \<and> bt_conn (sk_ca s') = bt_conn (sk_ca s)"
  shows "\<exists>dp' w'. rbind (on_flow w sk f) (\<lambda>w'. Inr (dp, w')) = Inr (dp', w') \<and> scubic_ok T tzero N C (dp', w') \<and>
    length (slots dp') = length (slots dp)"
proof -
  from sk obtain c where "C sk = Some c" by auto
  from w this obtain s where s: "kw_socks w sk = Some s" "scubic_sock_ok s" by (rule socks_ok_get)
  obtain s' e' where fs: "f s (kw_env w) = (s', e')" by fastforce
  from f [OF s(2), of "kw_env w"] socks_ok_put [OF w s(1), of s'] dp s(1) fs show ?thesis
    by (simp add: on_flow_def scubic_ok_def)
qed

lemma scubic_step_ok:
  fixes T :: "('e, 'ts) time_api"
  assumes K: "tcp_laws K" and J: "clock_ok J"
    and ok: "scubic_ok T tzero N C (dp, w)" and e: "scubic_allowed C (P, ev)"
  shows "\<exists>dp' w'. scubic_step K J cs (P, ev) (dp, w) = Inr (dp', w') \<and> scubic_ok T tzero N C (dp', w') \<and>
    length (slots dp') = length (slots dp)"
proof -
  have dp: "scubic_dp_ok T tzero N C dp" and w: "scubic_good C (kw_socks w)"
    using ok by (simp_all add: scubic_ok_def)
  show ?thesis
  proof (cases ev)
    case (Sc_Stats sk tp)
    with e have "C sk \<noteq> None" "window_ok tp" by simp_all
    then show ?thesis
      unfolding Sc_Stats scubic_step.simps by (intro on_flow_step [OF dp w]) (simp_all add: scubic_sock_ok_def)
  next
    case (Sc_Ack sk ack acked)
    with e obtain c where "C sk = Some c" by auto
    from bictcp_cong_avoid_ok [OF K J dp w this, of P ack acked] Sc_Ack show ?thesis by auto
  next
    case (Sc_Sample sk smp)
    have "case bictcp_acked K J P (sk_tp s) (sk_ca s) smp e of (tp, ca, e') \<Rightarrow>
        scubic_sock_ok \<lparr>sk_tp = tp, sk_ca = ca\<rparr> \<and> bt_conn ca = bt_conn (sk_ca s)" if "scubic_sock_ok s" for s e
      using bictcp_acked_keeps [where K = K and J = J and P = P and tp = "sk_tp s" and ca = "sk_ca s" and sample = smp and e = e] keeps_flow_ok [OF _ that] by auto
    moreover have "C sk \<noteq> None" using Sc_Sample e by simp
    ultimately show ?thesis
      unfolding Sc_Sample scubic_step.simps by (intro on_flow_step [OF dp w]) (fastforce split: prod.splits)+
  next
    case (Sc_Ssthresh sk)
    with e have "C sk \<noteq> None" by simp
    then show ?thesis
      unfolding Sc_Ssthresh scubic_step.simps
      by (intro on_flow_step [OF dp w])
        (simp_all add: bictcp_recalc_ssthresh_def Let_def scubic_sock_ok_def scubic_params_ok_def scubic_cnt_ok_def)
  next
    case (Sc_State sk st)
    with e have "C sk \<noteq> None" by simp
    then show ?thesis
      unfolding Sc_State scubic_step.simps
      using bictcp_state_ok [where J = J and st = st] by (intro on_flow_step [OF dp w]) (fastforce split: prod.splits)+
  next
    case (Sc_Event sk tev)
    have "case bictcp_cwnd_event J (sk_tp s) (sk_ca s) tev e of (ca, e') \<Rightarrow>
        scubic_sock_ok \<lparr>sk_tp = sk_tp s, sk_ca = ca\<rparr> \<and> bt_conn ca = bt_conn (sk_ca s)" if "scubic_sock_ok s" for s e
      using bictcp_cwnd_event_keeps [where J = J and tp = "sk_tp s" and ca = "sk_ca s" and ev = tev and e = e] keeps_flow_ok [OF _ that] by auto
    moreover have "C sk \<noteq> None" using Sc_Event e by simp
    ultimately show ?thesis
      unfolding Sc_Event scubic_step.simps by (intro on_flow_step [OF dp w]) (fastforce split: prod.splits)+
  next
    case (Sc_Packet p)
    with flows_ok_recv [OF dp, of p cs] e w show ?thesis by (auto simp: scubic_ok_def)
  qed
qed

text \<open>The machine; its invariant includes what the stack and the clocks document.\<close>

interpretation scubic_machine: machine "scubic_step K J cs"
  "\<lambda>s. tcp_laws K \<and> clock_ok J \<and> scubic_ok T tzero N C s" "scubic_allowed C"
  for K and J :: "'e clock_api" and cs and T :: "('e, 'ts) time_api" and tzero :: 'ts and N :: "'e nl_api" and C
proof
  fix s :: "'e scubic_state" and e
  assume "tcp_laws K \<and> clock_ok J \<and> scubic_ok T tzero N C s" and "scubic_allowed C e"
  then show "\<exists>s'. scubic_step K J cs e s = Inr s' \<and> tcp_laws K \<and> clock_ok J \<and> scubic_ok T tzero N C s'"
    using scubic_step_ok [where K = K and J = J and T = T and tzero = tzero and N = N and C = C
        and dp = "fst s" and w = "snd s"] by (cases e) fastforce
qed

end
