(* ===== verification/Joint.thy ===== *)
theory Joint
  imports Traffic Neo_Module Vanilla_Module Scubic_Module
begin

text \<open>
  Kernel and controller as one system: calls of the library by a module, packets of the controller
  on their way to the kernel, multicast messages on their way to the controller, and the messages
  of the environments, in any order. A message or packet may arrive any number of times, late, or
  never. The invariant of the system shows that the controller can always handle what the kernel
  sends: it never loses its netlink socket to an exception.
\<close>

section \<open>The joint system\<close>

definition packets :: "sent list \<Rightarrow> u8 list set" where
  "packets out = {pkt. To_Kernel pkt \<in> set out}"

type_synonym ('ca, 'e) joint_state =
  "('ca, 'e) kworld spine_datapath \<times> ('ca, 'e) kworld \<times> process \<times> u8 list set"

text \<open>
  The last component holds the packets the controller has sent. What a module and the rest of the
  kernel do between calls of the library multicasts nothing.
\<close>

inductive joint_step ::
  "(('ca, 'e) kworld \<Rightarrow> bool \<times> ('ca, 'e) kworld) \<Rightarrow> bool \<Rightarrow> (string \<Rightarrow> int) \<Rightarrow> kernel_cc \<Rightarrow> ('e \<Rightarrow> u8 list set) \<Rightarrow>
   ('ca, 'e) joint_state \<Rightarrow> ('ca, 'e) joint_state \<Rightarrow> bool"
  for kcalloc cs hash cc tr where
  call: "lib_step kcalloc cs op (dp, w) (dp', w') \<Longrightarrow> (\<And>buf n. op \<noteq> Op_Read buf n) \<Longrightarrow> op \<noteq> Op_World \<Longrightarrow>
    joint_step kcalloc cs hash cc tr (dp, w, p, q) (dp', w', p, q)"
| idle: "tr (kw_env w') \<subseteq> tr (kw_env w) \<Longrightarrow> joint_step kcalloc cs hash cc tr (dp, w, p, q) (dp, w', p, q)"
| receive: "pkt \<in> q \<Longrightarrow> spine_nl_recv (Some (spine_read_msg cs)) (Some dp) (nl_packet pkt) = Inr (Some dp') \<Longrightarrow>
    joint_step kcalloc cs hash cc tr (dp, w, p, q) (dp', w, p, q)"
| hear: "msg \<in> tr (kw_env w) \<Longrightarrow> process_step hash cc (From_Kernel (Some msg)) p = (out, p') \<Longrightarrow>
    joint_step kcalloc cs hash cc tr (dp, w, p, q) (dp, w, p', q \<union> packets out)"
| serve: "\<not> concerns Netlink_Fd ev \<Longrightarrow> process_step hash cc ev p = (out, p') \<Longrightarrow>
    joint_step kcalloc cs hash cc tr (dp, w, p, q) (dp, w, p', q \<union> packets out)"

inductive joint_reach ::
  "(('ca, 'e) kworld \<Rightarrow> bool \<times> ('ca, 'e) kworld) \<Rightarrow> bool \<Rightarrow> (string \<Rightarrow> int) \<Rightarrow> kernel_cc \<Rightarrow> ('e \<Rightarrow> u8 list set) \<Rightarrow>
   ('ca, 'e) joint_state \<Rightarrow> ('ca, 'e) joint_state \<Rightarrow> bool"
  for kcalloc cs hash cc tr s0 where
  here: "joint_reach kcalloc cs hash cc tr s0 s0"
| there: "joint_reach kcalloc cs hash cc tr s0 s \<Longrightarrow> joint_step kcalloc cs hash cc tr s s' \<Longrightarrow>
    joint_reach kcalloc cs hash cc tr s0 s'"

section \<open>Its invariant\<close>

text \<open>The connections a client of the controller waits for, and numbers of 16 bits.\<close>

definition awaited :: "agent \<Rightarrow> u32 \<Rightarrow> bool" where
  "awaited st s \<longleftrightarrow> client_from_sock st (Some s) \<noteq> None"

definition short :: "u32 \<Rightarrow> bool" where
  "short s \<longleftrightarrow> unat s < 65536"

definition request_ok :: "(u32 \<Rightarrow> bool) \<Rightarrow> u8 list \<Rightarrow> bool" where
  "request_ok R pkt \<longleftrightarrow> small_packet pkt \<and> (\<forall>h. SpineMsgHeader_from_raw pkt = Some h \<longrightarrow>
     short (hdr_SocketId h) \<and> (hdr_Type h = MEASURE \<longrightarrow> R (hdr_SocketId h)))"

definition joint_ok ::
  "('e, 'ts) time_api \<Rightarrow> 'ts \<Rightarrow> 'e nl_api \<Rightarrow> ('e \<Rightarrow> u8 list set) \<Rightarrow> ('ca, 'e) joint_state \<Rightarrow> bool" where
  "joint_ok T tzero N tr = (\<lambda>(dp, w, p, q).
     lib_inv T tzero N dp \<and> quiet_callbacks tr dp \<and> wire (awaited (pr_agent p)) tr w \<and>
     asked_for (awaited (pr_agent p)) dp \<and> Netlink_Fd \<in> set (watched p) \<and>
     sids_in short (ag_flows (pr_agent p)) \<and> (\<forall>pkt \<in> q. request_ok (awaited (pr_agent p)) pkt))"

lemma request_ok_mono: "request_ok R pkt \<Longrightarrow> (\<And>s. R s \<Longrightarrow> R' s) \<Longrightarrow> request_ok R' pkt"
  unfolding request_ok_def by blast

lemma quiet_same_cc: "quiet_callbacks tr dp \<Longrightarrow> same_cc dp dp' \<Longrightarrow> quiet_callbacks tr dp'"
  by (simp add: quiet_callbacks_def same_cc_def)

text \<open>The kernel's side.\<close>

lemma call_ok:
  fixes T :: "('e, 'ts) time_api"
  assumes tr: "traced T N tr" and calloc: "\<And>w. tr (kw_env (snd (kcalloc w))) = tr (kw_env w)"
    and step: "lib_step kcalloc cs op (dp, w) (dp', w')" and op: "\<And>buf n. op \<noteq> Op_Read buf n" "op \<noteq> Op_World"
    and ok: "joint_ok T tzero N tr (dp, w, p, q)"
  shows "joint_ok T tzero N tr (dp', w', p, q)"
proof -
  let ?R = "awaited (pr_agent p)"
  have inv: "lib_inv T tzero N dp" and cb: "quiet_callbacks tr dp" and w: "wire ?R tr w" and asked: "asked_for ?R dp"
    using ok by (simp_all add: joint_ok_def)
  have "wire ?R tr w' \<and> asked_for ?R dp' \<and> same_cc dp dp'"
    using step
  proof cases
    case (start impl info r)
    with start_wire [OF tr inv w asked calloc] show ?thesis by blast
  next
    case (free sid)
    with free_wire [OF tr inv w asked] show ?thesis by blast
  next
    case (invoke i ret)
    with invoke_wire [OF tr inv w asked cb] show ?thesis by blast
  qed (use op in simp_all)
  moreover have "lib_inv T tzero N dp'" using lib_step_moves [OF step, of T tzero N] inv by simp
  ultimately show ?thesis using ok quiet_same_cc [OF cb] by (simp add: joint_ok_def)
qed

lemma header_of_raw: "SpineMsgHeader_from_raw pkt = Some h \<Longrightarrow> header_of_bytes (take 8 pkt) = h"
  by (auto simp: SpineMsgHeader_from_raw_def header_of_bytes_def drop_take split: if_splits)

lemma small_packet_header: "small_packet pkt \<Longrightarrow> \<exists>h. SpineMsgHeader_from_raw pkt = Some h"
  by (auto simp: small_packet_def update_packet_eq measure_packet_eq from_raw_header simp del: to_le.simps)

lemma short_roundtrip: "short s \<Longrightarrow> ucast (ucast s :: u16) = s"
  by (simp add: short_def word_unat_eq_iff unat_ucast_up unsigned_ucast_eq unsigned_take_bit_eq take_bit_nat_eq_self_iff)

lemma receive_ok:
  fixes T :: "('e, 'ts) time_api"
  assumes pkt: "pkt \<in> q" and recv: "spine_nl_recv (Some (spine_read_msg cs)) (Some dp) (nl_packet pkt) = Inr (Some dp')"
    and ok: "joint_ok T tzero N tr (dp, w, p, q)"
  shows "joint_ok T tzero N tr (dp', w, p, q)"
proof -
  let ?R = "awaited (pr_agent p)"
  have inv: "lib_inv T tzero N dp" and cb: "quiet_callbacks tr dp" and asked: "asked_for ?R dp" and req: "request_ok ?R pkt"
    using ok pkt by (simp_all add: joint_ok_def)
  obtain n ret where read: "spine_read_msg cs dp pkt n = Inr (ret, dp')"
    using recv by (auto simp: spine_nl_recv_def nl_packet_def rbind_eq_Inr)
  obtain h where h: "SpineMsgHeader_from_raw pkt = Some h" using req small_packet_header by (auto simp: request_ok_def)
  then have "hdr_Type h = MEASURE \<Longrightarrow> ?R (ucast (ucast (hdr_SocketId h) :: u16))"
    using req short_roundtrip by (simp add: request_ok_def)
  then have "asked_for ?R dp' \<and> same_cc dp dp'"
    using read_asked [OF inv asked read] header_of_raw [OF h] by simp
  moreover have "lib_inv T tzero N dp'" using read_moves [OF inv read] by blast
  ultimately show ?thesis using ok quiet_same_cc [OF cb] by (simp add: joint_ok_def)
qed

text \<open>The controller's side: what it hears from the kernel it can handle.\<close>

lemma hears:
  assumes "kernel_msg (awaited st) msg"
  shows "\<exists>out st'. read_netlink_message hash (Some msg) st = (Inr Continue, out, st') \<and>
    client_from_sock st' = client_from_sock st \<and> packets out = {}"
proof -
  obtain h where h: "SpineMsgHeader_from_raw msg = Some h"
    and cr: "hdr_Type h = CREATE \<Longrightarrow> 96 \<le> length msg" and me: "hdr_Type h = MEASURE \<Longrightarrow> awaited st (hdr_SocketId h)"
    using assms unfolding kernel_msg_def by blast
  have codes: "NL_CREATE = CREATE" "NL_MEASURE = MEASURE" by (simp_all add: c_consts)
  show ?thesis
  proof (cases "hdr_Type h = CREATE")
    case True
    with cr have "\<not> length (drop 8 msg) < 24" by simp
    then obtain c where "CreateMsg_from_raw (drop 8 msg) = Some c" by (simp add: CreateMsg_from_raw_def)
    with True h show ?thesis by (simp add: read_netlink_message_def codes packets_def)
  next
    case False
    show ?thesis
    proof (cases "hdr_Type h = MEASURE")
      case True
      with me obtain client where "client_from_sock st (Some (hdr_SocketId h)) = Some client"
        by (auto simp: awaited_def)
      with True False h show ?thesis by (simp add: read_netlink_message_def codes NL_READY_def MEASURE_def packets_def)
    next
      case False
      with \<open>hdr_Type h \<noteq> CREATE\<close> h show ?thesis by (simp add: read_netlink_message_def codes packets_def)
    qed
  qed
qed

lemma hear_ok:
  fixes T :: "('e, 'ts) time_api"
  assumes msg: "msg \<in> tr (kw_env w)" and step: "process_step hash cc (From_Kernel (Some msg)) p = (out, p')"
    and ok: "joint_ok T tzero N tr (dp, w, p, q)"
  shows "joint_ok T tzero N tr (dp, w, p', q \<union> packets out)"
proof -
  have k: "kernel_msg (awaited (pr_agent p)) msg" and fd: "Netlink_Fd \<in> set (watched p)"
    and sids: "sids_in short (ag_flows (pr_agent p))"
    using ok msg by (simp_all add: joint_ok_def wire_def)
  obtain out' st' where read: "read_netlink_message hash (Some msg) (pr_agent p) = (Inr Continue, out', st')"
    and clients: "client_from_sock st' = client_from_sock (pr_agent p)" and none: "packets out' = {}"
    using hears [OF k] by blast
  then have p': "p' = p\<lparr>pr_agent := st'\<rparr>" and out: "out = out'"
    using step fd by (simp_all add: poll_callback_def)
  have "announces_only short (From_Kernel (Some msg))"
    using k by (auto simp: announces_only_def kernel_msg_def short_def NL_CREATE_def CREATE_def)
  then have "sids_in short (ag_flows st')" using netlink_sids [OF sids _ read] by blast
  moreover have "awaited st' = awaited (pr_agent p)" using clients by (simp add: awaited_def fun_eq_iff)
  ultimately show ?thesis using ok none by (simp add: joint_ok_def p' out)
qed

text \<open>An environment's request makes its client one that waits.\<close>

lemma nl_send_type:
  "nl_send cc action sid = Some packet \<Longrightarrow>
   \<exists>h. SpineMsgHeader_from_raw packet = Some h \<and> hdr_SocketId h = sid \<and> hdr_Type h = UPDATE_FIELDS"
  by (cases cc) (auto simp: send_vanilla_message_def send_neo_message_def send_scubic_message_def
      update_packet_eq from_raw_header split: option.splits if_splits simp del: to_le.simps)

lemma unix_awaits:
  assumes "read_unix_message hash cc client raw st = (res, out, st')"
  shows "(awaited st s \<longrightarrow> awaited st' s) \<and> (\<forall>pkt \<in> packets out. \<forall>h. SpineMsgHeader_from_raw pkt = Some h \<longrightarrow>
    hdr_Type h = MEASURE \<longrightarrow> awaited st' (hdr_SocketId h))"
proof (cases raw)
  case None
  with assms show ?thesis by (auto simp: read_unix_message_def packets_def)
next
  case (Some um)
  show ?thesis
  proof (cases "get_env_flows hash (um_env_id um) (ag_flows st)")
    case None
    with assms Some show ?thesis by (auto simp: read_unix_message_def packets_def)
  next
    case m: (Some m)
    let ?good = "\<lambda>(res, out, st'). (awaited st s \<longrightarrow> awaited st' s) \<and>
      (\<forall>pkt \<in> packets out. \<forall>h. SpineMsgHeader_from_raw pkt = Some h \<longrightarrow> hdr_Type h = MEASURE \<longrightarrow> awaited st' (hdr_SocketId h))"
    have "?good (handle_start hash um m st)" "?good (handle_end hash um m st)"
      by (simp_all add: handle_start_def handle_end_def awaited_def packets_def Let_def split: option.split prod.split)
    moreover have "?good (handle_measure cc client um m st)"
    proof -
      have "hdr_SocketId h = sid" if "nl_send_measure cc r sid = Inr packet" "SpineMsgHeader_from_raw packet = Some h"
        for r sid packet h using nl_send_measure_sid [OF that(1)] that(2) by auto
      then show ?thesis
        by (auto simp: handle_measure_def awaited_def packets_def Let_def split: option.split sum.split)
    qed
    moreover have "?good (handle_alive cc um m st)"
    proof -
      have "hdr_Type h \<noteq> MEASURE" if "nl_send cc action sid = Some packet" "SpineMsgHeader_from_raw packet = Some h"
        for action sid packet h using nl_send_type [OF that(1)] that(2) by (auto simp: UPDATE_FIELDS_def MEASURE_def)
      then show ?thesis by (auto simp: handle_alive_def packets_def split: option.split)
    qed
    ultimately show ?thesis
      using assms Some m by (cases "um_type um") (auto simp: read_unix_message_def packets_def awaited_def)
  qed
qed

lemma serve_awaits:
  assumes ev: "\<not> concerns Netlink_Fd ev" and step: "process_step hash cc ev p = (out, p')"
  shows "(awaited (pr_agent p) s \<longrightarrow> awaited (pr_agent p') s) \<and> (\<forall>pkt \<in> packets out. \<forall>h.
    SpineMsgHeader_from_raw pkt = Some h \<longrightarrow> hdr_Type h = MEASURE \<longrightarrow> awaited (pr_agent p') (hdr_SocketId h))"
proof (cases ev)
  case (From_Kernel msg)
  with ev show ?thesis by (simp add: concerns_def)
next
  case (From_Env client raw)
  obtain res out' st' where read: "read_unix_message hash cc client raw (pr_agent p) = (res, out', st')" by (metis prod_cases3)
  have "out = [] \<and> p' = p \<or> out = out' \<and> pr_agent p' = st'"
    using step From_Env read by (auto simp: poll_callback_def split: if_splits)
  with unix_awaits [OF read, of s] show ?thesis by (auto simp: packets_def)
next
  case (Accept client message)
  with step have "process_step hash cc (Accept client message) p = (out, p')" by simp
  then show ?thesis by (cases rule: accept_tables) (simp_all add: packets_def awaited_def)
next
  case (Hang_Up fd)
  with step show ?thesis by (auto simp: packets_def)
qed

lemma serve_watched:
  assumes "\<not> concerns Netlink_Fd ev" and "process_step hash cc ev p = (out, p')" and "Netlink_Fd \<in> set (watched p)"
  shows "Netlink_Fd \<in> set (watched p')"
proof (cases ev)
  case (From_Env client raw)
  with assms(2,3) show ?thesis by (auto simp: poll_callback_def poll_error_def split: if_splits prod.splits)
next
  case (Accept client message)
  with assms(2,3) show ?thesis
    by (cases "accept_unix_conn hash client message p")
      (auto simp: accept_unix_conn_def poll_error_def split: if_splits option.splits)
qed (use assms in \<open>auto simp: concerns_def poll_error_def\<close>)

lemma serve_ok:
  fixes T :: "('e, 'ts) time_api"
  assumes keys: "sender_keys cc" and ev: "\<not> concerns Netlink_Fd ev" and step: "process_step hash cc ev p = (out, p')"
    and ok: "joint_ok T tzero N tr (dp, w, p, q)"
  shows "joint_ok T tzero N tr (dp, w, p', q \<union> packets out)"
proof -
  have sids: "sids_in short (ag_flows (pr_agent p))" using ok by (simp add: joint_ok_def)
  have "announces_only short ev" using ev by (cases ev) (simp_all add: announces_only_def concerns_def)
  from step_sids [OF sids this step] have sids': "sids_in short (ag_flows (pr_agent p'))" and fors: "sends_for short out"
    by simp_all
  have mono: "awaited (pr_agent p) s \<Longrightarrow> awaited (pr_agent p') s" for s
    using serve_awaits [OF ev step] by blast
  have "request_ok (awaited (pr_agent p')) pkt" if "pkt \<in> packets out" for pkt
  proof -
    have "small_packet pkt" using step_small [OF keys step] that by (simp add: sends_small_def packets_def)
    moreover have "short (hdr_SocketId h)" if "SpineMsgHeader_from_raw pkt = Some h" for h
      using fors \<open>pkt \<in> packets out\<close> that by (auto simp: sends_for_def list_all_iff packets_def)
    ultimately show ?thesis using serve_awaits [OF ev step] that unfolding request_ok_def by blast
  qed
  moreover have "wire (awaited (pr_agent p')) tr w" "asked_for (awaited (pr_agent p')) dp"
    "\<forall>pkt \<in> q. request_ok (awaited (pr_agent p')) pkt"
    using ok mono wire_mono [of "awaited (pr_agent p)" tr w] asked_for_mono [of "awaited (pr_agent p)" dp]
      request_ok_mono [of "awaited (pr_agent p)"] by (simp_all add: joint_ok_def)
  ultimately show ?thesis
    using ok sids' serve_watched [OF ev step] by (auto simp: joint_ok_def)
qed

lemma joint_reach_ok:
  fixes T :: "('e, 'ts) time_api"
  assumes "joint_reach kcalloc cs hash cc tr s0 s" and "joint_ok T tzero N tr s0" and "traced T N tr"
    and "\<And>w. tr (kw_env (snd (kcalloc w))) = tr (kw_env w)" and "sender_keys cc"
  shows "joint_ok T tzero N tr s"
  using assms(1,2)
proof (induction rule: joint_reach.induct)
  case (there s s')
  from there.hyps(2) there.IH [OF there.prems] show ?case
  proof cases
    case (call op dp w dp' w' p q)
    then show ?thesis
      using call_ok [OF assms(3,4) call(3,4,5)] there.IH [OF there.prems] by simp
  next
    case (idle w' w dp p q)
    then show ?thesis
      using there.IH [OF there.prems] wire_cong [OF idle(3)] by (simp add: joint_ok_def)
  next
    case (receive pkt q dp dp' w p)
    then show ?thesis using receive_ok [OF receive(3,4)] there.IH [OF there.prems] by simp
  next
    case (hear msg w p out p' dp q)
    then show ?thesis using hear_ok [of msg tr w hash cc p out p' T tzero N dp q] there.IH [OF there.prems] by simp
  next
    case (serve ev p out p' dp w q)
    then show ?thesis using serve_ok [OF assms(5) serve(3,4)] there.IH [OF there.prems] by simp
  qed
qed

section \<open>The controller keeps the kernel\<close>

text \<open>The callbacks of the three modules multicast nothing.\<close>

lemma modules_quiet:
  "dp_set_params dp = Some neo_set_params \<Longrightarrow> dp_fetch_measurements dp = Some neo_fetch_measurements \<Longrightarrow> quiet_callbacks tr dp"
  "dp_set_params dpv = Some vanilla_set_params \<Longrightarrow> dp_fetch_measurements dpv = None \<Longrightarrow> quiet_callbacks tr dpv"
  "dp_set_params dps = Some scubic_set_params \<Longrightarrow> dp_fetch_measurements dps = None \<Longrightarrow> quiet_callbacks tr dps"
proof -
  have env: "kw_env (sock_put w sk s) = kw_env w" for w :: "('ca, 'e) kworld" and sk s by (simp add: sock_put_def)
  show "dp_set_params dp = Some neo_set_params \<Longrightarrow> dp_fetch_measurements dp = Some neo_fetch_measurements \<Longrightarrow> quiet_callbacks tr dp"
    by (auto simp: quiet_callbacks_def neo_set_params_def neo_fetch_measurements_def rbind_eq_Inr Let_def env split: if_splits)
  show "dp_set_params dpv = Some vanilla_set_params \<Longrightarrow> dp_fetch_measurements dpv = None \<Longrightarrow> quiet_callbacks tr dpv"
    by (auto simp: quiet_callbacks_def vanilla_set_params_def rbind_eq_Inr Let_def env split: if_splits)
  show "dp_set_params dps = Some scubic_set_params \<Longrightarrow> dp_fetch_measurements dps = None \<Longrightarrow> quiet_callbacks tr dps"
    by (auto simp: quiet_callbacks_def scubic_set_params_def rbind_eq_Inr Let_def env split: if_splits)
qed


text \<open>A kernel that keeps the messages it multicasts, with one connection in use and announced.\<close>

type_synonym demo_log = "u64 \<times> u8 list list"

definition demo_log_time :: "(demo_log, int) time_api" where
  "demo_log_time = \<lparr>ktime_get_real_ts64 = (\<lambda>(t, l). (uint t, (t + 1000, l))), timespec64_sub = (\<lambda>a b. a - b),
     timespec64_add_ns = (\<lambda>a b. a + uint b), timespec64_to_ns = (\<lambda>a. word_of_int a)\<rparr>"

definition demo_log_nl :: "demo_log nl_api" where
  "demo_log_nl = \<lparr>nlmsg_new = (\<lambda>n e. (True, e)), nlmsg_multicast = (\<lambda>msg (t, l). (0, (t, msg # l)))\<rparr>"

definition demo_log_dp :: "(unit, demo_log) kworld spine_datapath" where
  "demo_log_dp = \<lparr>dp_set_params = Some (\<lambda>c ps n w. Inr w), dp_fetch_measurements = None,
     dp_send_msg = Some (kw_send demo_log_nl), dp_time_zero = 0, dp_now = Some (kw_now demo_log_time 0),
     dp_since_usecs = Some (kw_since demo_log_time 0), dp_after_usecs = Some (kw_after demo_log_time 0),
     dp_max_connections = 3, dp_connections = Some demo_table, dp_fto_us = 1000,
     dp_last_msg_sent = 0, dp_in_fallback = False\<rparr>"

definition demo_log_world :: "(unit, demo_log) kworld" where
  "demo_log_world = \<lparr>kw_socks = (\<lambda>_. None), kw_id = 0, kw_env = (5000, [create_packet (demo_used 0)])\<rparr>"

definition demo_trace :: "demo_log \<Rightarrow> u8 list set" where
  "demo_trace e = set (snd e)"

lemma demo_traced: "traced demo_log_time demo_log_nl demo_trace"
  by (auto simp: traced_def demo_log_time_def demo_log_nl_def demo_trace_def)

lemma demo_log_slots [simp]: "slots demo_log_dp = demo_table"
  by (simp add: slots_def demo_log_dp_def)

lemma demo_log_inv: "lib_inv demo_log_time 0 demo_log_nl demo_log_dp"
proof -
  have "dp_wf demo_log_dp" using demo_table_wf unfolding dp_wf_def demo_log_slots slots_demo
    by (simp add: demo_log_dp_def demo_dp_def demo_table_def)
  then show ?thesis by (simp add: lib_inv_def uses_env_def demo_log_dp_def)
qed

lemma demo_log_start:
  "\<exists>dp w. lib_step (\<lambda>w. (True, w)) True (Op_Start 4 demo_info) (demo_log_dp, demo_log_world) (dp, w) \<and> live_slot dp 1"
proof -
  note inv = lib_invD [OF demo_log_inv]
  have "first_free (slots demo_log_dp) 0 = Some 1"
    by (intro first_free_eq) (simp_all add: demo_table_def slot_free_def)
  moreover have "Suc 1 < length (slots demo_log_dp)" by (simp add: demo_table_def)
  moreover have info: "length (fi_congAlg demo_info) = MAX_CONG_ALG_SIZE" by (simp add: demo_info_def zero_info_def)
  ultimately obtain dp w where
    "spine_connection_start (\<lambda>w. (True, w)) demo_log_dp 4 demo_info demo_log_world = Inr (Some 1, dp, w)" "live_slot dp 1"
    using kernel_env.spine_connection_start_ok [where P = "\<lambda>_. True" and impl = 4 and
        kcalloc = "\<lambda>w. (True, w)" and w = demo_log_world, OF inv(3,1,2) _ _ refl TrueI] by blast
  with info show ?thesis by (blast intro: lib_step.start)
qed

text \<open>An environment registers, the controller hears the announcement in the log, the module starts a
  second connection.\<close>

lemma demo_joint_run:
  "\<exists>dp w p out p'. joint_reach (\<lambda>w. (True, w)) True demo_hash CC_Neo demo_trace
      (demo_log_dp, demo_log_world, process_start, {}) (dp, w, p', packets out) \<and>
    live_slot dp 1 \<and> Env_Fd 4 \<in> set (watched p) \<and>
    process_step demo_hash CC_Neo (From_Kernel (Some (create_packet (demo_used 0)))) p = (out, p')"
proof -
  let ?reach = "joint_reach (\<lambda>w. (True, w)) True demo_hash CC_Neo demo_trace (demo_log_dp, demo_log_world, process_start, {})"
  obtain p where serve: "process_step demo_hash CC_Neo (Accept 4 (Some (init_msg ''env''))) process_start = ([], p)"
    and p: "Env_Fd 4 \<in> set (watched p)"
    by (simp add: process_start_def accept_unix_conn_def init_msg_def)
  obtain dp w where call: "lib_step (\<lambda>w. (True, w)) True (Op_Start 4 demo_info) (demo_log_dp, demo_log_world) (dp, w)"
    and live: "live_slot dp 1"
    using demo_log_start by blast
  have log: "create_packet (demo_used 0) \<in> demo_trace (kw_env demo_log_world)"
    by (simp add: demo_trace_def demo_log_world_def)
  obtain out p' where hear: "process_step demo_hash CC_Neo (From_Kernel (Some (create_packet (demo_used 0)))) p = (out, p')"
    by fastforce
  have "?reach (demo_log_dp, demo_log_world, p, {} \<union> packets [])"
    by (rule joint_reach.there [OF joint_reach.here joint_step.serve [OF _ serve]]) (simp add: concerns_def)
  then have "?reach (demo_log_dp, demo_log_world, p', ({} \<union> packets []) \<union> packets out)"
    by (rule joint_reach.there) (rule joint_step.hear [where tr = demo_trace, OF log hear])
  then have "?reach (dp, w, p', ({} \<union> packets []) \<union> packets out)"
    by (rule joint_reach.there) (rule joint_step.call [OF call], simp_all)
  moreover have "({} \<union> packets []) \<union> packets out = packets out" by (simp add: packets_def)
  ultimately show ?thesis using hear live p by metis
qed


end
