(* ===== verification/Flow_Life.thy ===== *)
theory Flow_Life
  imports Flow_Module
begin

text \<open>
  The whole life of a module's flows: the TCP stack opens sockets (the \<open>init\<close> callback), drives
  the handlers of the open ones and closes them (the \<open>release\<close> callback), while packets of the
  controller arrive. \<open>scheduled\<close> is the discipline the stack keeps, a condition on the sequence of
  events alone; the locale \<open>flow_life\<close> is the contract of a module under which every disciplined
  sequence runs without a fault. Each module fulfils it in \<open>Module_Life\<close>.
\<close>

section \<open>Events and their effect\<close>

text \<open>
  An opening carries the module parameters in force, the socket's name and the socket with whatever
  its private area holds; the stack forgets a socket after its release.
\<close>

datatype ('p, 'ca, 'ev) flow_event =
    Flow_Open 'p nat "'ca ksock"
  | Flow_Close nat
  | Flow_Event 'ev

type_synonym ('ca, 'e) flow_state = "('ca, 'e) kworld spine_datapath \<times> ('ca, 'e) kworld"

definition forget_sock :: "nat \<Rightarrow> ('ca, 'e) kworld \<Rightarrow> ('ca, 'e) kworld" where
  "forget_sock sk w = w\<lparr>kw_socks := (kw_socks w)(sk := None)\<rparr>"

fun flow_step ::
  "('p \<Rightarrow> ('ca, 'e) kworld spine_datapath \<Rightarrow> nat \<Rightarrow> ('ca, 'e) kworld \<Rightarrow> ('ca, 'e) flow_state res) \<Rightarrow>
   (('ca, 'e) kworld spine_datapath \<Rightarrow> nat \<Rightarrow> ('ca, 'e) kworld \<Rightarrow> ('ca, 'e) flow_state res) \<Rightarrow>
   ('ev \<Rightarrow> ('ca, 'e) flow_state \<Rightarrow> ('ca, 'e) flow_state res) \<Rightarrow>
   ('p, 'ca, 'ev) flow_event \<Rightarrow> ('ca, 'e) flow_state \<Rightarrow> ('ca, 'e) flow_state res" where
  "flow_step init release step (Flow_Open p sk s) (dp, w) = init p dp sk (sock_put w sk s)"
| "flow_step init release step (Flow_Close sk) (dp, w) =
     rbind (release dp sk w) (\<lambda>(dp', w'). Inr (dp', forget_sock sk w'))"
| "flow_step init release step (Flow_Event e) (dp, w) = step e (dp, w)"

section \<open>The discipline of the stack\<close>

text \<open>
  With \<open>n\<close> slots in the table and the sockets \<open>opn\<close> open: a socket is opened once, with a state
  that \<open>fits\<close> the module and while fewer than \<open>n - 1\<close> are open; only open sockets are closed and
  handled.
\<close>

definition known :: "nat list \<Rightarrow> nat \<Rightarrow> nat option option" where
  "known opn = (\<lambda>sk. if sk \<in> set opn then Some None else None)"

fun opened :: "nat list \<Rightarrow> ('p, 'ca, 'ev) flow_event list \<Rightarrow> nat list" where
  "opened opn [] = opn"
| "opened opn (Flow_Open p sk s # es) = opened (sk # opn) es"
| "opened opn (Flow_Close sk # es) = opened (removeAll sk opn) es"
| "opened opn (Flow_Event e # es) = opened opn es"

fun scheduled ::
  "nat \<Rightarrow> ('ca ksock \<Rightarrow> bool) \<Rightarrow> ((nat \<Rightarrow> nat option option) \<Rightarrow> 'ev \<Rightarrow> bool) \<Rightarrow> nat list \<Rightarrow>
   ('p, 'ca, 'ev) flow_event list \<Rightarrow> bool" where
  "scheduled n fits allowed opn [] \<longleftrightarrow> True"
| "scheduled n fits allowed opn (Flow_Open p sk s # es) \<longleftrightarrow>
     sk \<notin> set opn \<and> fits s \<and> Suc (length opn) < n \<and> scheduled n fits allowed (sk # opn) es"
| "scheduled n fits allowed opn (Flow_Close sk # es) \<longleftrightarrow>
     sk \<in> set opn \<and> scheduled n fits allowed (removeAll sk opn) es"
| "scheduled n fits allowed opn (Flow_Event e # es) \<longleftrightarrow>
     allowed (known opn) e \<and> scheduled n fits allowed opn es"

section \<open>Room in the table\<close>

text \<open>
  Every numbered slot belongs to a socket of its own, so with fewer than \<open>n - 1\<close> sockets a slot
  before the last is free.
\<close>

lemma room_in_table:
  assumes ok: "flows_ok setp fetchm T tzero N C dp" and dom: "dom C \<subseteq> set opn"
    and few: "Suc (length opn) < length (slots dp)"
  obtains j where "Suc j < length (slots dp)" "conn_index (slots dp ! j) = 0"
    "\<forall>i < j. conn_index (slots dp ! i) \<noteq> 0"
proof -
  have "\<exists>j. Suc j < length (slots dp) \<and> conn_index (slots dp ! j) = 0"
  proof (rule ccontr)
    assume full: "\<nexists>j. Suc j < length (slots dp) \<and> conn_index (slots dp ! j) = 0"
    let ?I = "{i. Suc i < length (slots dp)}" and ?owner = "\<lambda>i. conn_impl (slots dp ! i)"
    have own: "C (?owner i) = Some (Some i)" if "i \<in> ?I" for i
      using that full flows_ok_owner [OF ok, of i] by auto
    have "inj_on ?owner ?I"
    proof (rule inj_onI)
      fix i k assume i: "i \<in> ?I" and k: "k \<in> ?I" and eq: "?owner i = ?owner k"
      from own [OF i] own [OF k] show "i = k" unfolding eq by simp
    qed
    moreover have "?owner ` ?I \<subseteq> set opn" using own dom by (auto simp: dom_def)
    ultimately have "card ?I \<le> card (set opn)" using card_inj_on_le [of ?owner ?I "set opn"] by simp
    moreover have "?I = {..<length (slots dp) - 1}" by auto
    ultimately show False using few card_length [of opn] by simp
  qed
  then obtain j where j: "Suc j < length (slots dp) \<and> conn_index (slots dp ! j) = 0"
    and least: "\<forall>i < j. \<not> (Suc i < length (slots dp) \<and> conn_index (slots dp ! i) = 0)"
    using exists_least_iff [of "\<lambda>j. Suc j < length (slots dp) \<and> conn_index (slots dp ! j) = 0"] by blast
  from j least have "\<forall>i < j. conn_index (slots dp ! i) \<noteq> 0" by simp
  with j that show thesis by blast
qed

text \<open>Table and sockets in step, with the open sockets \<open>opn\<close>, each with a connection.\<close>

definition in_step ::
  "('ca \<Rightarrow> nat option) \<Rightarrow> ('ca ksock \<Rightarrow> bool) \<Rightarrow> ('ca, 'e) kworld set_params_fn \<Rightarrow>
   ('ca, 'e) kworld fetch_fn option \<Rightarrow> ('e, 'ts) time_api \<Rightarrow> 'ts \<Rightarrow> 'e nl_api \<Rightarrow> nat \<Rightarrow> nat list \<Rightarrow>
   (nat \<Rightarrow> nat option option) \<Rightarrow> ('ca, 'e) flow_state \<Rightarrow> bool" where
  "in_step conn_of good setp fetchm T tzero N n opn C = (\<lambda>(dp, w).
     flows_ok setp fetchm T tzero N C dp \<and> socks_ok conn_of good C (kw_socks w) \<and>
     dom C = set opn \<and> None \<notin> ran C \<and> length (slots dp) = n)"

section \<open>The contract of a module\<close>

locale flow_life = flow_module conn_of good setp fetchm
  for conn_of :: "'ca \<Rightarrow> nat option" and good :: "'ca ksock \<Rightarrow> bool"
    and setp :: "('ca, 'e) kworld set_params_fn" and fetchm :: "('ca, 'e) kworld fetch_fn option" +
  fixes T :: "('e, 'ts) time_api" and tzero :: 'ts and N :: "'e nl_api"
    and init :: "'p \<Rightarrow> ('ca, 'e) kworld spine_datapath \<Rightarrow> nat \<Rightarrow> ('ca, 'e) kworld \<Rightarrow> ('ca, 'e) flow_state res"
    and release :: "('ca, 'e) kworld spine_datapath \<Rightarrow> nat \<Rightarrow> ('ca, 'e) kworld \<Rightarrow> ('ca, 'e) flow_state res"
    and step :: "'ev \<Rightarrow> ('ca, 'e) flow_state \<Rightarrow> ('ca, 'e) flow_state res"
    and fits :: "'ca ksock \<Rightarrow> bool"
    and allowed :: "(nat \<Rightarrow> nat option option) \<Rightarrow> 'ev \<Rightarrow> bool"
  assumes init_opens: "flows_ok setp fetchm T tzero N C dp \<Longrightarrow> socks_ok conn_of good C (kw_socks w) \<Longrightarrow>
      C sk = None \<Longrightarrow> fits s \<Longrightarrow> Suc j < length (slots dp) \<Longrightarrow> conn_index (slots dp ! j) = 0 \<Longrightarrow>
      \<forall>i < j. conn_index (slots dp ! i) \<noteq> 0 \<Longrightarrow>
      \<exists>dp' w'. init p dp sk (sock_put w sk s) = Inr (dp', w') \<and>
        flows_ok setp fetchm T tzero N (C(sk \<mapsto> Some j)) dp' \<and> length (slots dp') = length (slots dp) \<and>
        socks_ok conn_of good (C(sk \<mapsto> Some j)) (kw_socks w')"
    and release_closes: "flows_ok setp fetchm T tzero N C dp \<Longrightarrow> socks_ok conn_of good C (kw_socks w) \<Longrightarrow>
      C sk = Some (Some i) \<Longrightarrow>
      \<exists>dp' w'. release dp sk w = Inr (dp', w') \<and>
        flows_ok setp fetchm T tzero N (C(sk := None)) dp' \<and> length (slots dp') = length (slots dp) \<and>
        socks_ok conn_of good (C(sk := None)) ((kw_socks w')(sk := None))"
    and step_keeps: "flows_ok setp fetchm T tzero N C dp \<Longrightarrow> socks_ok conn_of good C (kw_socks w) \<Longrightarrow>
      allowed C e \<Longrightarrow>
      \<exists>dp' w'. step e (dp, w) = Inr (dp', w') \<and>
        flows_ok setp fetchm T tzero N C dp' \<and> length (slots dp') = length (slots dp) \<and>
        socks_ok conn_of good C (kw_socks w')"
    and allowed_dom: "dom C = dom C' \<Longrightarrow> allowed C e = allowed C' e"
begin

lemma open_in_step:
  assumes "in_step conn_of good setp fetchm T tzero N n opn C (dp, w)" and "sk \<notin> set opn" and "fits s" and "Suc (length opn) < n"
  shows "\<exists>s' C'. flow_step init release step (Flow_Open p sk s) (dp, w) = Inr s' \<and> in_step conn_of good setp fetchm T tzero N n (sk # opn) C' s'"
proof -
  have ok: "flows_ok setp fetchm T tzero N C dp" and w: "socks_ok conn_of good C (kw_socks w)"
    and dom: "dom C = set opn" and ran: "None \<notin> ran C" and n: "length (slots dp) = n"
    using assms(1) by (simp_all add: in_step_def)
  have sk: "C sk = None" using dom assms(2) by auto
  obtain j where j: "Suc j < length (slots dp)" "conn_index (slots dp ! j) = 0"
    "\<forall>i < j. conn_index (slots dp ! i) \<noteq> 0"
    using room_in_table [OF ok, of opn] dom n assms(4) by auto
  obtain dp' w' where "init p dp sk (sock_put w sk s) = Inr (dp', w')"
    and "flows_ok setp fetchm T tzero N (C(sk \<mapsto> Some j)) dp'" and "length (slots dp') = length (slots dp)"
    and "socks_ok conn_of good (C(sk \<mapsto> Some j)) (kw_socks w')"
    using init_opens [OF ok w sk assms(3) j, of p] by blast
  moreover have "dom (C(sk \<mapsto> Some j)) = set (sk # opn)" using dom by simp
  moreover have "None \<notin> ran (C(sk \<mapsto> Some j))" using ran sk by (simp add: ran_map_upd)
  ultimately show ?thesis using n by (intro exI [of _ "(dp', w')"] exI [of _ "C(sk \<mapsto> Some j)"]) (simp add: in_step_def)
qed

lemma close_in_step:
  assumes "in_step conn_of good setp fetchm T tzero N n opn C (dp, w)" and "sk \<in> set opn"
  shows "\<exists>s' C'. flow_step init release step (Flow_Close sk) (dp, w) = Inr s' \<and> in_step conn_of good setp fetchm T tzero N n (removeAll sk opn) C' s'"
proof -
  have ok: "flows_ok setp fetchm T tzero N C dp" and w: "socks_ok conn_of good C (kw_socks w)"
    and dom: "dom C = set opn" and ran: "None \<notin> ran C" and n: "length (slots dp) = n"
    using assms(1) by (simp_all add: in_step_def)
  obtain c where "C sk = Some c" using dom assms(2) by auto
  with ran obtain i where "C sk = Some (Some i)" by (cases c) (auto simp: ran_def)
  from release_closes [OF ok w this] obtain dp' w' where "release dp sk w = Inr (dp', w')"
    and "flows_ok setp fetchm T tzero N (C(sk := None)) dp'" and "length (slots dp') = length (slots dp)"
    and "socks_ok conn_of good (C(sk := None)) ((kw_socks w')(sk := None))" by blast
  moreover have "dom (C(sk := None)) = set (removeAll sk opn)" "None \<notin> ran (C(sk := None))"
    using dom ran by (auto simp: ran_def)
  ultimately show ?thesis using n
    by (intro exI [of _ "(dp', forget_sock sk w')"] exI [of _ "C(sk := None)"]) (simp add: in_step_def forget_sock_def)
qed

lemma event_in_step:
  assumes "in_step conn_of good setp fetchm T tzero N n opn C (dp, w)" and "allowed (known opn) e"
  shows "\<exists>s' C'. flow_step init release step (Flow_Event e) (dp, w) = Inr s' \<and> in_step conn_of good setp fetchm T tzero N n opn C' s'"
proof -
  have ok: "flows_ok setp fetchm T tzero N C dp" and w: "socks_ok conn_of good C (kw_socks w)"
    and dom: "dom C = set opn" and ran: "None \<notin> ran C" and n: "length (slots dp) = n"
    using assms(1) by (simp_all add: in_step_def)
  have "dom (known opn) = set opn" by (auto simp: known_def split: if_splits)
  then have "allowed C e" using assms(2) allowed_dom [of C "known opn"] dom by simp
  from step_keeps [OF ok w this] obtain dp' w' where "step e (dp, w) = Inr (dp', w')"
    "flows_ok setp fetchm T tzero N C dp'" "length (slots dp') = length (slots dp)"
    "socks_ok conn_of good C (kw_socks w')" by blast
  with dom ran n show ?thesis by (intro exI [of _ "(dp', w')"] exI [of _ C]) (simp add: in_step_def)
qed

text \<open>Every disciplined sequence of events runs, and leaves table and sockets in step.\<close>

lemma life_run:
  "in_step conn_of good setp fetchm T tzero N n opn C s \<Longrightarrow> scheduled n fits allowed opn es \<Longrightarrow>
   \<exists>s' C'. run (flow_step init release step) es s = Inr s' \<and> in_step conn_of good setp fetchm T tzero N n (opened opn es) C' s'"
proof (induction es arbitrary: opn C s)
  case Nil
  then show ?case by auto
next
  case (Cons e es)
  obtain dp w where s: "s = (dp, w)" by (cases s)
  have "\<exists>s' C' opn'. flow_step init release step e (dp, w) = Inr s' \<and> in_step conn_of good setp fetchm T tzero N n opn' C' s' \<and>
      scheduled n fits allowed opn' es \<and> opened opn (e # es) = opened opn' es"
  proof (cases e)
    case (Flow_Open p sk t)
    with Cons.prems open_in_step [of n opn C dp w sk t p] show ?thesis
      unfolding s Flow_Open scheduled.simps opened.simps by blast
  next
    case (Flow_Close sk)
    with Cons.prems close_in_step [of n opn C dp w sk] show ?thesis
      unfolding s Flow_Close scheduled.simps opened.simps by blast
  next
    case (Flow_Event ev)
    with Cons.prems event_in_step [of n opn C dp w ev] show ?thesis
      unfolding s Flow_Event scheduled.simps opened.simps by blast
  qed
  then obtain s' C' opn' where "flow_step init release step e s = Inr s'" "in_step conn_of good setp fetchm T tzero N n opn' C' s'"
    "scheduled n fits allowed opn' es" "opened opn (e # es) = opened opn' es" unfolding s by blast
  with Cons.IH [of opn' C' s'] show ?case by simp
qed

end

end
