(* ===== verification/Module_Load.thy ===== *)
theory Module_Load
  imports Neo_Module Vanilla_Module Scubic_Module
begin

text \<open>
  Loading and unloading of the three modules: the \<open>_register\<close> and \<open>_unregister\<close> functions of
  tcp_neo.c, tcp_vanilla.c and tcp_scubic.c. They differ in the callbacks they install, and in that
  only tcp_neo.c sets the fetch callback of the block \<open>kmalloc\<close> returned, whose contents are
  arbitrary.
\<close>

section \<open>State and what the kernel answers\<close>

definition MAX_ACTIVE_FLOWS :: nat where [c_consts]: "MAX_ACTIVE_FLOWS = 1024"

text \<open>
  The globals: the pointer \<open>kernel_datapath\<close>, the netlink state, whether the table behind the
  datapath has been freed, and whether the module's operations are known to the TCP stack.
\<close>

record 'w module_state =
  kernel_datapath :: "'w spine_datapath kptr"
  module_nl :: "'w nl_state"
  table_freed :: bool
  ops_registered :: bool

text \<open>The block of \<open>kmalloc\<close> with its old contents, and the answers of the other calls.\<close>

record 'w load_answers =
  kmalloc_block :: "'w spine_datapath option"
  kzalloc_table :: bool
  nl_create_ok :: bool
  tcp_register_ret :: int

section \<open>Loading\<close>

text \<open>The fields every module sets before the table is allocated, and the table.\<close>

definition datapath_basics ::
  "('e, 'ts) time_api \<Rightarrow> 'ts \<Rightarrow> ('ca, 'e) kworld spine_datapath \<Rightarrow> bool \<Rightarrow> ('ca, 'e) kworld spine_datapath" where
  "datapath_basics T tzero block table =
     block\<lparr>dp_now := Some (kw_now T tzero), dp_since_usecs := Some (kw_since T tzero),
       dp_after_usecs := Some (kw_after T tzero), dp_fto_us := 1000,
       dp_max_connections := word_of_nat MAX_ACTIVE_FLOWS,
       dp_connections := if table then Some (replicate MAX_ACTIVE_FLOWS zero_connection) else None\<rparr>"

text \<open>
  The common body: \<open>install\<close> sets the callbacks of the module. A failure returns at once; only
  the failure of \<open>spine_init\<close> releases anything.
\<close>

definition register_module ::
  "('e, 'ts) time_api \<Rightarrow> bool \<Rightarrow> (('ca, 'e) kworld spine_datapath \<Rightarrow> ('ca, 'e) kworld spine_datapath) \<Rightarrow>
   ('ca, 'e) kworld load_answers \<Rightarrow> ('ca, 'e) kworld module_state \<Rightarrow> ('ca, 'e) kworld \<Rightarrow>
   (int \<times> 'ts \<times> ('ca, 'e) kworld module_state \<times> ('ca, 'e) kworld) res" where
  "register_module T cs install L m w =
     (let (tzero, e1) = ktime_get_real_ts64 T (kw_env w); w1 = w\<lparr>kw_env := e1\<rparr> in
      case kmalloc_block L of
        None \<Rightarrow> Inr (-1, tzero, m\<lparr>kernel_datapath := KNull\<rparr>, w1)
      | Some block \<Rightarrow>
          let dp1 = datapath_basics T tzero block (kzalloc_table L);
              m1 = m\<lparr>kernel_datapath := KLive dp1, table_freed := False\<rparr> in
          if \<not> kzalloc_table L then Inr (-2, tzero, m1, w1)
          else let dp2 = install dp1;
                   (ret, nl) = spine_nl_sk (nl_create_ok L) (spine_read_msg cs) (module_nl m1);
                   m2 = m1\<lparr>kernel_datapath := KLive dp2, module_nl := nl\<rparr> in
            if ret < 0 then Inr (-3, tzero, m2, w1)
            else rbind (spine_init (Some dp2) 0 w1) (\<lambda>(ret, dp3, w2).
              rbind (deref dp3) (\<lambda>dp.
                let m3 = m2\<lparr>kernel_datapath := KLive dp\<rparr> in
                if ret < 0 then Inr (-4, tzero, m3\<lparr>module_nl := free_spine_nl_sk (module_nl m3)\<rparr>, w2)
                else Inr (tcp_register_ret L, tzero, m3\<lparr>ops_registered := tcp_register_ret L = 0\<rparr>, w2))))"

definition neo_register where
  "neo_register T N cs = register_module T cs (\<lambda>dp. dp\<lparr>dp_set_params := Some neo_set_params,
     dp_fetch_measurements := Some neo_fetch_measurements, dp_send_msg := Some (kw_send N)\<rparr>)"

definition vanilla_register where
  "vanilla_register T N cs = register_module T cs (\<lambda>dp. dp\<lparr>dp_set_params := Some vanilla_set_params,
     dp_send_msg := Some (kw_send N)\<rparr>)"

definition cubictcp_register where
  "cubictcp_register T N cs = register_module T cs (\<lambda>dp. dp\<lparr>dp_set_params := Some scubic_set_params,
     dp_send_msg := Some (kw_send N)\<rparr>)"

section \<open>Unloading\<close>

text \<open>The four calls of an \<open>_unregister\<close> function, in its order.\<close>

datatype unload_call = Release_Socket | Free_Table | Free_Datapath | Unregister_Ops

fun unload_step :: "unload_call \<Rightarrow> 'w module_state \<Rightarrow> 'w module_state res" where
  "unload_step Release_Socket m = Inr (m\<lparr>module_nl := free_spine_nl_sk (module_nl m)\<rparr>)"
| "unload_step Free_Table m = rbind (kptr_deref (kernel_datapath m)) (\<lambda>dp.
     if table_freed m then Inl Use_After_Free else Inr (m\<lparr>table_freed := dp_connections dp \<noteq> None\<rparr>))"
| "unload_step Free_Datapath m = rbind (kfree (kernel_datapath m)) (\<lambda>p. Inr (m\<lparr>kernel_datapath := p\<rparr>))"
| "unload_step Unregister_Ops m = Inr (m\<lparr>ops_registered := False\<rparr>)"

definition unload_order :: "unload_call list" where
  "unload_order = [Release_Socket, Free_Table, Free_Datapath, Unregister_Ops]"

definition neo_unregister :: "'e neo_world module_state \<Rightarrow> 'e neo_world module_state res" where
  "neo_unregister = run unload_step unload_order"

definition vanilla_unregister :: "'e vanilla_world module_state \<Rightarrow> 'e vanilla_world module_state res" where
  "vanilla_unregister = run unload_step unload_order"

definition cubictcp_unregister :: "'e scubic_world module_state \<Rightarrow> 'e scubic_world module_state res" where
  "cubictcp_unregister = run unload_step unload_order"

section \<open>Lemmas\<close>

text \<open>The state a successful load leaves, for any module that installs its setter and the transport.\<close>

definition loaded_dp ::
  "('e, 'ts) time_api \<Rightarrow> 'ts \<Rightarrow> 'e nl_api \<Rightarrow> ('ca, 'e) kworld set_params_fn \<Rightarrow>
   ('ca, 'e) kworld fetch_fn option \<Rightarrow> u64 \<Rightarrow> ('ca, 'e) kworld spine_datapath" where
  "loaded_dp T tzero N setp fetchm t =
     \<lparr>dp_set_params = Some setp, dp_fetch_measurements = fetchm, dp_send_msg = Some (kw_send N),
      dp_time_zero = t, dp_now = Some (kw_now T tzero), dp_since_usecs = Some (kw_since T tzero),
      dp_after_usecs = Some (kw_after T tzero), dp_max_connections = word_of_nat MAX_ACTIVE_FLOWS,
      dp_connections = Some (replicate MAX_ACTIVE_FLOWS zero_connection), dp_fto_us = 1000,
      dp_last_msg_sent = 0, dp_in_fallback = False\<rparr>"

lemma slots_loaded [simp]: "slots (loaded_dp T tz N setp fetchm t) = replicate MAX_ACTIVE_FLOWS zero_connection"
  by (simp add: slots_def loaded_dp_def)

text \<open>A freshly loaded module satisfies the invariant of \<open>Flow_Module\<close> without any flow.\<close>

lemma flows_ok_loaded:
  "flows_ok setp fetchm T tzero N (\<lambda>_. None) (loaded_dp T tzero N setp fetchm t)"
proof -
  have "conn_wf i zero_connection" for i by (simp add: conn_wf_def zero_connection_def zero_info_def)
  moreover have "unat (word_of_nat MAX_ACTIVE_FLOWS :: u64) = MAX_ACTIVE_FLOWS"
    by (rule unat_word_of_nat_small) (simp add: MAX_ACTIVE_FLOWS_def)
  ultimately have "dp_wf (loaded_dp T tzero N setp fetchm t)"
    unfolding dp_wf_def slots_loaded by (simp add: loaded_dp_def)
  then show ?thesis
    unfolding flows_ok_def slots_loaded
    by (simp add: uses_env_def uses_cc_def) (simp add: loaded_dp_def MAX_ACTIVE_FLOWS_def)
qed

lemma datapath_basics_conns [simp]:
  "dp_connections (datapath_basics T tz block table) =
     (if table then Some (replicate MAX_ACTIVE_FLOWS zero_connection) else None)"
  by (simp add: datapath_basics_def)

text \<open>\<open>spine_init\<close> on the datapath a module builds: it always succeeds.\<close>

lemma spine_init_loaded:
  assumes "dp = (datapath_basics T tz block True)\<lparr>dp_set_params := Some setp,
    dp_fetch_measurements := fetchm, dp_send_msg := Some (kw_send N)\<rparr>"
  shows "\<exists>t w'. spine_init (Some dp) 0 w = Inr (SPINE_OK, Some (loaded_dp T tz N setp fetchm t), w') \<and>
    kw_socks w' = kw_socks w"
proof -
  have "word_of_nat MAX_ACTIVE_FLOWS \<noteq> (0 :: u64)" by (simp add: MAX_ACTIVE_FLOWS_def)
  then have arg: "\<not> spine_missing_arg dp"
    by (simp add: assms spine_missing_arg_def) (simp add: datapath_basics_def)
  obtain r msg where ready: "write_ready_msg (replicate READY_MSG_SIZE 0) (int READY_MSG_SIZE) 0 = Inr (r, msg)"
      "0 \<le> r" "length msg = READY_MSG_SIZE"
    using write_ready_msg_ok [of "replicate READY_MSG_SIZE 0" 0] by (auto simp: READY_MSG_SIZE_def)
  have "\<exists>r2 w2. kw_send N msg (int READY_MSG_SIZE) w = Inr (r2, w2) \<and> kw_socks w2 = kw_socks w"
    by (rule kernel_env.send_ok [where P = "\<lambda>s. s = kw_socks w"]) (simp_all add: ready(3))
  then obtain r2 w2 where sent: "kw_send N msg (int READY_MSG_SIZE) w = Inr (r2, w2)"
    and s2: "kw_socks w2 = kw_socks w" by blast
  obtain t w3 where now: "kw_now T tz w2 = (t, w3)" by fastforce
  then have s3: "kw_socks w3 = kw_socks w2"
    using kernel_env.now_ok [where P = "\<lambda>s. s = kw_socks w2" and w = w2] by auto
  have "dp_send_msg dp = Some (kw_send N)" "dp_now dp = Some (kw_now T tz)"
    by (simp_all add: assms datapath_basics_def)
  with arg ready sent now have "spine_init (Some dp) 0 w =
      Inr (SPINE_OK, Some (dp\<lparr>dp_time_zero := t, dp_last_msg_sent := 0, dp_in_fallback := False\<rparr>), w3)"
    by (simp add: spine_init_def)
  moreover have "dp\<lparr>dp_time_zero := t, dp_last_msg_sent := 0, dp_in_fallback := False\<rparr> = loaded_dp T tz N setp fetchm t"
    by (simp add: assms loaded_dp_def datapath_basics_def)
  ultimately show ?thesis using s2 s3 by auto
qed

text \<open>A load to which the kernel answers yes.\<close>

lemma register_module_ok:
  fixes m :: "('ca, 'e) kworld module_state"
  assumes L: "kmalloc_block L = Some block" "kzalloc_table L" "nl_create_ok L"
    and install: "\<And>dp. install dp = dp\<lparr>dp_set_params := Some setp, dp_fetch_measurements := F dp,
      dp_send_msg := Some (kw_send N)\<rparr>"
  shows "\<exists>tz t w'. register_module T cs install L m w = Inr (tcp_register_ret L, tz,
      m\<lparr>kernel_datapath := KLive (loaded_dp T tz N setp (F (datapath_basics T tz block True)) t),
        module_nl := (module_nl m)\<lparr>nl_reader := Some (spine_read_msg cs), nl_sk := True\<rparr>, table_freed := False,
        ops_registered := tcp_register_ret L = 0\<rparr>, w') \<and> kw_socks w' = kw_socks w"
proof -
  obtain tz e1 where tz: "ktime_get_real_ts64 T (kw_env w) = (tz, e1)" by fastforce
  let ?dp = "(datapath_basics T tz block True)\<lparr>dp_set_params := Some setp,
    dp_fetch_measurements := F (datapath_basics T tz block True), dp_send_msg := Some (kw_send N)\<rparr>"
  obtain t w' where init: "spine_init (Some ?dp) 0 (w\<lparr>kw_env := e1\<rparr>) = Inr (SPINE_OK,
      Some (loaded_dp T tz N setp (F (datapath_basics T tz block True)) t), w')" and w': "kw_socks w' = kw_socks w"
    using spine_init_loaded [where dp = ?dp and T = T and tz = tz and block = block and setp = setp
      and fetchm = "F (datapath_basics T tz block True)" and N = N and w = "w\<lparr>kw_env := e1\<rparr>"]
    by auto
  have "register_module T cs install L m w = Inr (tcp_register_ret L, tz,
      m\<lparr>kernel_datapath := KLive (loaded_dp T tz N setp (F (datapath_basics T tz block True)) t),
        module_nl := (module_nl m)\<lparr>nl_reader := Some (spine_read_msg cs), nl_sk := True\<rparr>, table_freed := False,
        ops_registered := tcp_register_ret L = 0\<rparr>, w')"
    using L tz init by (simp add: register_module_def install spine_nl_sk_def Let_def SPINE_OK_def)
  with w' show ?thesis by blast
qed

text \<open>The two window-based modules install no fetch callback: the one of the block stays.\<close>

lemma loaded_fetch [simp]: "dp_fetch_measurements (loaded_dp T tz N setp f t) = f"
  by (simp add: loaded_dp_def)

lemma register_window_module:
  fixes m :: "('ca, 'e) kworld module_state"
  assumes "kmalloc_block L = Some block" and "kzalloc_table L" and "nl_create_ok L"
  shows "\<exists>tz t m' w'. register_module T cs
      (\<lambda>dp. dp\<lparr>dp_set_params := Some setp, dp_send_msg := Some (kw_send N)\<rparr>) L m w =
      Inr (tcp_register_ret L, tz, m', w') \<and>
    kernel_datapath m' = KLive (loaded_dp T tz N setp (dp_fetch_measurements block) t) \<and>
    \<not> table_freed m' \<and> kw_socks w' = kw_socks w"
proof -
  let ?F = "\<lambda>dp :: ('ca, 'e) kworld spine_datapath. dp_fetch_measurements dp"
  have "dp\<lparr>dp_set_params := Some setp, dp_send_msg := Some (kw_send N)\<rparr> =
      dp\<lparr>dp_set_params := Some setp, dp_fetch_measurements := ?F dp, dp_send_msg := Some (kw_send N)\<rparr>"
    for dp :: "('ca, 'e) kworld spine_datapath" by simp
  note reg = register_module_ok [where F = ?F and T = T and cs = cs and m = m and w = w, OF assms this]
  have "?F (datapath_basics T tz block True) = dp_fetch_measurements block" for tz
    by (simp add: datapath_basics_def)
  from reg [unfolded this] show ?thesis by (elim exE conjE) (rule exI, rule exI, rule exI, rule exI, intro conjI, assumption, simp_all)
qed

end
