(* ===== verification/Scubic_Properties.thy ===== *)
theory Scubic_Properties
  imports Scubic_Module Command
begin

text \<open>The properties of tcp_scubic.c, each with a concrete input.\<close>

section \<open>Concrete inputs\<close>

fun bit_length :: "nat \<Rightarrow> nat" where
  "bit_length n = (if n = 0 then 0 else Suc (bit_length (n div 2)))"

declare bit_length.simps [simp del]

lemma bit_length_bounds: "0 < n \<Longrightarrow> 1 \<le> bit_length n \<and> 2 ^ (bit_length n - 1) \<le> n \<and> n < 2 ^ bit_length n"
proof (induction n rule: bit_length.induct)
  case (1 n)
  show ?case
  proof (cases "n = 1")
    case True
    then show ?thesis by (simp add: bit_length.simps)
  next
    case False
    with 1 have IH: "1 \<le> bit_length (n div 2)" "2 ^ (bit_length (n div 2) - 1) \<le> n div 2"
      "n div 2 < 2 ^ bit_length (n div 2)" by simp_all
    have "2 * 2 ^ (bit_length (n div 2) - 1) = (2::nat) ^ bit_length (n div 2)"
      using IH(1) by (metis power_eq_if not_one_le_zero)
    with IH(2,3) have "2 ^ bit_length (n div 2) \<le> n" "n < 2 * 2 ^ bit_length (n div 2)" by linarith+
    then show ?thesis using 1(2) by (simp add: bit_length.simps [of n])
  qed
qed

definition demo_clock :: "u64 clock_api" where
  "demo_clock = \<lparr>tcp_jiffies32 = (\<lambda>e. (ucast e, e + 1)), ktime_real_ms = (\<lambda>e. (ucast e, e + 1)),
     jiffies_ms = (\<lambda>e. (ucast e, e + 1)), msecs_to_jiffies = (\<lambda>m. ucast m),
     fls64 = (\<lambda>a. word_of_nat (bit_length (unat a))), kernel_HZ = 1000\<rparr>"

lemma demo_clock_ok: "clock_ok demo_clock"
proof -
  have "fls_spec (\<lambda>a. word_of_nat (bit_length (unat a)))"
    unfolding fls_spec_def
  proof (intro conjI allI impI)
    show "word_of_nat (bit_length (unat (0 :: u64))) = 0" by (simp add: bit_length.simps)
    fix a :: u64 assume "a \<noteq> 0"
    then have b: "1 \<le> bit_length (unat a)" "2 ^ (bit_length (unat a) - 1) \<le> unat a" "unat a < 2 ^ bit_length (unat a)"
      using bit_length_bounds [of "unat a"] by (simp_all add: unat_gt_0)
    have "unat a < 2 ^ 64" using unsigned_less [of a] by simp
    with b(2) have "(2::nat) ^ (bit_length (unat a) - 1) < 2 ^ 64" by linarith
    then have "bit_length (unat a) - 1 < 64" by (rule power_less_imp_less_exp [rotated]) simp
    then have le: "bit_length (unat a) \<le> 64" by simp
    then have u: "unat (word_of_nat (bit_length (unat a)) :: u32) = bit_length (unat a)"
      by (intro unat_word_of_nat_small) simp
    show "1 \<le> unat (word_of_nat (bit_length (unat a)) :: u32)"
      "unat (word_of_nat (bit_length (unat a)) :: u32) \<le> 64"
      "2 ^ (unat (word_of_nat (bit_length (unat a)) :: u32) - 1) \<le> unat a"
      "unat a < 2 ^ unat (word_of_nat (bit_length (unat a)) :: u32)"
      using b le unfolding u by simp_all
  qed
  then show ?thesis by (simp add: clock_ok_def demo_clock_def)
qed

definition demo_stack :: tcp_api where
  "demo_stack = demo_tcp\<lparr>tcp_in_slow_start := \<lambda>tp. False, tcp_slow_start := \<lambda>tp acked. (0, tp)\<rparr>"

lemma demo_stack_laws: "tcp_laws demo_stack"
  by (simp add: tcp_laws_def demo_stack_def demo_tcp_def Let_def)

definition demo_config :: scubic_config where
  "demo_config = \<lparr>fast_convergence = 1, initial_ssthresh = 0, tcp_friendliness = 1, cfg_hystart = 1,
     hystart_detect = 3, hystart_low_window = 16, hystart_ack_delta = 2\<rparr>"

definition demo_bictcp :: bictcp where
  "demo_bictcp = \<lparr>bt_cnt = 0, last_max_cwnd = 20, last_cwnd = 0, last_time = 0, bic_origin_point = 0,
     bic_K = 0, delay_min = 80, epoch_start = 0, ack_cnt = 0, tcp_cwnd = 0, bt_unused = 0,
     sample_cnt = 0, bt_found = 0, round_start = 0, end_seq = 0, last_ack = 0, curr_rtt = 0,
     bt_beta = 717, bic_scale = 41, cube_rtt_scale = 410, beta_scale = 15, cube_factor = 2681735677,
     bt_conn = Some 0\<rparr>"

definition demo_clamped :: tcp_sock where
  "demo_clamped = demo_sock\<lparr>snd_cwnd_clamp := 1000\<rparr>"

lemma demo_bictcp_ok: "scubic_sock_ok \<lparr>sk_tp = demo_clamped, sk_ca = demo_bictcp\<rparr>"
  by (simp add: scubic_sock_ok_def scubic_params_ok_def scubic_cnt_ok_def window_ok_def beta_scale_of_def
      demo_bictcp_def demo_clamped_def demo_sock_def)

definition demo_sc_conn :: spine_connection where
  "demo_sc_conn = (demo_used 0)\<lparr>flow_info := zero_info\<lparr>fi_alg := SPINE_CUBIC\<rparr>,
     conn_state := PLive \<lparr>sent_create = True, pending_update = zero_update\<rparr>\<rparr>"

definition demo_sc_dp :: "u64 scubic_world spine_datapath" where
  "demo_sc_dp = \<lparr>dp_set_params = Some scubic_set_params, dp_fetch_measurements = None,
     dp_send_msg = Some (kw_send demo_nl), dp_time_zero = 0, dp_now = Some (kw_now demo_time 0),
     dp_since_usecs = Some (kw_since demo_time 0), dp_after_usecs = Some (kw_after demo_time 0),
     dp_max_connections = 2, dp_connections = Some [demo_sc_conn, zero_connection], dp_fto_us = 1000,
     dp_last_msg_sent = 0, dp_in_fallback = False\<rparr>"

definition demo_sc_world :: "u64 scubic_world" where
  "demo_sc_world = \<lparr>kw_socks = [0 \<mapsto> \<lparr>sk_tp = demo_clamped, sk_ca = demo_bictcp\<rparr>], kw_id = 0, kw_env = 5000\<rparr>"

lemma demo_sc_ok: "scubic_ok demo_time 0 demo_nl [0 \<mapsto> Some 0] (demo_sc_dp, demo_sc_world)"
proof -
  have sl: "slots demo_sc_dp = [demo_sc_conn, zero_connection]"
    by (simp add: slots_def demo_sc_dp_def)
  have "conn_wf 0 demo_sc_conn"
    unfolding demo_sc_conn_def using conn_wf_demo_used [of 0] by (simp add: conn_wf_def zero_info_def)
  then have "dp_wf demo_sc_dp"
    unfolding dp_wf_def sl by (simp add: demo_sc_dp_def less_Suc_eq)
  moreover have "scubic_good [0 \<mapsto> Some 0] (kw_socks demo_sc_world)"
    using demo_bictcp_ok by (auto simp: socks_ok_def demo_sc_world_def) (simp add: demo_bictcp_def)
  ultimately show ?thesis
    by (auto simp: scubic_ok_def flows_ok_def sl uses_env_def uses_cc_def live_slot_def less_Suc_eq
        demo_sc_conn_def) (simp_all add: demo_sc_dp_def)
qed

section \<open>Properties\<close>

text \<open>Established scubic flows never fault and never hang: for a window between 4 segments and a
  clamp of at most 2^19, whatever commands the controller sends, whatever acknowledgements, samples,
  losses and idle periods the stack reports, in any order, whatever the clocks read and however the
  administrator changes the module parameters in between, every handler returns (no division by
  zero, no index past the cube-root table, no endless friendliness loop) and every flow keeps
  valid parameters with the scale factors computed from them.\<close>

theorem scubic_flows_never_fault:
  fixes T :: "('e, 'ts) time_api"
  assumes "tcp_laws K" and "clock_ok J"
    and "scubic_ok T tzero N C (dp, w)" and "list_all (scubic_allowed C) es"
  shows "\<exists>dp' w'. run (scubic_step K J char_signed) es (dp, w) = Inr (dp', w') \<and>
    scubic_ok T tzero N C (dp', w') \<and>
    (\<forall>sk s. kw_socks w' sk = Some s \<longrightarrow> scubic_params_ok (sk_ca s) \<and> window_ok (sk_tp s))"
proof -
  have "tcp_laws K \<and> clock_ok J \<and> scubic_ok T tzero N C (dp, w)" using assms by simp
  from scubic_machine.run_safe [OF this assms(4), of char_signed] show ?thesis
    by (auto simp: scubic_ok_def socks_ok_def scubic_sock_ok_def)
qed

theorem scubic_flows_never_fault_witness:
  "\<exists>dp' w'. run (scubic_step demo_stack demo_clock True)
      [(demo_config, Sc_Sample 0 \<lparr>as_rtt_us = 9000\<rparr>), (demo_config, Sc_Ack 0 1 2),
       (demo_config, Sc_State 0 TCP_CA_Loss), (demo_config, Sc_Ack 0 2 1)]
      (demo_sc_dp, demo_sc_world) = Inr (dp', w') \<and>
    scubic_ok demo_time 0 demo_nl [0 \<mapsto> Some 0] (dp', w') \<and>
    (\<forall>sk s. kw_socks w' sk = Some s \<longrightarrow> scubic_params_ok (sk_ca s) \<and> window_ok (sk_tp s))"
  by (rule scubic_flows_never_fault [OF demo_stack_laws demo_clock_ok demo_sc_ok]) simp

text \<open>C24: The friendliness loop in closed form: with a positive step delta it runs (acks - 1) div delta
  times, adds that to the estimated window and leaves between 1 and delta acknowledgements; with
  nothing to count it does nothing, and with a step of 0 it never ends.\<close>

theorem friendly_loop_closed_form:
  "friendly_loop delta acks cwnd =
    (if acks = 0 then Inr (0, cwnd)
     else if delta = 0 then Inl Diverges
     else Inr (word_of_nat ((unat acks - 1) mod unat delta + 1),
               cwnd + word_of_nat ((unat acks - 1) div unat delta)))"
proof (cases "acks = 0 \<or> delta = 0")
  case True
  then show ?thesis by (auto simp: friendly_loop_none friendly_loop_diverges word_gt_0)
next
  case False
  define k where "k = (unat acks - 1) div unat delta"
  have "1 \<le> unat acks" using False by (simp add: unat_gt_0 Suc_le_eq)
  then have "unat acks = k * unat delta + ((unat acks - 1) mod unat delta + 1)"
    using div_mult_mod_eq [of "unat acks - 1" "unat delta"] by (simp add: k_def)
  from arg_cong [OF this, of "word_of_nat :: nat \<Rightarrow> u32"]
  have "acks - word_of_nat k * delta = word_of_nat ((unat acks - 1) mod unat delta + 1)"
    by (simp add: algebra_simps)
  moreover have "friendly_while delta (acks, cwnd) = Some (acks - word_of_nat k * delta, cwnd + word_of_nat k)"
    using False by (simp add: friendly_while_eq friendly_steps_def k_def)
  ultimately have "friendly_loop delta acks cwnd =
      Inr (word_of_nat ((unat acks - 1) mod unat delta + 1), cwnd + word_of_nat k)"
    by (simp only: friendly_loop_def option.simps)
  with False show ?thesis by (simp only: k_def) simp
qed

text \<open>C25: A command the module accepts can hang the kernel: with a decrease factor of at most 60 / 1024
  and a window of at most three segments the step of the friendliness loop is 0, so the first
  acknowledgement of an epoch never returns from the window computation.\<close>

theorem scubic_small_beta_hangs:
  assumes "1 \<le> unat p0" and "unat p0 < 1024" and "1 \<le> unat p1" and "unat p1 \<le> 60"
    and "clock_ok J" and "tcp_friendliness P \<noteq> 0" and "unat cwnd \<le> 3" and "acked \<noteq> 0"
    and "epoch_start ca = 0" and "last_cwnd ca \<noteq> cwnd"
  shows "rbind (bictcp_update_params (ca\<lparr>bic_scale := ucast (p0 :: u64), bt_beta := ucast (p1 :: u64)\<rparr>))
    (\<lambda>ca'. bictcp_update J P ca' cwnd acked e) = Inl Diverges"
proof -
  have "valid_pair [p0, p1]" using assms(1-4) by (simp add: valid_pair_def word_less_nat_alt)
  from update_params_valid(1) [OF this, of ca]
  have upd: "bictcp_update_params (ca\<lparr>bic_scale := ucast p0, bt_beta := ucast p1\<rparr>) = Inr (scubic_with [p0, p1] ca)"
    by simp
  let ?ca = "scubic_with [p0, p1] ca"
  define n where "n = unat p1"
  have "beta_scale_of n \<le> 2"
  proof -
    have "8 * (1024 + n) div 3 \<le> 8 * (1024 + 60) div 3" using assms(4) by (intro div_le_mono) (simp add: n_def)
    also have "\<dots> < 3 * (1024 - n)" using assms(4) by (simp add: n_def)
    finally have "8 * (1024 + n) div 3 < 3 * (1024 - n)" .
    then have "8 * (1024 + n) div 3 div (1024 - n) < 3"
      using assms(4) by (subst div_less_iff_less_mult) (simp_all add: n_def)
    then show ?thesis by (simp add: beta_scale_of_def)
  qed
  then have "unat (beta_scale ?ca) \<le> 2"
    by (simp add: scubic_with_def n_def unat_word_of_nat_small)
  then have "unat cwnd * unat (beta_scale ?ca) \<le> 3 * 2" using assms(7) by (rule mult_le_mono [rotated])
  then have prod: "unat (cwnd * beta_scale ?ca) < 8" by (subst unat_mult_exact) simp_all
  then have delta: "drop_bit 3 (cwnd * beta_scale ?ca) = 0"
    by (simp add: word_unat_eq_iff drop_bit_eq_div unat_div)
  have fields: "epoch_start ?ca = 0" "last_cwnd ?ca \<noteq> cwnd" using assms(9,10) by (simp_all add: scubic_with_def)
  have hz: "kernel_HZ J \<noteq> 0" and fls: "fls_spec (fls64 J)" using assms(5) by (simp_all add: clock_ok_def)
  obtain ca2 e2 where rec: "bictcp_recompute J (?ca\<lparr>ack_cnt := ack_cnt ?ca + acked\<rparr>) cwnd acked e = Inr (ca2, e2)"
    and ca2: "ack_cnt ca2 = acked" "beta_scale ca2 = beta_scale ?ca"
    using recompute_new_epoch [OF assms(5), of "?ca\<lparr>ack_cnt := ack_cnt ?ca + acked\<rparr>" cwnd acked e] fields(1)
    by auto
  have "bictcp_friendliness P ca2 cwnd = Inl Diverges"
    using assms(6,8) ca2 delta friendly_loop_diverges [of acked "tcp_cwnd ca2"]
    by (simp add: bictcp_friendliness_def word_gt_0)
  with fields rec have "bictcp_update J P ?ca cwnd acked e = Inl Diverges"
    by (simp add: bictcp_update_def update_too_soon_def same_jiffy_def Let_def)
  with upd show ?thesis by simp
qed

theorem scubic_small_beta_hangs_witness:
  "rbind (bictcp_update_params (demo_bictcp\<lparr>bic_scale := ucast (41 :: u64), bt_beta := ucast (50 :: u64)\<rparr>))
    (\<lambda>ca'. bictcp_update demo_clock demo_config ca' 2 1 7) = Inl Diverges"
  by (rule scubic_small_beta_hangs) (simp_all add: demo_clock_ok demo_config_def demo_bictcp_def)

text \<open>C22: The cube root is total and close: with the documented fls64 it returns for every 64-bit
  argument (the index into the 64-entry table is in range, the Newton-Raphson step never divides by
  zero and its 32-bit product does not overflow), and the result r satisfies r^3 <= 2 a and
  a <= 2 (r + 1)^3.\<close>

theorem cubic_root_accurate:
  assumes "fls_spec fls"
  shows "\<exists>r. cubic_root fls a = Inr r \<and> unat r ^ 3 \<le> 2 * unat a \<and> unat a \<le> 2 * (unat r + 1) ^ 3"
  using assms by (rule cubic_root_near)

theorem cubic_root_accurate_witness:
  "\<exists>r. cubic_root (fls64 demo_clock) 1000000000 = Inr r \<and> unat r ^ 3 \<le> 2 * unat (1000000000 :: u64) \<and>
    unat (1000000000 :: u64) \<le> 2 * (unat r + 1) ^ 3"
  using demo_clock_ok by (intro cubic_root_accurate) (simp add: clock_ok_def)

text \<open>The setter obeys exactly the valid commands: a cubic connection, two parameters, both between 1
  and 1023. Then it stores them (the scale first, the decrease factor second) with the two factors
  computed from them, which it computes without a fault and which stay in range (the friendliness
  scale between 2 and 5458); anything else leaves the socket as it was.\<close>

theorem scubic_setter_exact:
  assumes "kw_socks w (conn_impl c) = Some s" and "2 \<le> length ps"
  shows "\<exists>ca. scubic_set_params c ps n w =
      (if fi_alg (flow_info c) = SPINE_CUBIC \<and> n = 2 \<and> 1 \<le> unat (ps ! 0) \<and> unat (ps ! 0) \<le> 1023 \<and>
          1 \<le> unat (ps ! 1) \<and> unat (ps ! 1) \<le> 1023
       then Inr (sock_put w (conn_impl c) (s\<lparr>sk_ca := ca\<rparr>)) else Inr w) \<and>
    bic_scale ca = ucast (ps ! 0) \<and> bt_beta ca = ucast (ps ! 1) \<and>
    (1 \<le> unat (ps ! 1) \<and> unat (ps ! 1) \<le> 1023 \<longrightarrow>
       unat (beta_scale ca) = 8 * (1024 + unat (ps ! 1)) div 3 div (1024 - unat (ps ! 1)) \<and>
       2 \<le> unat (beta_scale ca) \<and> unat (beta_scale ca) \<le> 5458) \<and>
    last_max_cwnd ca = last_max_cwnd (sk_ca s) \<and> epoch_start ca = epoch_start (sk_ca s)"
proof -
  have v: "valid_pair ps \<longleftrightarrow> 1 \<le> unat (ps ! 0) \<and> unat (ps ! 0) \<le> 1023 \<and> 1 \<le> unat (ps ! 1) \<and> unat (ps ! 1) \<le> 1023"
    by (auto simp: valid_pair_def word_less_nat_alt)
  have scale: "unat (beta_scale (scubic_with ps (sk_ca s))) = beta_scale_of (unat (ps ! 1)) \<and>
      2 \<le> beta_scale_of (unat (ps ! 1)) \<and> beta_scale_of (unat (ps ! 1)) \<le> 5458"
    if "1 \<le> unat (ps ! 1)" "unat (ps ! 1) \<le> 1023"
  proof -
    note R = beta_scale_range [OF that]
    then have "unat (word_of_nat (beta_scale_of (unat (ps ! 1))) :: u32) = beta_scale_of (unat (ps ! 1))"
      by (intro unat_word_of_nat_small) simp
    with R show ?thesis by (simp add: scubic_with_def)
  qed
  have "bic_scale (scubic_with ps (sk_ca s)) = ucast (ps ! 0)" "bt_beta (scubic_with ps (sk_ca s)) = ucast (ps ! 1)"
    "last_max_cwnd (scubic_with ps (sk_ca s)) = last_max_cwnd (sk_ca s)"
    "epoch_start (scubic_with ps (sk_ca s)) = epoch_start (sk_ca s)" by (simp_all add: scubic_with_def)
  then show ?thesis
    using scubic_set_params_eq [OF assms(1), of n ps] assms(2) v scale
    by (intro exI [of _ "scubic_with ps (sk_ca s)"]) (simp add: beta_scale_of_def)
qed

theorem scubic_setter_exact_witness:
  "\<exists>ca. scubic_set_params demo_sc_conn [50, 800] 2 demo_sc_world =
      (if fi_alg (flow_info demo_sc_conn) = SPINE_CUBIC \<and> (2 :: u8) = 2 \<and>
          1 \<le> unat ([50, 800 :: u64] ! 0) \<and> unat ([50, 800 :: u64] ! 0) \<le> 1023 \<and>
          1 \<le> unat ([50, 800 :: u64] ! 1) \<and> unat ([50, 800 :: u64] ! 1) \<le> 1023
       then Inr (sock_put demo_sc_world (conn_impl demo_sc_conn)
         (\<lparr>sk_tp = demo_clamped, sk_ca = demo_bictcp\<rparr>\<lparr>sk_ca := ca\<rparr>)) else Inr demo_sc_world) \<and>
    bic_scale ca = ucast ([50, 800 :: u64] ! 0) \<and> bt_beta ca = ucast ([50, 800 :: u64] ! 1) \<and>
    (1 \<le> unat ([50, 800 :: u64] ! 1) \<and> unat ([50, 800 :: u64] ! 1) \<le> 1023 \<longrightarrow>
       unat (beta_scale ca) = 8 * (1024 + unat ([50, 800 :: u64] ! 1)) div 3 div (1024 - unat ([50, 800 :: u64] ! 1)) \<and>
       2 \<le> unat (beta_scale ca) \<and> unat (beta_scale ca) \<le> 5458) \<and>
    last_max_cwnd ca = last_max_cwnd (sk_ca \<lparr>sk_tp = demo_clamped, sk_ca = demo_bictcp\<rparr>) \<and>
    epoch_start ca = epoch_start (sk_ca \<lparr>sk_tp = demo_clamped, sk_ca = demo_bictcp\<rparr>)"
  by (rule scubic_setter_exact) (simp_all add: demo_sc_world_def demo_sc_conn_def)

text \<open>A command reaches the cubic parameters: when the packet send_scubic_message builds (decrease factor
  first) for an announced cubic connection with an empty mailbox is received and the module then
  invokes the library, exactly that connection's socket gets the scale and the decrease factor
  with the factors computed from them if both are between 1 and 1023, nothing changes otherwise,
  and the mailbox is empty again.\<close>

theorem scubic_command_sets_parameters:
  fixes T :: "('e, 'ts) time_api"
  assumes "scubic_dp_ok T tzero N C dp" and "C sk = Some (Some i)"
    and "conn_state (slots dp ! i) = PLive \<lparr>sent_create = True, pending_update = zero_update\<rparr>"
    and "fi_alg (flow_info (slots dp ! i)) = SPINE_CUBIC"
    and "conn_index (slots dp ! i) = ucast sid" and "(ucast sid :: u16) \<noteq> 0"
    and "kw_socks w sk = Some s"
  shows "\<exists>dp1 dp2 ca. spine_nl_recv (Some (spine_read_msg char_signed)) (Some dp)
      (nl_packet (send_scubic_message sid beta scale)) = Inr (Some dp1) \<and>
    spine_invoke dp1 (Some i) w = Inr (0, dp2,
      if 0 < scale \<and> scale < 1024 \<and> 0 < beta \<and> beta < 1024
      then sock_put w sk (s\<lparr>sk_ca := ca\<rparr>) else w) \<and>
    ca = (sk_ca s)\<lparr>bic_scale := ucast scale, bt_beta := ucast beta, beta_scale := beta_scale ca,
      cube_factor := cube_factor ca\<rparr> \<and> pending_of dp2 i = zero_update \<and>
    (0 < scale \<and> scale < 1024 \<and> 0 < beta \<and> beta < 1024 \<longrightarrow> scubic_params_ok ca)"
proof -
  let ?ps = "[scale, beta]" and ?ca = "scubic_with [scale, beta] (sk_ca s)"
  have valid: "valid_pair ?ps \<longleftrightarrow> 0 < scale \<and> scale < 1024 \<and> 0 < beta \<and> beta < 1024"
    by (auto simp: valid_pair_def word_gt_0)
  have set_ok: "scubic_set_params c ?ps (word_of_nat (length ?ps)) w =
      Inr (if valid_pair ?ps then sock_put w sk (s\<lparr>sk_ca := ?ca\<rparr>) else w)"
    if "conn_impl c = sk" "flow_info c = flow_info (slots dp ! i)" for c
    using that assms(4,7) by (subst scubic_set_params_eq [where s = s]) simp_all
  have ne: "?ps \<noteq> []" "length ?ps \<le> MAX_CONTROL_REG" by (simp_all add: MAX_CONTROL_REG_def)
  from set_ok ne send_scubic_fields [of beta scale]
  have "\<exists>dp1 dp2. spine_nl_recv (Some (spine_read_msg char_signed)) (Some dp)
      (nl_packet (send_scubic_message sid beta scale)) = Inr (Some dp1) \<and>
    spine_invoke dp1 (Some i) w = Inr (0, dp2, if valid_pair ?ps then sock_put w sk (s\<lparr>sk_ca := ?ca\<rparr>) else w) \<and>
    pending_of dp2 i = zero_update"
    unfolding send_scubic_message_def by (intro command_delivered [OF assms(1-3,5,6)])
  moreover have "?ca = (sk_ca s)\<lparr>bic_scale := ucast scale, bt_beta := ucast beta, beta_scale := beta_scale ?ca,
      cube_factor := cube_factor ?ca\<rparr>"
    by (simp add: scubic_with_def)
  moreover note update_params_valid(2) [of ?ps "sk_ca s"]
  ultimately show ?thesis unfolding valid by blast
qed

theorem scubic_command_sets_parameters_witness:
  "\<exists>dp1 dp2 ca. spine_nl_recv (Some (spine_read_msg True)) (Some demo_sc_dp)
      (nl_packet (send_scubic_message 1 800 50)) = Inr (Some dp1) \<and>
    spine_invoke dp1 (Some 0) demo_sc_world = Inr (0, dp2,
      if 0 < (50 :: u64) \<and> (50 :: u64) < 1024 \<and> 0 < (800 :: u64) \<and> (800 :: u64) < 1024
      then sock_put demo_sc_world 0 (\<lparr>sk_tp = demo_clamped, sk_ca = demo_bictcp\<rparr>\<lparr>sk_ca := ca\<rparr>) else demo_sc_world) \<and>
    ca = (sk_ca \<lparr>sk_tp = demo_clamped, sk_ca = demo_bictcp\<rparr>)\<lparr>bic_scale := ucast (50 :: u64),
      bt_beta := ucast (800 :: u64), beta_scale := beta_scale ca, cube_factor := cube_factor ca\<rparr> \<and> pending_of dp2 0 = zero_update \<and>
    (0 < (50 :: u64) \<and> (50 :: u64) < 1024 \<and> 0 < (800 :: u64) \<and> (800 :: u64) < 1024 \<longrightarrow> scubic_params_ok ca)"
proof (rule scubic_command_sets_parameters [where sid = 1 and sk = 0])
  show "scubic_dp_ok demo_time 0 demo_nl [0 \<mapsto> Some 0] demo_sc_dp"
    using demo_sc_ok by (simp add: scubic_ok_def)
qed (simp_all add: demo_sc_world_def demo_sc_dp_def demo_sc_conn_def slots_def)

text \<open>The growth divisor is sound: once the parameters are valid, a window of at most 2^19 segments
  that has four segments, or one with a decrease factor of at least 512, always gets a count of at
  least 2, so the stack's additive increase, which divides by it, is never called with 0 and grows
  the window by at most one segment per two acknowledged.\<close>

theorem scubic_count_at_least_two:
  assumes "clock_ok J" and "scubic_params_ok ca" and "scubic_cnt_ok ca" and "unat cwnd \<le> 2 ^ 19"
    and "4 \<le> unat cwnd \<or> 512 \<le> unat (bt_beta ca) \<and> 1 \<le> unat cwnd"
  shows "\<exists>ca' e'. bictcp_update J P ca cwnd acked e = Inr (ca', e') \<and> 2 \<le> unat (bt_cnt ca') \<and>
    scubic_params_ok ca' \<and> scubic_cnt_ok ca'"
proof -
  have cwnd: "cwnd \<noteq> 0" using assms(5) by auto
  obtain ca' e' where "bictcp_update J P ca cwnd acked e = Inr (ca', e')" "same_params ca ca'" "2 \<le> unat (bt_cnt ca')"
    using bictcp_update_ok [OF assms(1,3) cwnd, of P acked e] friendly_delta [OF assms(2,4,5)] by blast
  then show ?thesis using same_params_ok [OF _ assms(2)] by (auto simp: scubic_cnt_ok_def)
qed

theorem scubic_count_at_least_two_witness:
  "\<exists>ca' e'. bictcp_update demo_clock demo_config demo_bictcp 1 3 500 = Inr (ca', e') \<and> 2 \<le> unat (bt_cnt ca') \<and>
    scubic_params_ok ca' \<and> scubic_cnt_ok ca'"
  using demo_bictcp_ok
  by (intro scubic_count_at_least_two)
    (simp_all add: demo_clock_ok scubic_sock_ok_def, simp add: demo_bictcp_def)

text \<open>A loss multiplies the window by beta / 1024: with a valid decrease factor and a 32-bit product that
  does not overflow, the new threshold is that product, at least 2, and never above a window of two
  segments or more; the epoch ends, and the remembered maximum is the window, or less than it when
  the window had not reached the previous maximum and fast convergence is on.\<close>

theorem scubic_loss_shrinks_window:
  assumes "1 \<le> unat (bt_beta ca)" and "unat (bt_beta ca) \<le> 1023"
    and "unat (snd_cwnd tp) * 2047 < 2 ^ 32" and "2 \<le> unat (snd_cwnd tp)"
  shows "\<exists>th ca'. bictcp_recalc_ssthresh P tp ca = (th, ca') \<and>
    unat th = max (unat (snd_cwnd tp) * unat (bt_beta ca) div 1024) 2 \<and> th \<le> snd_cwnd tp \<and>
    epoch_start ca' = 0 \<and> bt_beta ca' = bt_beta ca \<and>
    unat (last_max_cwnd ca') =
      (if snd_cwnd tp < last_max_cwnd ca \<and> fast_convergence P \<noteq> 0
       then unat (snd_cwnd tp) * (1024 + unat (bt_beta ca)) div 2048 else unat (snd_cwnd tp)) \<and>
    last_max_cwnd ca' \<le> snd_cwnd tp"
proof -
  define c b where "c = unat (snd_cwnd tp)" and "b = unat (bt_beta ca)"
  have b: "b \<le> 1023" and c: "c * 2047 < 2 ^ 32" "2 \<le> c" using assms by (simp_all add: b_def c_def)
  have m: "c * b \<le> c * 1024" "c * (1024 + b) \<le> c * 2048" "c * (1024 + b) \<le> c * 2047"
    using b by (intro mult_le_mono2, simp)+
  have le: "c * b div 1024 \<le> c" "c * (1024 + b) div 2048 \<le> c"
    using div_le_mono [OF m(1), of 1024] div_le_mono [OF m(2), of 2048] by simp_all
  have fits: "c * b < 2 ^ 32" "c * (1024 + b) < 2 ^ 32" using m c(1) by linarith+
  have th: "unat ((snd_cwnd tp * bt_beta ca) div BICTCP_BETA_SCALE) = c * b div 1024"
    using fits(1) by (simp add: unat_div BICTCP_BETA_SCALE_def unat_mult_exact c_def b_def)
  have "unat (BICTCP_BETA_SCALE + bt_beta ca) = 1024 + b"
    using b by (simp add: BICTCP_BETA_SCALE_def unat_add_exact b_def)
  then have "unat (snd_cwnd tp * (BICTCP_BETA_SCALE + bt_beta ca)) = c * (1024 + b)"
    using fits(2) by (subst unat_mult_exact) (simp_all add: c_def)
  then have wm: "unat ((snd_cwnd tp * (BICTCP_BETA_SCALE + bt_beta ca)) div (2 * BICTCP_BETA_SCALE)) = c * (1024 + b) div 2048"
    unfolding unat_div by (simp add: BICTCP_BETA_SCALE_def)
  show ?thesis
    using th wm le c(2) unfolding c_def [symmetric] b_def [symmetric]
    by (simp add: bictcp_recalc_ssthresh_def Let_def unat_max word_le_nat_alt c_def b_def)
qed

theorem scubic_loss_shrinks_window_witness:
  "\<exists>th ca'. bictcp_recalc_ssthresh demo_config demo_clamped demo_bictcp = (th, ca') \<and>
    unat th = max (unat (snd_cwnd demo_clamped) * unat (bt_beta demo_bictcp) div 1024) 2 \<and> th \<le> snd_cwnd demo_clamped \<and>
    epoch_start ca' = 0 \<and> bt_beta ca' = bt_beta demo_bictcp \<and>
    unat (last_max_cwnd ca') =
      (if snd_cwnd demo_clamped < last_max_cwnd demo_bictcp \<and> fast_convergence demo_config \<noteq> 0
       then unat (snd_cwnd demo_clamped) * (1024 + unat (bt_beta demo_bictcp)) div 2048 else unat (snd_cwnd demo_clamped)) \<and>
    last_max_cwnd ca' \<le> snd_cwnd demo_clamped"
  by (rule scubic_loss_shrinks_window) (simp_all add: demo_bictcp_def demo_clamped_def demo_sock_def)

text \<open>An idle period does not count as growth time: when the flow resumes sending after idle jiffies in
  an epoch that started in the past, the time since the start of the epoch is what it was before
  the idle period, and 0 if the epoch started during it.\<close>

theorem scubic_idle_shifts_epoch:
  assumes "tcp_jiffies32 J e = (now, e1)" and "epoch_start ca \<noteq> 0"
    and "0 < sint (now - lsndtime tp)" and "0 \<le> sint (now - epoch_start ca)"
  shows "\<exists>ca'. bictcp_cwnd_event J tp ca CA_EVENT_TX_START e = (ca', e1) \<and>
    sint (now - epoch_start ca') = max 0 (sint (now - epoch_start ca) - sint (now - lsndtime tp))"
proof -
  define a i where "a = sint (now - epoch_start ca)" and "i = sint (now - lsndtime tp)"
  have r: "0 \<le> a" "0 < i" using assms(3,4) by (simp_all add: a_def i_def)
  have up: "a < 2 ^ 31" "i < 2 ^ 31"
    using sint_less [of "now - epoch_start ca"] sint_less [of "now - lsndtime tp"] by (simp_all add: a_def i_def)
  have "now - (epoch_start ca + (now - lsndtime tp)) = word_of_int (a - i)"
    by (simp add: a_def i_def)
  then have s: "sint (now - (epoch_start ca + (now - lsndtime tp))) = a - i"
    using r up by (simp only:) (intro sint_s32_of_int, simp_all)
  have gt: "sint (now - lsndtime tp) > 0" using assms(3) by simp
  show ?thesis
  proof (cases "a - i < 0")
    case True
    then have "seq_after (epoch_start ca + (now - lsndtime tp)) now" using s by (simp only: seq_after_def)
    then have "bictcp_cwnd_event J tp ca CA_EVENT_TX_START e = (ca\<lparr>epoch_start := epoch_start ca + (now - lsndtime tp), epoch_start := now\<rparr>, e1)"
      using assms(1,2) gt by (simp add: bictcp_cwnd_event_def Let_def)
    with True show ?thesis by (simp add: a_def i_def)
  next
    case False
    then have "\<not> seq_after (epoch_start ca + (now - lsndtime tp)) now" using s by (simp only: seq_after_def) simp
    then have ev: "bictcp_cwnd_event J tp ca CA_EVENT_TX_START e = (ca\<lparr>epoch_start := epoch_start ca + (now - lsndtime tp)\<rparr>, e1)"
      using assms(1,2) gt by (simp add: bictcp_cwnd_event_def Let_def)
    have sel: "epoch_start (ca\<lparr>epoch_start := x\<rparr>) = x" for x by simp
    have "max 0 (a - i) = a - i" using False by simp
    with ev show ?thesis
      by (intro exI [of _ "ca\<lparr>epoch_start := epoch_start ca + (now - lsndtime tp)\<rparr>"])
        (simp only: sel s a_def i_def)
  qed
qed

theorem scubic_idle_shifts_epoch_witness:
  "\<exists>ca'. bictcp_cwnd_event demo_clock (demo_sock\<lparr>lsndtime := 900\<rparr>) (demo_bictcp\<lparr>epoch_start := 500\<rparr>)
      CA_EVENT_TX_START 1000 = (ca', 1001) \<and>
    sint (1000 - epoch_start ca') =
      max 0 (sint (1000 - epoch_start (demo_bictcp\<lparr>epoch_start := 500\<rparr>)) - sint (1000 - lsndtime (demo_sock\<lparr>lsndtime := 900\<rparr>)))"
  by (rule scubic_idle_shifts_epoch) (simp_all add: demo_clock_def)

end
