(* ===== verification/Load_Properties.thy ===== *)
theory Load_Properties
  imports Module_Load Scubic_Properties
begin

text \<open>The properties of loading and unloading, each with a concrete input.\<close>

definition demo_block :: "(('ca, u64) kworld) fetch_fn option \<Rightarrow> ('ca, u64) kworld spine_datapath" where
  "demo_block f = \<lparr>dp_set_params = None, dp_fetch_measurements = f, dp_send_msg = None, dp_time_zero = 7,
     dp_now = None, dp_since_usecs = None, dp_after_usecs = None, dp_max_connections = 5, dp_connections = None,
     dp_fto_us = 3, dp_last_msg_sent = 9, dp_in_fallback = True\<rparr>"

definition demo_yes :: "(('ca, u64) kworld) fetch_fn option \<Rightarrow> ('ca, u64) kworld load_answers" where
  "demo_yes f = \<lparr>kmalloc_block = Some (demo_block f), kzalloc_table = True, nl_create_ok = True, tcp_register_ret = 0\<rparr>"

definition demo_unloaded :: "('ca, u64) kworld module_state" where
  "demo_unloaded = \<lparr>kernel_datapath = KNull, module_nl = \<lparr>nl_reader = None, nl_sk = False\<rparr>, table_freed = False,
     ops_registered = False\<rparr>"

text \<open>Loading tcp_neo establishes the invariant its flows rely on: when the kernel grants every
  request the registration returns the stack's answer, the datapath - whatever the allocated block
  held before - has the callbacks of the module, 1024 free slots and no flow, the netlink reader is
  installed and the socket exists.\<close>

theorem neo_register_ready:
  fixes w :: "'e neo_world" and T :: "('e, 'ts) time_api"
  assumes "kmalloc_block L = Some block" and "kzalloc_table L" and "nl_create_ok L"
    and "kw_socks w = (\<lambda>_. None)"
  shows "\<exists>tz m' w' dp. neo_register T N char_signed L m w = Inr (tcp_register_ret L, tz, m', w') \<and>
    kernel_datapath m' = KLive dp \<and> neo_ok T tz N (\<lambda>_. None) (dp, w') \<and>
    slots dp = replicate 1024 zero_connection \<and> nl_reader (module_nl m') = Some (spine_read_msg char_signed) \<and>
    nl_sk (module_nl m') \<and> \<not> table_freed m' \<and> (ops_registered m' \<longleftrightarrow> tcp_register_ret L = 0)"
proof -
  obtain tz t w' where reg: "neo_register T N char_signed L m w = Inr (tcp_register_ret L, tz,
      m\<lparr>kernel_datapath := KLive (loaded_dp T tz N neo_set_params (Some neo_fetch_measurements) t),
        module_nl := (module_nl m)\<lparr>nl_reader := Some (spine_read_msg char_signed), nl_sk := True\<rparr>,
        table_freed := False, ops_registered := tcp_register_ret L = 0\<rparr>, w')" and w': "kw_socks w' = kw_socks w"
    unfolding neo_register_def
    using register_module_ok [OF assms(1-3), where F = "\<lambda>_. Some neo_fetch_measurements"
        and setp = neo_set_params and N = N and m = m and w = w and T = T and cs = char_signed] by fastforce
  have "neo_ok T tz N (\<lambda>_. None) (loaded_dp T tz N neo_set_params (Some neo_fetch_measurements) t, w')"
    using flows_ok_loaded w' assms(4) by (simp add: neo_ok_def socks_ok_def)
  with reg show ?thesis by (simp add: MAX_ACTIVE_FLOWS_def)
qed

theorem neo_register_ready_witness:
  "\<exists>tz m' w' dp. neo_register demo_time demo_nl True (demo_yes None) demo_unloaded demo_idle_world =
      Inr (tcp_register_ret (demo_yes None :: u64 neo_world load_answers), tz, m', w') \<and>
    kernel_datapath m' = KLive dp \<and> neo_ok demo_time tz demo_nl (\<lambda>_. None) (dp, w') \<and>
    slots dp = replicate 1024 zero_connection \<and> nl_reader (module_nl m') = Some (spine_read_msg True) \<and>
    nl_sk (module_nl m') \<and> \<not> table_freed m' \<and> (ops_registered m' \<longleftrightarrow> tcp_register_ret (demo_yes None :: u64 neo_world load_answers) = 0)"
  by (rule neo_register_ready [where block = "demo_block None"]) (simp_all add: demo_yes_def demo_idle_world_def)

text \<open>C40: tcp_vanilla never sets the fetch callback (nor does tcp_scubic): after a successful load the
  callback is whatever the kmalloc'ed block held, and the datapath satisfies the invariant of the
  module only if that happens to be NULL; otherwise the first measurement request calls through a
  stale pointer.\<close>

theorem vanilla_register_stale_fetch:
  fixes w :: "'e vanilla_world" and T :: "('e, 'ts) time_api"
  assumes "kmalloc_block L = Some block" and "kzalloc_table L" and "nl_create_ok L"
    and "kw_socks w = (\<lambda>_. None)"
  shows "\<exists>tz m' w' dp. vanilla_register T N char_signed L m w = Inr (tcp_register_ret L, tz, m', w') \<and>
    kernel_datapath m' = KLive dp \<and> dp_fetch_measurements dp = dp_fetch_measurements block \<and>
    (vanilla_ok T tz N (\<lambda>_. None) (dp, w') \<longleftrightarrow> dp_fetch_measurements block = None)"
proof -
  obtain tz t m' w' where "vanilla_register T N char_signed L m w = Inr (tcp_register_ret L, tz, m', w')"
    and "kernel_datapath m' = KLive (loaded_dp T tz N vanilla_set_params (dp_fetch_measurements block) t)"
    and w': "kw_socks w' = kw_socks w"
    unfolding vanilla_register_def
    using register_window_module [OF assms(1-3), where T = T and cs = char_signed and setp = vanilla_set_params
        and N = N and m = m and w = w] by blast
  moreover have "vanilla_ok T tz N (\<lambda>_. None) (loaded_dp T tz N vanilla_set_params (dp_fetch_measurements block) t, w')
      \<longleftrightarrow> dp_fetch_measurements block = None"
  proof
    assume "vanilla_ok T tz N (\<lambda>_. None) (loaded_dp T tz N vanilla_set_params (dp_fetch_measurements block) t, w')"
    then have "vanilla_dp_ok T tz N (\<lambda>_. None) (loaded_dp T tz N vanilla_set_params (dp_fetch_measurements block) t)"
      by (simp add: vanilla_ok_def)
    from flows_okD(5) [OF this] show "dp_fetch_measurements block = None" by simp
  next
    assume none: "dp_fetch_measurements block = None"
    show "vanilla_ok T tz N (\<lambda>_. None) (loaded_dp T tz N vanilla_set_params (dp_fetch_measurements block) t, w')"
      unfolding none using flows_ok_loaded w' assms(4) by (simp add: vanilla_ok_def socks_ok_def)
  qed
  ultimately show ?thesis by auto
qed

theorem vanilla_register_stale_fetch_witness:
  "\<exists>tz m' w' dp. vanilla_register demo_time demo_nl True (demo_yes (Some (\<lambda>c ms n r w. Inl Use_After_Free)))
      demo_unloaded (demo_van_world\<lparr>kw_socks := (\<lambda>_. None)\<rparr>) =
      Inr (tcp_register_ret (demo_yes (Some (\<lambda>c ms n r w. Inl Use_After_Free)) :: u64 vanilla_world load_answers), tz, m', w') \<and>
    kernel_datapath m' = KLive dp \<and>
    dp_fetch_measurements dp = dp_fetch_measurements (demo_block (Some (\<lambda>c ms n r w. Inl Use_After_Free))) \<and>
    (vanilla_ok demo_time tz demo_nl (\<lambda>_. None) (dp, w') \<longleftrightarrow>
      dp_fetch_measurements (demo_block (Some (\<lambda>c ms n r w. Inl Use_After_Free)) :: u64 vanilla_world spine_datapath) = None)"
  by (rule vanilla_register_stale_fetch) (simp_all add: demo_yes_def)

text \<open>The return codes of a load: -1, -2 and -3 for the first of the three requests the kernel
  refuses, otherwise the answer of the stack; -4 never occurs, because the initialisation of the
  library always finds its arguments. After a refusal other than the first the block of the datapath
  stays allocated and the operations are not registered, so nothing can free it.\<close>

theorem neo_register_codes:
  fixes w :: "'e neo_world" and T :: "('e, 'ts) time_api"
  shows "\<exists>tz m' w'. neo_register T N char_signed L m w =
      Inr (if kmalloc_block L = None then -1 else if \<not> kzalloc_table L then -2
           else if \<not> nl_create_ok L then -3 else tcp_register_ret L, tz, m', w') \<and>
    (case kmalloc_block L of None \<Rightarrow> kernel_datapath m' = KNull | Some _ \<Rightarrow> \<exists>dp. kernel_datapath m' = KLive dp) \<and>
    kw_socks w' = kw_socks w \<and>
    ops_registered m' = (if kmalloc_block L \<noteq> None \<and> kzalloc_table L \<and> nl_create_ok L
      then tcp_register_ret L = 0 else ops_registered m)"
proof (cases "kmalloc_block L")
  case None
  obtain tz e1 where "ktime_get_real_ts64 T (kw_env w) = (tz, e1)" by fastforce
  with None show ?thesis by (simp add: neo_register_def register_module_def)
next
  case (Some block)
  show ?thesis
  proof (cases "kzalloc_table L \<and> nl_create_ok L")
    case True
    obtain tz t w' where "neo_register T N char_signed L m w = Inr (tcp_register_ret L, tz,
        m\<lparr>kernel_datapath := KLive (loaded_dp T tz N neo_set_params (Some neo_fetch_measurements) t),
          module_nl := (module_nl m)\<lparr>nl_reader := Some (spine_read_msg char_signed), nl_sk := True\<rparr>,
          table_freed := False, ops_registered := tcp_register_ret L = 0\<rparr>, w')" "kw_socks w' = kw_socks w"
      unfolding neo_register_def
      using register_module_ok [OF Some, where F = "\<lambda>_. Some neo_fetch_measurements"
          and setp = neo_set_params and N = N and m = m and w = w and T = T and cs = char_signed] True by fastforce
    with Some True show ?thesis by simp
  next
    case False
    obtain tz e1 where "ktime_get_real_ts64 T (kw_env w) = (tz, e1)" by fastforce
    with Some False show ?thesis
      by (auto simp: neo_register_def register_module_def spine_nl_sk_def Let_def)
  qed
qed

text \<open>Unloading opens a window: the four calls of the exit function return and leave nothing
  allocated or registered, but before the last of them the datapath is already freed while the
  stack still has the module's operations, so a handler that runs then dereferences freed memory.\<close>

theorem neo_unload_window:
  assumes "kernel_datapath m = KLive dp" and "dp_connections dp \<noteq> None" and "\<not> table_freed m"
  shows "\<exists>m3 m4. run unload_step [Release_Socket, Free_Table, Free_Datapath] m = Inr m3 \<and>
    ops_registered m3 = ops_registered m \<and> kptr_deref (kernel_datapath m3) = Inl Use_After_Free \<and>
    neo_unregister m = Inr m4 \<and> \<not> ops_registered m4 \<and> kernel_datapath m4 = KFreed \<and> table_freed m4 \<and>
    \<not> nl_sk (module_nl m4)"
  using assms by (simp add: neo_unregister_def unload_order_def free_spine_nl_sk_def)

theorem neo_unload_window_witness:
  "\<exists>m3 m4. run unload_step [Release_Socket, Free_Table, Free_Datapath]
      (demo_unloaded\<lparr>kernel_datapath := KLive demo_neo_dp, ops_registered := True\<rparr>) = Inr m3 \<and>
    ops_registered m3 = ops_registered (demo_unloaded\<lparr>kernel_datapath := KLive demo_neo_dp, ops_registered := True\<rparr>) \<and>
    kptr_deref (kernel_datapath m3) = Inl Use_After_Free \<and>
    neo_unregister (demo_unloaded\<lparr>kernel_datapath := KLive demo_neo_dp, ops_registered := True\<rparr>) = Inr m4 \<and>
    \<not> ops_registered m4 \<and> kernel_datapath m4 = KFreed \<and> table_freed m4 \<and> \<not> nl_sk (module_nl m4)"
proof (rule neo_unload_window)
  show "dp_connections demo_neo_dp \<noteq> None" unfolding demo_neo_dp_def by (simp del: not_None_eq)
qed (simp_all add: demo_unloaded_def)

end
