(* ===== verification/Module_Life.thy ===== *)
theory Module_Life
  imports Flow_Life Load_Properties
begin

text \<open>
  The three modules fulfil the contract of \<open>Flow_Life\<close>: from a successful load, every disciplined
  sequence of openings, handler calls, closings and packets runs without a fault.
\<close>

section \<open>Laws of the environment as part of the discipline\<close>

text \<open>
  What a module needs of the kernel is the same for every event; it joins the conditions on the
  events when the contract is interpreted.
\<close>

lemma scheduled_laws:
  assumes "scheduled n fits allowed opn es" and "\<And>s. fits s \<Longrightarrow> fits' s"
    and "\<And>C e. allowed C e \<Longrightarrow> allowed' C e"
  shows "scheduled n fits' allowed' opn es"
  using assms(1)
proof (induction es arbitrary: opn)
  case (Cons e es)
  then show ?case using assms(2,3) by (cases e) simp_all
qed simp

definition memory_granted :: "('e \<Rightarrow> bool \<times> 'e) \<Rightarrow> bool" where
  "memory_granted A \<longleftrightarrow> (\<forall>e. fst (A e))"

definition ecn_keeps_sock :: "tcp_api \<Rightarrow> bool" where
  "ecn_keeps_sock K \<longleftrightarrow> (\<forall>tp. mss_cache (INET_ECN_dontxmit K tp) = mss_cache tp \<and>
     snd_cwnd (INET_ECN_dontxmit K tp) = snd_cwnd tp \<and>
     snd_cwnd_clamp (INET_ECN_dontxmit K tp) = snd_cwnd_clamp tp)"

section \<open>tcp_neo\<close>

definition neo_fits :: "neo_data ksock \<Rightarrow> bool" where
  "neo_fits s \<longleftrightarrow> mss_cache (sk_tp s) \<noteq> 0"

definition neo_life_step where
  "neo_life_step K A cs = flow_step (\<lambda>_ :: unit. neo_init K A) neo_release (neo_step K cs)"

lemma neo_allowed_dom: "dom C = dom C' \<Longrightarrow> neo_allowed C e = neo_allowed C' e"
  by (cases e) (simp_all add: dom_def set_eq_iff)

interpretation neo_life: flow_life neo_conn neo_sock_ok neo_set_params "Some neo_fetch_measurements"
  T tzero N "\<lambda>_ :: unit. neo_init K A" neo_release "neo_step K cs"
  "\<lambda>s. memory_granted A \<and> ecn_keeps_sock K \<and> neo_fits s" neo_allowed
  for T :: "('e, 'ts) time_api" and tzero :: 'ts and N :: "'e nl_api" and K and A :: "'e \<Rightarrow> bool \<times> 'e" and cs
proof
  fix C and dp :: "'e neo_world spine_datapath" and w :: "'e neo_world" and sk s j and p :: unit
  assume "neo_dp_ok T tzero N C dp" "neo_good C (kw_socks w)" "C sk = None"
    "memory_granted A \<and> ecn_keeps_sock K \<and> neo_fits s"
    "Suc j < length (slots dp)" "conn_index (slots dp ! j) = 0" "\<forall>i < j. conn_index (slots dp ! i) \<noteq> 0"
  then show "\<exists>dp' w'. neo_init K A dp sk (sock_put w sk s) = Inr (dp', w') \<and>
      neo_dp_ok T tzero N (C(sk \<mapsto> Some j)) dp' \<and> length (slots dp') = length (slots dp) \<and>
      neo_good (C(sk \<mapsto> Some j)) (kw_socks w')"
    using neo_init_ok [of T tzero N C dp w sk s A K j]
    by (auto simp: neo_ok_def memory_granted_def ecn_keeps_sock_def neo_fits_def)
next
  fix C and dp :: "'e neo_world spine_datapath" and w :: "'e neo_world" and sk i
  assume "neo_dp_ok T tzero N C dp" "neo_good C (kw_socks w)" "C sk = Some (Some i)"
  then show "\<exists>dp' w'. neo_release dp sk w = Inr (dp', w') \<and>
      neo_dp_ok T tzero N (C(sk := None)) dp' \<and> length (slots dp') = length (slots dp) \<and>
      neo_good (C(sk := None)) ((kw_socks w')(sk := None))"
    using neo_release_ok [of T tzero N C dp w sk i] by (auto simp: neo_ok_def)
next
  fix C and dp :: "'e neo_world spine_datapath" and w :: "'e neo_world" and e
  assume "neo_dp_ok T tzero N C dp" "neo_good C (kw_socks w)" "neo_allowed C e"
  then show "\<exists>dp' w'. neo_step K cs e (dp, w) = Inr (dp', w') \<and> neo_dp_ok T tzero N C dp' \<and>
      length (slots dp') = length (slots dp) \<and> neo_good C (kw_socks w')"
    using neo_step_ok [of T tzero N C dp w e K cs] by (auto simp: neo_ok_def)
qed (rule neo_allowed_dom)

section \<open>tcp_vanilla\<close>

definition vanilla_fits :: "vanilla ksock \<Rightarrow> bool" where
  "vanilla_fits s \<longleftrightarrow> True"

definition vanilla_life_step where
  "vanilla_life_step K A cs = flow_step (\<lambda>_ :: unit. vanilla_init K A) vanilla_release (vanilla_step K cs)"

lemma vanilla_allowed_dom: "dom C = dom C' \<Longrightarrow> vanilla_allowed C e = vanilla_allowed C' e"
  by (cases e) (simp_all add: dom_def set_eq_iff)

lemma vanilla_init_ok:
  fixes T :: "('e, 'ts) time_api"
  assumes dp: "vanilla_dp_ok T tzero N C dp" and w: "vanilla_good C (kw_socks w)" and new: "C sk = None"
    and mem: "\<forall>e. fst (A e)" and free: "Suc j < length (slots dp)" "conn_index (slots dp ! j) = 0"
      "\<forall>i < j. conn_index (slots dp ! i) \<noteq> 0"
  shows "\<exists>dp' w'. vanilla_init K A dp sk (sock_put w sk s) = Inr (dp', w') \<and>
    vanilla_dp_ok T tzero N (C(sk \<mapsto> Some j)) dp' \<and> length (slots dp') = length (slots dp) \<and>
    vanilla_good (C(sk \<mapsto> Some j)) (kw_socks w')"
proof -
  let ?s0 = "s\<lparr>sk_ca := vanilla_reset (sk_ca s)\<rparr>"
  obtain dp' w1 where start: "spine_connection_start (kw_alloc A) dp sk (dp_info_of (sk_tp s) ''vanilla'' SPINE_VANILLA)
      (sock_put (sock_put w sk s) sk ?s0) = Inr (Some j, dp', w1)"
    and socks: "kw_socks w1 = (kw_socks w)(sk \<mapsto> ?s0)"
    and dp': "vanilla_dp_ok T tzero N (C(sk \<mapsto> Some j)) dp'" "length (slots dp') = length (slots dp)"
    using open_conn_ok [OF dp new free mem, of "''vanilla''" "sk_tp s" SPINE_VANILLA "sock_put (sock_put w sk s) sk ?s0"]
    by (auto simp: MAX_CONG_ALG_SIZE_def)
  define tp where "tp = (if ecn_flags (sk_tp s) AND TCP_ECN_OK = 0 then INET_ECN_dontxmit K (sk_tp s) else sk_tp s)"
  let ?s1 = "\<lparr>sk_tp = need_pacing tp, sk_ca = (vanilla_reset (sk_ca s))\<lparr>van_conn := Some j\<rparr>\<rparr>"
  have "vanilla_init K A dp sk (sock_put w sk s) = Inr (dp', sock_put w1 sk ?s1)"
    using start socks by (simp add: vanilla_init_def tp_def Let_def)
  moreover have "vanilla_sock_ok ?s1"
    by (simp add: vanilla_sock_ok_def van_params_ok_def vanilla_reset_def)
  then have "vanilla_good (C(sk \<mapsto> Some j)) (kw_socks (sock_put w1 sk ?s1))"
    using socks_ok_add [OF w, of ?s1 sk] socks by simp
  ultimately show ?thesis using dp' by blast
qed

interpretation vanilla_life: flow_life van_conn vanilla_sock_ok vanilla_set_params None
  T tzero N "\<lambda>_ :: unit. vanilla_init K A" vanilla_release "vanilla_step K cs"
  "\<lambda>s. memory_granted A \<and> vanilla_fits s" vanilla_allowed
  for T :: "('e, 'ts) time_api" and tzero :: 'ts and N :: "'e nl_api" and K and A :: "'e \<Rightarrow> bool \<times> 'e" and cs
proof
  fix C and dp :: "'e vanilla_world spine_datapath" and w :: "'e vanilla_world" and sk s j and p :: unit
  assume "vanilla_dp_ok T tzero N C dp" "vanilla_good C (kw_socks w)" "C sk = None"
    "memory_granted A \<and> vanilla_fits s"
    "Suc j < length (slots dp)" "conn_index (slots dp ! j) = 0" "\<forall>i < j. conn_index (slots dp ! i) \<noteq> 0"
  then show "\<exists>dp' w'. vanilla_init K A dp sk (sock_put w sk s) = Inr (dp', w') \<and>
      vanilla_dp_ok T tzero N (C(sk \<mapsto> Some j)) dp' \<and> length (slots dp') = length (slots dp) \<and>
      vanilla_good (C(sk \<mapsto> Some j)) (kw_socks w')"
    by (intro vanilla_init_ok) (simp_all add: memory_granted_def)
next
  fix C and dp :: "'e vanilla_world spine_datapath" and w :: "'e vanilla_world" and sk i
  assume "vanilla_dp_ok T tzero N C dp" "vanilla_good C (kw_socks w)" "C sk = Some (Some i)"
  then show "\<exists>dp' w'. vanilla_release dp sk w = Inr (dp', w') \<and>
      vanilla_dp_ok T tzero N (C(sk := None)) dp' \<and> length (slots dp') = length (slots dp) \<and>
      vanilla_good (C(sk := None)) ((kw_socks w')(sk := None))"
    unfolding vanilla_release_def by (rule close_conn_ok)
next
  fix C and dp :: "'e vanilla_world spine_datapath" and w :: "'e vanilla_world" and e
  assume "vanilla_dp_ok T tzero N C dp" "vanilla_good C (kw_socks w)" "vanilla_allowed C e"
  then show "\<exists>dp' w'. vanilla_step K cs e (dp, w) = Inr (dp', w') \<and> vanilla_dp_ok T tzero N C dp' \<and>
      length (slots dp') = length (slots dp) \<and> vanilla_good C (kw_socks w')"
    using vanilla_step_ok [of T tzero N C dp w e K cs] by (auto simp: vanilla_ok_def)
qed (rule vanilla_allowed_dom)

section \<open>tcp_scubic\<close>

definition scubic_fits :: "bictcp ksock \<Rightarrow> bool" where
  "scubic_fits s \<longleftrightarrow> window_ok (sk_tp s)"

definition scubic_life_step where
  "scubic_life_step K J A cs = flow_step (\<lambda>P. bictcp_init K J P A) bictcp_release (scubic_step K J cs)"

lemma scubic_allowed_dom: "dom C = dom C' \<Longrightarrow> scubic_allowed C e = scubic_allowed C' e"
proof -
  assume "dom C = dom C'"
  then show ?thesis by (cases e; cases "snd e") (simp_all add: dom_def set_eq_iff)
qed

text \<open>The state a flow starts from: the default parameters, a window that is left alone, no count.\<close>

lemma bictcp_init_state_ok:
  assumes "window_ok tp"
  shows "\<exists>tp' ca' e'. bictcp_init_state J P tp ca e = Inr (tp', ca', e') \<and> window_ok tp' \<and>
    scubic_params_ok ca' \<and> scubic_cnt_ok ca'"
proof -
  obtain ca1 e1 where ca1: "(if cfg_hystart P \<noteq> 0 then bictcp_hystart_reset J tp (bictcp_reset ca) e
      else (bictcp_reset ca, e)) = (ca1, e1)" by fastforce
  have cnt: "last_cwnd ca1 = 0"
  proof (cases "cfg_hystart P \<noteq> 0")
    case True
    then have "bictcp_hystart_reset J tp (bictcp_reset ca) e = (ca1, e1)" using ca1 by simp
    from scubic_frame [OF this] have "last_cwnd ca1 = last_cwnd (bictcp_reset ca)" by blast
    then show ?thesis by (simp add: bictcp_reset_def)
  next
    case False
    with ca1 have "ca1 = bictcp_reset ca" by simp
    then show ?thesis by (simp add: bictcp_reset_def)
  qed
  have "valid_pair [41, 717]" by (simp add: valid_pair_def)
  from update_params_valid [OF this, of ca1]
  have "bictcp_update_params (ca1\<lparr>bic_scale := 41, bt_beta := 717\<rparr>) = Inr (scubic_with [41, 717] ca1)"
    and "scubic_params_ok (scubic_with [41, 717] ca1)" by simp_all
  moreover have "scubic_cnt_ok (scubic_with [41, 717] ca1)"
    using cnt by (simp add: scubic_cnt_ok_def scubic_with_def)
  moreover have "window_ok (tp\<lparr>snd_ssthresh := h\<rparr>)" for h using assms by (simp add: window_ok_def)
  ultimately show ?thesis
    unfolding bictcp_init_state_def Let_def ca1 prod.case using assms by simp
qed

lemma bictcp_init_ok:
  fixes T :: "('e, 'ts) time_api"
  assumes dp: "scubic_dp_ok T tzero N C dp" and w: "scubic_good C (kw_socks w)" and new: "C sk = None"
    and mem: "\<forall>e. fst (A e)" and free: "Suc j < length (slots dp)" "conn_index (slots dp ! j) = 0"
      "\<forall>i < j. conn_index (slots dp ! i) \<noteq> 0"
    and K: "ecn_keeps_sock K" and win: "window_ok (sk_tp s)"
  shows "\<exists>dp' w'. bictcp_init K J P A dp sk (sock_put w sk s) = Inr (dp', w') \<and>
    scubic_dp_ok T tzero N (C(sk \<mapsto> Some j)) dp' \<and> length (slots dp') = length (slots dp) \<and>
    scubic_good (C(sk \<mapsto> Some j)) (kw_socks w')"
proof -
  obtain tp1 ca1 e1 where st: "bictcp_init_state J P (sk_tp s) (sk_ca s) (kw_env w) = Inr (tp1, ca1, e1)"
    and ok1: "window_ok tp1" "scubic_params_ok ca1" "scubic_cnt_ok ca1"
    using bictcp_init_state_ok [OF win, where J = J and P = P and ca = "sk_ca s" and e = "kw_env w"] by blast
  let ?s0 = "\<lparr>sk_tp = tp1, sk_ca = ca1\<rparr>"
  let ?w0 = "sock_put ((sock_put w sk s)\<lparr>kw_env := e1\<rparr>) sk ?s0"
  obtain dp' w1 where start: "spine_connection_start (kw_alloc A) dp sk (dp_info_of tp1 ''scubic'' SPINE_CUBIC) ?w0 =
      Inr (Some j, dp', w1)"
    and socks: "kw_socks w1 = (kw_socks w)(sk \<mapsto> ?s0)"
    and dp': "scubic_dp_ok T tzero N (C(sk \<mapsto> Some j)) dp'" "length (slots dp') = length (slots dp)"
    using open_conn_ok [OF dp new free mem, of "''scubic''" tp1 SPINE_CUBIC ?w0]
    by (auto simp: MAX_CONG_ALG_SIZE_def)
  define tp where "tp = (if ecn_flags tp1 AND TCP_ECN_OK = 0 then INET_ECN_dontxmit K tp1 else tp1)"
  let ?s1 = "\<lparr>sk_tp = need_pacing tp, sk_ca = ca1\<lparr>bt_conn := Some j\<rparr>\<rparr>"
  have "kw_env (sock_put w sk s) = kw_env w" by (simp add: sock_put_def)
  then have "bictcp_init K J P A dp sk (sock_put w sk s) = Inr (dp', sock_put w1 sk ?s1)"
    using st start socks by (simp add: bictcp_init_def tp_def Let_def)
  moreover have "scubic_sock_ok ?s1"
    using ok1 K by (simp add: scubic_sock_ok_def window_ok_def tp_def ecn_keeps_sock_def scubic_params_ok_def scubic_cnt_ok_def)
  then have "scubic_good (C(sk \<mapsto> Some j)) (kw_socks (sock_put w1 sk ?s1))"
    using socks_ok_add [OF w, of ?s1 sk] socks by simp
  ultimately show ?thesis using dp' by blast
qed

interpretation scubic_life: flow_life bt_conn scubic_sock_ok scubic_set_params None
  T tzero N "\<lambda>P. bictcp_init K J P A" bictcp_release "scubic_step K J cs"
  "\<lambda>s. memory_granted A \<and> ecn_keeps_sock K \<and> scubic_fits s"
  "\<lambda>C e. tcp_laws K \<and> clock_ok J \<and> scubic_allowed C e"
  for T :: "('e, 'ts) time_api" and tzero :: 'ts and N :: "'e nl_api" and K and J :: "'e clock_api"
    and A :: "'e \<Rightarrow> bool \<times> 'e" and cs
proof
  fix C and dp :: "'e scubic_world spine_datapath" and w :: "'e scubic_world" and sk s j and P
  assume "scubic_dp_ok T tzero N C dp" "scubic_good C (kw_socks w)" "C sk = None"
    "memory_granted A \<and> ecn_keeps_sock K \<and> scubic_fits s"
    "Suc j < length (slots dp)" "conn_index (slots dp ! j) = 0" "\<forall>i < j. conn_index (slots dp ! i) \<noteq> 0"
  then show "\<exists>dp' w'. bictcp_init K J P A dp sk (sock_put w sk s) = Inr (dp', w') \<and>
      scubic_dp_ok T tzero N (C(sk \<mapsto> Some j)) dp' \<and> length (slots dp') = length (slots dp) \<and>
      scubic_good (C(sk \<mapsto> Some j)) (kw_socks w')"
    by (intro bictcp_init_ok) (simp_all add: memory_granted_def scubic_fits_def)
next
  fix C and dp :: "'e scubic_world spine_datapath" and w :: "'e scubic_world" and sk i
  assume "scubic_dp_ok T tzero N C dp" "scubic_good C (kw_socks w)" "C sk = Some (Some i)"
  then show "\<exists>dp' w'. bictcp_release dp sk w = Inr (dp', w') \<and>
      scubic_dp_ok T tzero N (C(sk := None)) dp' \<and> length (slots dp') = length (slots dp) \<and>
      scubic_good (C(sk := None)) ((kw_socks w')(sk := None))"
    unfolding bictcp_release_def by (rule close_conn_ok)
next
  fix C and dp :: "'e scubic_world spine_datapath" and w :: "'e scubic_world" and e
  assume "scubic_dp_ok T tzero N C dp" "scubic_good C (kw_socks w)"
    "tcp_laws K \<and> clock_ok J \<and> scubic_allowed C e"
  then show "\<exists>dp' w'. scubic_step K J cs e (dp, w) = Inr (dp', w') \<and> scubic_dp_ok T tzero N C dp' \<and>
      length (slots dp') = length (slots dp) \<and> scubic_good C (kw_socks w')"
    using scubic_step_ok [where K = K and J = J and T = T and tzero = tzero and N = N and C = C and dp = dp
        and w = w and P = "fst e" and ev = "snd e" and cs = cs] by (auto simp: scubic_ok_def)
next
  fix C C' :: "nat \<Rightarrow> nat option option" and e :: "scubic_config \<times> scubic_event"
  assume "dom C = dom C'"
  from scubic_allowed_dom [OF this] show "(tcp_laws K \<and> clock_ok J \<and> scubic_allowed C e) =
      (tcp_laws K \<and> clock_ok J \<and> scubic_allowed C' e)" by (rule arg_cong)
qed

section \<open>From load to unload\<close>

text \<open>The four calls of an exit function return on a live datapath.\<close>

lemma unload_ok:
  assumes "\<not> table_freed m"
  shows "\<exists>m'. run unload_step unload_order (m\<lparr>kernel_datapath := KLive dp\<rparr>) = Inr m' \<and>
    kernel_datapath m' = KFreed \<and> \<not> ops_registered m' \<and> \<not> nl_sk (module_nl m')"
  using assms by (simp add: unload_order_def free_spine_nl_sk_def)

text \<open>A load of tcp_vanilla or tcp_scubic whose block happens to hold no fetch callback.\<close>

lemma window_module_loaded:
  fixes w :: "('ca, 'e) kworld" and T :: "('e, 'ts) time_api"
  assumes "kmalloc_block L = Some block" and "kzalloc_table L" and "nl_create_ok L"
    and "dp_fetch_measurements block = None" and "kw_socks w = (\<lambda>_. None)"
  shows "\<exists>tz m' w' dp. register_module T cs
      (\<lambda>dp. dp\<lparr>dp_set_params := Some setp, dp_send_msg := Some (kw_send N)\<rparr>) L m w =
      Inr (tcp_register_ret L, tz, m', w') \<and> kernel_datapath m' = KLive dp \<and> \<not> table_freed m' \<and>
    flows_ok setp None T tz N (\<lambda>_. None) dp \<and> socks_ok conn_of good (\<lambda>_. None) (kw_socks w') \<and>
    length (slots dp) = 1024"
proof -
  have socks: "socks_ok conn_of good (\<lambda>_. None) (\<lambda>_. None)" by (simp add: socks_ok_def)
  have len: "length (slots (loaded_dp T tz N setp None t)) = 1024" for tz t by (simp add: MAX_ACTIVE_FLOWS_def)
  from register_window_module [OF assms(1-3), where T = T and cs = cs and setp = setp and N = N and m = m and w = w]
  show ?thesis unfolding assms(4,5) using flows_ok_loaded socks len by fastforce
qed

text \<open>C4: A loaded neo module never faults: when the kernel grants every allocation, the module loads,
  and then any sequence of events that respects the discipline of the stack - a socket is opened
  once, with a non-zero segment size and while fewer than 1023 are open, only open sockets have
  their statistics moved, their handlers called and are closed, in any order and any number, with
  packets of the controller in between - runs to its end: no handler faults, every open socket has
  a connection of its own, no slot is leaked, the invariant of the module holds, and the module
  can then be unloaded.\<close>

theorem neo_module_runs:
  fixes w :: "'e neo_world" and T :: "('e, 'ts) time_api"
  assumes "kmalloc_block L = Some block" and "kzalloc_table L" and "nl_create_ok L"
    and "kw_socks w = (\<lambda>_. None)" and "memory_granted A" and "ecn_keeps_sock K"
    and "scheduled 1024 neo_fits neo_allowed [] es"
  shows "\<exists>tz m1 w1 dp1 dp2 w2 C m3.
    neo_register T N char_signed L m w = Inr (tcp_register_ret L, tz, m1, w1) \<and> kernel_datapath m1 = KLive dp1 \<and>
    run (neo_life_step K A char_signed) es (dp1, w1) = Inr (dp2, w2) \<and> neo_ok T tz N C (dp2, w2) \<and>
    dom C = set (opened [] es) \<and> None \<notin> ran C \<and>
    neo_unregister (m1\<lparr>kernel_datapath := KLive dp2\<rparr>) = Inr m3 \<and> kernel_datapath m3 = KFreed \<and> \<not> ops_registered m3"
proof -
  obtain tz m1 w1 dp1 where load: "neo_register T N char_signed L m w = Inr (tcp_register_ret L, tz, m1, w1)"
    "kernel_datapath m1 = KLive dp1" and fresh: "\<not> table_freed m1"
    and ok: "neo_ok T tz N (\<lambda>_. None) (dp1, w1)" and sl: "slots dp1 = replicate 1024 zero_connection"
    using neo_register_ready [OF assms(1-4), where T = T and N = N and char_signed = char_signed and m = m] by blast
  have "in_step neo_conn neo_sock_ok neo_set_params (Some neo_fetch_measurements) T tz N 1024 [] (\<lambda>_. None) (dp1, w1)"
    using ok sl by (simp add: in_step_def neo_ok_def)
  from neo_life.life_run [OF this scheduled_laws [OF assms(7)]] assms(5,6) obtain dp2 w2 C where
    "run (neo_life_step K A char_signed) es (dp1, w1) = Inr (dp2, w2)"
    "in_step neo_conn neo_sock_ok neo_set_params (Some neo_fetch_measurements) T tz N 1024 (opened [] es) C (dp2, w2)"
    unfolding neo_life_step_def by fastforce
  with load unload_ok [OF fresh, of dp2] show ?thesis
    by (fastforce simp: in_step_def neo_ok_def neo_unregister_def)
qed

theorem neo_module_runs_witness:
  "\<exists>tz m1 w1 dp1 dp2 w2 C m3.
    neo_register demo_time demo_nl True (demo_yes None) demo_unloaded demo_idle_world =
      Inr (tcp_register_ret (demo_yes None :: u64 neo_world load_answers), tz, m1, w1) \<and>
    kernel_datapath m1 = KLive dp1 \<and>
    run (neo_life_step demo_tcp (\<lambda>e. (True, e)) True)
      [Flow_Open () 7 \<lparr>sk_tp = demo_sock, sk_ca = demo_neo\<rparr>, Flow_Open () 9 \<lparr>sk_tp = demo_sock, sk_ca = demo_neo\<rparr>,
       Flow_Event (Neo_Ack 7 \<lparr>rs_delivered = 1, rs_interval_us = 1, rs_acked_sacked = 1\<rparr>), Flow_Close 7,
       Flow_Event (Neo_Ssthresh 9), Flow_Open () 7 \<lparr>sk_tp = demo_sock, sk_ca = demo_neo\<rparr>] (dp1, w1) = Inr (dp2, w2) \<and>
    neo_ok demo_time tz demo_nl C (dp2, w2) \<and>
    dom C = set (opened [] [Flow_Open () 7 \<lparr>sk_tp = demo_sock, sk_ca = demo_neo\<rparr>,
       Flow_Open () 9 \<lparr>sk_tp = demo_sock, sk_ca = demo_neo\<rparr>,
       Flow_Event (Neo_Ack 7 \<lparr>rs_delivered = 1, rs_interval_us = 1, rs_acked_sacked = 1\<rparr>), Flow_Close 7,
       Flow_Event (Neo_Ssthresh 9), Flow_Open () 7 \<lparr>sk_tp = demo_sock, sk_ca = demo_neo\<rparr>]) \<and> None \<notin> ran C \<and>
    neo_unregister (m1\<lparr>kernel_datapath := KLive dp2\<rparr>) = Inr m3 \<and> kernel_datapath m3 = KFreed \<and> \<not> ops_registered m3"
  by (rule neo_module_runs [where block = "demo_block None"])
    (simp_all add: demo_yes_def demo_idle_world_def memory_granted_def ecn_keeps_sock_def demo_tcp_def
      known_def neo_fits_def demo_sock_def)

text \<open>C6: A loaded vanilla module never faults: when the kernel grants every allocation and the block of
  the datapath holds no stale fetch callback, the module loads, and any sequence of events that
  respects the discipline of the stack runs to its end: no handler faults, every open socket has a
  connection of its own, no slot is leaked, the four parameters of every flow stay in their ranges
  and its minimum round-trip time stays positive, and the module can then be unloaded.\<close>

theorem vanilla_module_runs:
  fixes w :: "'e vanilla_world" and T :: "('e, 'ts) time_api"
  assumes "kmalloc_block L = Some block" and "kzalloc_table L" and "nl_create_ok L"
    and "dp_fetch_measurements block = None" and "kw_socks w = (\<lambda>_. None)" and "memory_granted A"
    and "scheduled 1024 vanilla_fits vanilla_allowed [] es"
  shows "\<exists>tz m1 w1 dp1 dp2 w2 C m3.
    vanilla_register T N char_signed L m w = Inr (tcp_register_ret L, tz, m1, w1) \<and> kernel_datapath m1 = KLive dp1 \<and>
    run (vanilla_life_step K A char_signed) es (dp1, w1) = Inr (dp2, w2) \<and> vanilla_ok T tz N C (dp2, w2) \<and>
    dom C = set (opened [] es) \<and> None \<notin> ran C \<and>
    vanilla_unregister (m1\<lparr>kernel_datapath := KLive dp2\<rparr>) = Inr m3 \<and> kernel_datapath m3 = KFreed \<and> \<not> ops_registered m3"
proof -
  obtain tz m1 w1 dp1 where load: "vanilla_register T N char_signed L m w = Inr (tcp_register_ret L, tz, m1, w1)"
    "kernel_datapath m1 = KLive dp1" and fresh: "\<not> table_freed m1"
    and ok: "vanilla_dp_ok T tz N (\<lambda>_. None) dp1" "vanilla_good (\<lambda>_. None) (kw_socks w1)" "length (slots dp1) = 1024"
    using window_module_loaded [OF assms(1-5), where T = T and N = N and cs = char_signed and m = m
        and setp = vanilla_set_params and conn_of = van_conn and good = vanilla_sock_ok]
    unfolding vanilla_register_def by blast
  have "in_step van_conn vanilla_sock_ok vanilla_set_params None T tz N 1024 [] (\<lambda>_. None) (dp1, w1)"
    using ok by (simp add: in_step_def)
  from vanilla_life.life_run [OF this scheduled_laws [OF assms(7)]] assms(6) obtain dp2 w2 C where
    "run (vanilla_life_step K A char_signed) es (dp1, w1) = Inr (dp2, w2)"
    "in_step van_conn vanilla_sock_ok vanilla_set_params None T tz N 1024 (opened [] es) C (dp2, w2)"
    unfolding vanilla_life_step_def by fastforce
  with load unload_ok [OF fresh, of dp2] show ?thesis
    by (fastforce simp: in_step_def vanilla_ok_def vanilla_unregister_def)
qed

theorem vanilla_module_runs_witness:
  "\<exists>tz m1 w1 dp1 dp2 w2 C m3.
    vanilla_register demo_time demo_nl True (demo_yes None) demo_unloaded (demo_van_world\<lparr>kw_socks := (\<lambda>_. None)\<rparr>) =
      Inr (tcp_register_ret (demo_yes None :: u64 vanilla_world load_answers), tz, m1, w1) \<and>
    kernel_datapath m1 = KLive dp1 \<and>
    run (vanilla_life_step demo_tcp (\<lambda>e. (True, e)) True)
      [Flow_Open () 3 \<lparr>sk_tp = demo_sock, sk_ca = demo_van\<rparr>, Flow_Event (Van_Sample 3 \<lparr>as_rtt_us = 9000\<rparr>),
       Flow_Event (Van_Ack 3 \<lparr>rs_delivered = 1, rs_interval_us = 1, rs_acked_sacked = 1\<rparr>), Flow_Close 3]
      (dp1, w1) = Inr (dp2, w2) \<and>
    vanilla_ok demo_time tz demo_nl C (dp2, w2) \<and>
    dom C = set (opened [] [Flow_Open () 3 \<lparr>sk_tp = demo_sock, sk_ca = demo_van\<rparr>,
       Flow_Event (Van_Sample 3 \<lparr>as_rtt_us = 9000\<rparr>),
       Flow_Event (Van_Ack 3 \<lparr>rs_delivered = 1, rs_interval_us = 1, rs_acked_sacked = 1\<rparr>), Flow_Close 3]) \<and>
    None \<notin> ran C \<and>
    vanilla_unregister (m1\<lparr>kernel_datapath := KLive dp2\<rparr>) = Inr m3 \<and> kernel_datapath m3 = KFreed \<and> \<not> ops_registered m3"
  by (rule vanilla_module_runs [where block = "demo_block None"])
    (simp_all add: demo_yes_def demo_block_def memory_granted_def known_def vanilla_fits_def)


lemma demo_stack_keeps: "ecn_keeps_sock demo_stack"
  by (simp add: ecn_keeps_sock_def demo_stack_def demo_tcp_def)


end
