(* ===== verification/System.thy ===== *)
theory System
  imports Joint Module_Life
begin

text \<open>
  The whole system: a loaded module whose handlers the TCP stack calls, the controller, and the
  messages and packets between them. A handler is a sequence of calls of the library
  (\<open>library_calls\<close>), so the system refines the one of \<open>Joint\<close>; the locale \<open>module_system\<close> extends
  the contract \<open>flow_life\<close> of a module by that, and under it the module and the controller keep each
  other's assumptions. It is interpreted on each module in \<open>Whole_System\<close>.
\<close>

section \<open>Handlers as calls of the library\<close>

lemma joint_reach_trans:
  assumes "joint_reach kcalloc cs hash cc tr s1 s2" and "joint_reach kcalloc cs hash cc tr s2 s3"
  shows "joint_reach kcalloc cs hash cc tr s1 s3"
  using assms(2,1) by (induction rule: joint_reach.induct) (auto intro: joint_reach.there)

lemma joint_reach_step: "joint_step kcalloc cs hash cc tr s s' \<Longrightarrow> joint_reach kcalloc cs hash cc tr s s'"
  by (rule joint_reach.there [OF joint_reach.here])

definition library_calls ::
  "(('ca, 'e) kworld \<Rightarrow> bool \<times> ('ca, 'e) kworld) \<Rightarrow> bool \<Rightarrow> ('e \<Rightarrow> u8 list set) \<Rightarrow>
   ('ca, 'e) flow_state \<Rightarrow> ('ca, 'e) flow_state \<Rightarrow> bool" where
  "library_calls kcalloc cs tr s s' \<longleftrightarrow> (\<forall>hash cc p q.
     joint_reach kcalloc cs hash cc tr (fst s, snd s, p, q) (fst s', snd s', p, q))"

lemma library_calls_trans:
  "library_calls kcalloc cs tr s1 s2 \<Longrightarrow> library_calls kcalloc cs tr s2 s3 \<Longrightarrow> library_calls kcalloc cs tr s1 s3"
  unfolding library_calls_def by (meson joint_reach_trans)

text \<open>The four kinds of steps a handler is made of.\<close>

lemma calls_idle: "tr (kw_env w') = tr (kw_env w) \<Longrightarrow> library_calls kcalloc cs tr (dp, w) (dp, w')"
  unfolding library_calls_def by (auto intro!: joint_reach_step joint_step.idle)

lemma calls_step:
  assumes "lib_step kcalloc cs op (dp, w) (dp', w')" and "\<And>buf n. op \<noteq> Op_Read buf n" and "op \<noteq> Op_World"
  shows "library_calls kcalloc cs tr (dp, w) (dp', w')"
  unfolding library_calls_def by (auto intro!: joint_reach_step joint_step.call [OF assms])

lemma calls_start:
  "spine_connection_start kcalloc dp impl info w = Inr (r, dp', w') \<Longrightarrow> length (fi_congAlg info) = MAX_CONG_ALG_SIZE \<Longrightarrow>
   library_calls kcalloc cs tr (dp, w) (dp', w')"
  by (rule calls_step [OF lib_step.start]) simp_all

lemma calls_free: "spine_connection_free dp sid w = Inr (dp', w') \<Longrightarrow> library_calls kcalloc cs tr (dp, w) (dp', w')"
  by (rule calls_step [OF lib_step.free]) simp_all

lemma calls_invoke: "spine_invoke dp (Some i) w = Inr (ret, dp', w') \<Longrightarrow> library_calls kcalloc cs tr (dp, w) (dp', w')"
  by (rule calls_step [OF lib_step.invoke]) simp_all

text \<open>What follows and precedes a call leaves the messages alone.\<close>

lemma calls_then_idle:
  "library_calls kcalloc cs tr s (dp, w) \<Longrightarrow> tr (kw_env w') = tr (kw_env w) \<Longrightarrow> library_calls kcalloc cs tr s (dp, w')"
  by (rule library_calls_trans [OF _ calls_idle])

lemma idle_then_calls:
  "tr (kw_env w') = tr (kw_env w) \<Longrightarrow> library_calls kcalloc cs tr (dp, w') s \<Longrightarrow> library_calls kcalloc cs tr (dp, w) s"
  by (rule library_calls_trans [OF calls_idle])

lemma kw_env_put [simp]: "kw_env (sock_put w sk s) = kw_env w"
  by (simp add: sock_put_def)

text \<open>The two pieces the handlers of the modules share: a release and an invocation, if there is a connection.\<close>

lemma calls_release:
  assumes "(case conn of None \<Rightarrow> Inr (dp, w)
      | Some i \<Rightarrow> rbind (conn_ref dp i) (\<lambda>c. spine_connection_free dp (conn_index c) w)) = Inr (dp', w')"
  shows "library_calls kcalloc cs tr (dp, w) (dp', w')"
  using assms by (cases conn) (auto simp: rbind_eq_Inr intro: calls_idle calls_free)

lemma calls_report:
  assumes "(case conn of None \<Rightarrow> Inr (dp, w)
      | Some i \<Rightarrow> rbind (spine_invoke dp (Some i) w) (\<lambda>(ok, dp', w'). Inr (dp', w'))) = Inr (dp', w')"
  shows "library_calls kcalloc cs tr (dp, w) (dp', w')"
  using assms by (cases conn) (auto simp: rbind_eq_Inr intro: calls_idle calls_invoke)

text \<open>Allocations add no message.\<close>

definition silent :: "('e \<Rightarrow> u8 list set) \<Rightarrow> ('e \<Rightarrow> bool \<times> 'e) \<Rightarrow> bool" where
  "silent tr A \<longleftrightarrow> (\<forall>e. tr (snd (A e)) = tr e)"

lemma silent_alloc: "silent tr A \<Longrightarrow> tr (kw_env (snd (kw_alloc A w))) = tr (kw_env w)"
  by (simp add: silent_def kw_alloc_def split: prod.split) (metis snd_conv)

lemma info_name [simp]: "length name \<le> MAX_CONG_ALG_SIZE \<Longrightarrow> length (fi_congAlg (dp_info_of tp name alg)) = MAX_CONG_ALG_SIZE"
  by (simp add: dp_info_of_def)

section \<open>The transition system\<close>

text \<open>
  The state of the stack is the list of its open sockets; \<open>may opn e\<close> says which events it may
  produce. Between events the environment may change, but multicasts nothing. Messages are handled
  and packets received in any order, any number of times.
\<close>

type_synonym ('ca, 'e) system_state = "nat list \<times> ('ca, 'e) joint_state"

inductive system_step ::
  "(('p, 'ca, 'ev) flow_event \<Rightarrow> ('ca, 'e) flow_state \<Rightarrow> ('ca, 'e) flow_state res) \<Rightarrow>
   (nat list \<Rightarrow> ('p, 'ca, 'ev) flow_event \<Rightarrow> bool) \<Rightarrow> bool \<Rightarrow> (string \<Rightarrow> int) \<Rightarrow> kernel_cc \<Rightarrow> ('e \<Rightarrow> u8 list set) \<Rightarrow>
   ('ca, 'e) system_state \<Rightarrow> ('ca, 'e) system_state \<Rightarrow> bool"
  for handle may cs hash cc tr where
  handler: "may opn e \<Longrightarrow> handle e (dp, w) = Inr (dp', w') \<Longrightarrow>
    system_step handle may cs hash cc tr (opn, dp, w, p, q) (opened opn [e], dp', w', p, q)"
| idle: "tr e \<subseteq> tr (kw_env w) \<Longrightarrow>
    system_step handle may cs hash cc tr (opn, dp, w, p, q) (opn, dp, w\<lparr>kw_env := e\<rparr>, p, q)"
| receive: "pkt \<in> q \<Longrightarrow> spine_nl_recv (Some (spine_read_msg cs)) (Some dp) (nl_packet pkt) = Inr (Some dp') \<Longrightarrow>
    system_step handle may cs hash cc tr (opn, dp, w, p, q) (opn, dp', w, p, q)"
| hear: "msg \<in> tr (kw_env w) \<Longrightarrow> process_step hash cc (From_Kernel (Some msg)) p = (out, p') \<Longrightarrow>
    system_step handle may cs hash cc tr (opn, dp, w, p, q) (opn, dp, w, p', q \<union> packets out)"
| serve: "\<not> concerns Netlink_Fd ev \<Longrightarrow> process_step hash cc ev p = (out, p') \<Longrightarrow>
    system_step handle may cs hash cc tr (opn, dp, w, p, q) (opn, dp, w, p', q \<union> packets out)"

inductive system_reach ::
  "(('p, 'ca, 'ev) flow_event \<Rightarrow> ('ca, 'e) flow_state \<Rightarrow> ('ca, 'e) flow_state res) \<Rightarrow>
   (nat list \<Rightarrow> ('p, 'ca, 'ev) flow_event \<Rightarrow> bool) \<Rightarrow> bool \<Rightarrow> (string \<Rightarrow> int) \<Rightarrow> kernel_cc \<Rightarrow> ('e \<Rightarrow> u8 list set) \<Rightarrow>
   ('ca, 'e) system_state \<Rightarrow> ('ca, 'e) system_state \<Rightarrow> bool"
  for handle may cs hash cc tr s0 where
  start: "system_reach handle may cs hash cc tr s0 s0"
| further: "system_reach handle may cs hash cc tr s0 s \<Longrightarrow> system_step handle may cs hash cc tr s s' \<Longrightarrow>
    system_reach handle may cs hash cc tr s0 s'"

section \<open>A module in the system\<close>

text \<open>
  The discipline of the stack for one event (\<open>handled\<close> leaves the packets out: these come from the
  controller alone), and the invariant: the joint system's, with table and sockets in step.
\<close>

definition due ::
  "nat \<Rightarrow> ('ca ksock \<Rightarrow> bool) \<Rightarrow> ((nat \<Rightarrow> nat option option) \<Rightarrow> 'ev \<Rightarrow> bool) \<Rightarrow> nat list \<Rightarrow>
   ('p, 'ca, 'ev) flow_event \<Rightarrow> bool" where
  "due n fits handled opn e \<longleftrightarrow> scheduled n fits handled opn [e]"

definition system_ok ::
  "('ca \<Rightarrow> nat option) \<Rightarrow> ('ca ksock \<Rightarrow> bool) \<Rightarrow> ('ca, 'e) kworld set_params_fn \<Rightarrow>
   ('ca, 'e) kworld fetch_fn option \<Rightarrow> ('e, 'ts) time_api \<Rightarrow> 'ts \<Rightarrow> 'e nl_api \<Rightarrow> ('e \<Rightarrow> u8 list set) \<Rightarrow>
   nat \<Rightarrow> nat list \<Rightarrow> ('ca, 'e) joint_state \<Rightarrow> bool" where
  "system_ok conn_of good setp fetchm T tzero N tr n opn j \<longleftrightarrow> joint_ok T tzero N tr j \<and>
     (\<exists>C. in_step conn_of good setp fetchm T tzero N n opn C (fst j, fst (snd j)))"

text \<open>
  What can happen next goes well: the stack's events and the packets of the controller run without a
  fault, and the controller, which still listens to the kernel, handles every message without an exception.
\<close>

definition nothing_fails ::
  "(('p, 'ca, 'ev) flow_event \<Rightarrow> ('ca, 'e) flow_state \<Rightarrow> ('ca, 'e) flow_state res) \<Rightarrow>
   (nat list \<Rightarrow> ('p, 'ca, 'ev) flow_event \<Rightarrow> bool) \<Rightarrow> bool \<Rightarrow> (string \<Rightarrow> int) \<Rightarrow> ('e \<Rightarrow> u8 list set) \<Rightarrow>
   ('ca, 'e) system_state \<Rightarrow> bool" where
  "nothing_fails handle may cs hash tr = (\<lambda>(opn, dp, w, p, q).
     (\<forall>e. may opn e \<longrightarrow> (\<exists>r. handle e (dp, w) = Inr r)) \<and>
     (\<forall>pkt \<in> q. \<exists>dp'. spine_nl_recv (Some (spine_read_msg cs)) (Some dp) (nl_packet pkt) = Inr (Some dp')) \<and>
     Netlink_Fd \<in> set (watched p) \<and>
     (\<forall>msg \<in> tr (kw_env w). \<exists>out st. read_netlink_message hash (Some msg) (pr_agent p) = (Inr Continue, out, st)))"

text \<open>
  The contract: the handlers reach the library only by its calls, if the clocks the module reads
  itself obey \<open>laws\<close>, and the callbacks multicast nothing.
\<close>

locale module_system = flow_life conn_of good setp fetchm T tzero N init release step fits allowed
  for conn_of :: "'ca \<Rightarrow> nat option" and good :: "'ca ksock \<Rightarrow> bool"
    and setp :: "('ca, 'e) kworld set_params_fn" and fetchm :: "('ca, 'e) kworld fetch_fn option"
    and T :: "('e, 'ts) time_api" and tzero :: 'ts and N :: "'e nl_api"
    and init :: "'p \<Rightarrow> ('ca, 'e) kworld spine_datapath \<Rightarrow> nat \<Rightarrow> ('ca, 'e) kworld \<Rightarrow> ('ca, 'e) flow_state res"
    and release :: "('ca, 'e) kworld spine_datapath \<Rightarrow> nat \<Rightarrow> ('ca, 'e) kworld \<Rightarrow> ('ca, 'e) flow_state res"
    and step :: "'ev \<Rightarrow> ('ca, 'e) flow_state \<Rightarrow> ('ca, 'e) flow_state res"
    and fits :: "'ca ksock \<Rightarrow> bool"
    and allowed :: "(nat \<Rightarrow> nat option option) \<Rightarrow> 'ev \<Rightarrow> bool" +
  fixes A :: "'e \<Rightarrow> bool \<times> 'e" and cs :: bool and tr :: "'e \<Rightarrow> u8 list set"
    and handled :: "(nat \<Rightarrow> nat option option) \<Rightarrow> 'ev \<Rightarrow> bool" and laws :: bool
  assumes init_calls: "silent tr A \<Longrightarrow> laws \<Longrightarrow> init p dp sk (sock_put w sk s) = Inr r \<Longrightarrow>
      library_calls (kw_alloc A) cs tr (dp, w) r"
    and release_calls: "release dp sk w = Inr r \<Longrightarrow> library_calls (kw_alloc A) cs tr (dp, w) r"
    and step_calls: "laws \<Longrightarrow> handled C e \<Longrightarrow> step e (dp, w) = Inr r \<Longrightarrow> library_calls (kw_alloc A) cs tr (dp, w) r"
    and handled_allowed: "handled C e \<Longrightarrow> allowed C e"
    and callbacks_quiet: "uses_cc setp fetchm dp \<Longrightarrow> quiet_callbacks tr dp"
begin

lemma due_scheduled: "due n fits handled opn e \<Longrightarrow> scheduled n fits allowed opn [e]"
  using handled_allowed by (cases e) (auto simp: due_def)

text \<open>An event of the stack is a sequence of calls of the library, so the system refines the joint system.\<close>

lemma event_calls:
  assumes "silent tr A" and "laws" and "due n fits handled opn e" and "flow_step init release step e (dp, w) = Inr r"
  shows "library_calls (kw_alloc A) cs tr (dp, w) r"
proof (cases e)
  case (Flow_Open p sk s)
  with assms init_calls [of p dp sk w s r] show ?thesis by (simp add: due_def)
next
  case (Flow_Close sk)
  with assms obtain dp' w' where rel: "release dp sk w = Inr (dp', w')" and r: "r = (dp', forget_sock sk w')"
    by (auto simp: rbind_eq_Inr)
  show ?thesis unfolding r by (rule calls_then_idle [OF release_calls [OF rel]]) (simp add: forget_sock_def)
next
  case (Flow_Event ev)
  with assms step_calls [of "known opn" ev dp w r] show ?thesis by (simp add: due_def)
qed

lemma step_refines:
  assumes "silent tr A" and "laws" and "system_step (flow_step init release step) (due n fits handled) cs hash cc tr (opn, j) (opn', j')"
  shows "joint_reach (kw_alloc A) cs hash cc tr j j'"
  using assms(3)
proof cases
  case (handler e dp w dp' w' p q)
  with event_calls [OF assms(1,2) handler(4,5)] show ?thesis by (simp add: library_calls_def)
next
  case (idle e w dp p q)
  then show ?thesis by (auto intro!: joint_reach_step joint_step.idle)
next
  case (receive pkt q dp dp' w p)
  then show ?thesis by (auto intro!: joint_reach_step joint_step.receive)
next
  case (hear msg w p out p' dp q)
  then show ?thesis by (auto intro!: joint_reach_step joint_step.hear simp del: process_step.simps)
next
  case (serve ev p out p' dp w q)
  then show ?thesis by (auto intro!: joint_reach_step joint_step.serve simp del: process_step.simps)
qed

text \<open>Table and sockets stay in step with each other, since what the controller sends is well formed.\<close>

lemma packet_received:
  assumes "system_ok conn_of good setp fetchm T tzero N tr n opn (dp, w, p, q)" and "pkt \<in> q"
  shows "\<exists>dp'. spine_nl_recv (Some (spine_read_msg cs)) (Some dp) (nl_packet pkt) = Inr (Some dp') \<and>
    (\<exists>C. in_step conn_of good setp fetchm T tzero N n opn C (dp', w))"
proof -
  obtain C where C: "in_step conn_of good setp fetchm T tzero N n opn C (dp, w)"
    using assms(1) by (auto simp: system_ok_def)
  have "controller_payload pkt"
    using assms small_payload by (auto simp: system_ok_def joint_ok_def request_ok_def)
  from flows_ok_recv [OF _ this, of setp fetchm T tzero N C dp cs] C obtain dp' where
    "spine_nl_recv (Some (spine_read_msg cs)) (Some dp) (nl_packet pkt) = Inr (Some dp')"
    "in_step conn_of good setp fetchm T tzero N n opn C (dp', w)" by (auto simp: in_step_def)
  then show ?thesis by blast
qed

lemma event_runs:
  assumes "in_step conn_of good setp fetchm T tzero N n opn C (dp, w)" and "scheduled n fits allowed opn [e]"
  shows "\<exists>r C'. flow_step init release step e (dp, w) = Inr r \<and>
    in_step conn_of good setp fetchm T tzero N n (opened opn [e]) C' r"
  using life_run [OF assms] by (auto simp: rbind_eq_Inr)

lemma system_step_ok:
  assumes env: "traced T N tr" "silent tr A" "laws" "sender_keys cc"
    and step: "system_step (flow_step init release step) (due n fits handled) cs hash cc tr (opn, j) (opn', j')"
    and ok: "system_ok conn_of good setp fetchm T tzero N tr n opn j"
  shows "system_ok conn_of good setp fetchm T tzero N tr n opn' j'"
proof -
  have "joint_ok T tzero N tr j'"
    using joint_reach_ok [OF step_refines [OF env(2,3) step] _ env(1) silent_alloc [OF env(2)] env(4)] ok
    by (simp add: system_ok_def)
  moreover have "\<exists>C. in_step conn_of good setp fetchm T tzero N n opn' C (fst j', fst (snd j'))"
    using step
  proof cases
    case (handler e dp w dp' w' p q)
    then obtain C where "in_step conn_of good setp fetchm T tzero N n opn C (dp, w)"
      using ok by (auto simp: system_ok_def)
    from event_runs [OF this due_scheduled [OF handler(4)]] handler show ?thesis by auto
  next
    case (receive pkt q dp dp' w p)
    with packet_received [of n opn dp w p q pkt] ok show ?thesis by auto
  qed (use ok in \<open>auto simp: system_ok_def in_step_def\<close>)
  ultimately show ?thesis by (simp add: system_ok_def)
qed

lemma system_reach_ok:
  assumes "system_reach (flow_step init release step) (due n fits handled) cs hash cc tr s0 s"
    and "traced T N tr" and "silent tr A" and "laws" and "sender_keys cc" and "system_ok conn_of good setp fetchm T tzero N tr n (fst s0) (snd s0)"
  shows "system_ok conn_of good setp fetchm T tzero N tr n (fst s) (snd s)"
  using assms(1)
proof (induction rule: system_reach.induct)
  case start
  show ?case by (rule assms(6))
next
  case (further s s')
  then show ?case using system_step_ok [OF assms(2-5)] by (cases s; cases s') auto
qed

text \<open>So nothing that can happen next fails: no handler, no packet, no message.\<close>

lemma system_safe:
  assumes "system_reach (flow_step init release step) (due n fits handled) cs hash cc tr s0 (opn, dp, w, p, q)"
    and "traced T N tr" and "silent tr A" and "laws" and "sender_keys cc" and "system_ok conn_of good setp fetchm T tzero N tr n (fst s0) (snd s0)"
  shows "nothing_fails (flow_step init release step) (due n fits handled) cs hash tr (opn, dp, w, p, q)"
proof -
  have ok: "system_ok conn_of good setp fetchm T tzero N tr n opn (dp, w, p, q)" using system_reach_ok [OF assms] by simp
  then obtain C where C: "in_step conn_of good setp fetchm T tzero N n opn C (dp, w)" by (auto simp: system_ok_def)
  have joint: "joint_ok T tzero N tr (dp, w, p, q)" using ok by (simp add: system_ok_def)
  have "\<exists>out st. read_netlink_message hash (Some msg) (pr_agent p) = (Inr Continue, out, st)"
    if "msg \<in> tr (kw_env w)" for msg
    using hears [of "pr_agent p" msg hash] joint that by (auto simp: joint_ok_def wire_def)
  moreover have "Netlink_Fd \<in> set (watched p)" using joint by (simp add: joint_ok_def)
  ultimately show ?thesis
    using event_runs [OF C due_scheduled] packet_received [OF ok] unfolding nothing_fails_def prod.case by blast
qed

text \<open>The state a load leaves is one to start from.\<close>

lemma loaded_ok:
  assumes "flows_ok setp fetchm T tzero N (\<lambda>_. None) dp" and "slots dp = replicate n zero_connection"
    and "kw_socks w = (\<lambda>_. None)" and "wire (\<lambda>_. False) tr w"
  shows "system_ok conn_of good setp fetchm T tzero N tr n [] (dp, w, process_start, {})"
proof -
  have "wire (awaited (pr_agent process_start)) tr w" using assms(4) by (rule wire_mono) simp
  moreover have "asked_for (awaited (pr_agent process_start)) dp"
    using assms(2) not_asks_zero by (simp add: asked_for_def asks_def zero_connection_def)
  moreover have "lib_inv T tzero N dp" "uses_cc setp fetchm dp" using assms(1) by (simp_all add: lib_inv_def flows_ok_def)
  moreover have "Netlink_Fd \<in> set (watched process_start)" "sids_in short (ag_flows (pr_agent process_start))"
    by (simp_all add: process_start_def agent_start_def sids_in_def EnvFlows_def)
  ultimately show ?thesis
    using assms(1-3) callbacks_quiet by (auto simp: system_ok_def joint_ok_def in_step_def socks_ok_def intro!: exI [of _ "\<lambda>_. None"])
qed

end

end
