(* ===== verification/Whole_System.thy ===== *)
theory Whole_System
  imports System
begin

text \<open>
  The three modules in the whole system: each interprets \<open>module_system\<close>, its handlers being
  sequences of calls of the library, and with its load that gives one theorem per module: started
  together with the controller, no interleaving of handlers, packets, messages and environments
  reaches a state from which something fails.
\<close>

section \<open>tcp_neo\<close>

definition neo_handled :: "(nat \<Rightarrow> nat option option) \<Rightarrow> neo_event \<Rightarrow> bool" where
  "neo_handled C e \<longleftrightarrow> neo_allowed C e \<and> (\<forall>p. e \<noteq> Neo_Packet p)"

lemma neo_release_calls:
  "neo_release dp sk w = Inr r \<Longrightarrow> library_calls (kw_alloc A) cs tr (dp, w) r"
  by (auto simp: neo_release_def rbind_eq_Inr intro!: calls_then_idle [OF calls_release])

lemma neo_ack_calls:
  assumes "neo_cong_control dp sk rs w = Inr (dp', w')"
  shows "library_calls (kw_alloc A) cs tr (dp, w) (dp', w')"
proof -
  have end_calls: "library_calls (kw_alloc A) cs tr (dp1, w1) (dp2, w2)"
    if "neo_control_end dp1 sk w1 = Inr (dp2, w2)" for dp1 w1 dp2 w2
    using that by (auto simp: neo_control_end_def rbind_eq_Inr intro!: calls_idle)
  obtain s where s: "sock_ref w sk = Inr s" using assms by (auto simp: neo_cong_control_def rbind_eq_Inr)
  show ?thesis
  proof (cases "sint (rs_delivered rs) < 0 \<or> sint (rs_interval_us rs) < 0")
    case True
    with assms s have "neo_control_end dp sk (sock_put w sk (s\<lparr>sk_tp := neo_exit_recovery (sk_tp s) (sk_ca s)\<rparr>)) = Inr (dp', w')"
      by (simp add: neo_cong_control_def Let_def)
    from idle_then_calls [OF _ end_calls [OF this]] show ?thesis by simp
  next
    case False
    with assms s obtain s1 dp2 w2 where
      "(case neo_conn (sk_ca s) of None \<Rightarrow> Inr (dp, sock_put w sk s1)
        | Some i \<Rightarrow> rbind (spine_invoke dp (Some i) (sock_put w sk s1)) (\<lambda>(ok, dp', w'). Inr (dp', w'))) = Inr (dp2, w2)"
      and "neo_control_end dp2 sk w2 = Inr (dp', w')"
      by (auto simp: neo_cong_control_def rbind_eq_Inr Let_def)
    from idle_then_calls [OF _ library_calls_trans [OF calls_report [OF this(1)] end_calls [OF this(2)]]]
    show ?thesis by simp
  qed
qed

lemma neo_step_calls:
  assumes "neo_handled C e" and "neo_step K cs e (dp, w) = Inr (dp', w')"
  shows "library_calls (kw_alloc A) cs' tr (dp, w) (dp', w')"
proof (cases e)
  case (Neo_Ack sk rs)
  with assms neo_ack_calls show ?thesis by simp
next
  case (Neo_Sample sk smp)
  with assms obtain s where s: "sock_ref w sk = Inr s" by (auto simp: rbind_eq_Inr)
  obtain tp ca where acked: "neo_pkt_acked (sk_tp s) (sk_ca s) smp = (tp, ca)" by fastforce
  have "dp' = dp" "w' = sock_put w sk \<lparr>sk_tp = tp, sk_ca = ca\<rparr>"
    using assms(2) Neo_Sample s acked by simp_all
  then show ?thesis by (auto intro!: calls_idle)
qed (use assms in \<open>auto simp: neo_handled_def rbind_eq_Inr Let_def intro!: calls_idle split: prod.splits\<close>)

lemma neo_init_calls:
  assumes A: "silent tr A" and init: "neo_init K A dp sk w = Inr (dp', w')"
  shows "library_calls (kw_alloc A) cs tr (dp, w) (dp', w')"
proof -
  obtain s where s: "sock_ref w sk = Inr s" using init unfolding neo_init_def rbind_eq_Inr by blast
  obtain ok w1 where alloc: "kw_alloc A w = (ok, w1)" by fastforce
  then have w1: "tr (kw_env w1) = tr (kw_env w)" using silent_alloc [OF A, of w] by simp
  note init' = init [unfolded neo_init_def s rbind.simps Let_def alloc prod.case]
  show ?thesis
  proof (cases ok)
    case False
    then have "dp' = dp" "w' = sock_put w1 sk (s\<lparr>sk_ca := (neo_reset (sk_ca s))\<lparr>intervals := KNull\<rparr>\<rparr>)"
      using init' by (simp_all only: not_False_eq_True if_True sum.inject prod.inject)
    with w1 show ?thesis by (simp only: calls_idle kw_env_put)
  next
    case True
    let ?w2 = "w1\<lparr>kw_id := kw_id w1 + 1\<rparr>"
    let ?ca1 = "neo_init_fields (kw_id ?w2) (neo_reset (sk_ca s))"
    from init' True have rest: "rbind (start_interval (sk_tp s) ?ca1) (\<lambda>(tp1, ca2).
       rbind (spine_connection_start (kw_alloc A) dp sk (dp_info_of tp1 ''neo'' SPINE_NEO)
                (sock_put ?w2 sk \<lparr>sk_tp = tp1, sk_ca = ca2\<rparr>)) (\<lambda>(conn, dp1, w3).
       rbind (sock_ref w3 sk) (\<lambda>s3.
         let tp = sk_tp s3;
             tp2 = (if ecn_flags tp AND TCP_ECN_OK = 0 then INET_ECN_dontxmit K tp else tp) in
         Inr (dp1, sock_put w3 sk \<lparr>sk_tp = need_pacing tp2,
                                    sk_ca = (sk_ca s3)\<lparr>neo_conn := conn\<rparr>\<rparr>)))) = Inr (dp', w')"
      by (simp only: Let_def not_True_eq_False if_False)
    obtain tp1 ca2 conn w3 where
      start: "spine_connection_start (kw_alloc A) dp sk (dp_info_of tp1 ''neo'' SPINE_NEO)
        (sock_put ?w2 sk \<lparr>sk_tp = tp1, sk_ca = ca2\<rparr>) = Inr (conn, dp', w3)"
      and w': "kw_env w' = kw_env w3"
      using rest by (auto simp: rbind_eq_Inr Let_def split: prod.split_asm)
    show ?thesis
      using idle_then_calls [OF _ calls_then_idle [OF calls_start [OF start]], of tr w w'] w1 w'
      by (simp add: MAX_CONG_ALG_SIZE_def)
  qed
qed

interpretation neo_system: module_system neo_conn neo_sock_ok neo_set_params "Some neo_fetch_measurements"
  T tzero N "\<lambda>_ :: unit. neo_init K A" neo_release "neo_step K cs"
  "\<lambda>s. memory_granted A \<and> ecn_keeps_sock K \<and> neo_fits s" neo_allowed A cs tr neo_handled True
  for T :: "('e, 'ts) time_api" and tzero :: 'ts and N :: "'e nl_api" and K and A :: "'e \<Rightarrow> bool \<times> 'e" and cs
    and tr :: "'e \<Rightarrow> u8 list set"
proof
  fix s :: "neo_data ksock" and dp and w :: "'e neo_world" and sk r and p :: unit
  assume "silent tr A" "neo_init K A dp sk (sock_put w sk s) = Inr r"
  then show "library_calls (kw_alloc A) cs tr (dp, w) r"
    using idle_then_calls [OF _ neo_init_calls [of tr A K dp sk "sock_put w sk s"], of w]
    by (cases r) simp
next
  fix C e dp and w :: "'e neo_world" and r
  assume "neo_handled C e" "neo_step K cs e (dp, w) = Inr r"
  then show "library_calls (kw_alloc A) cs tr (dp, w) r" using neo_step_calls by (cases r) simp
next
  fix dp :: "'e neo_world spine_datapath"
  assume "uses_cc neo_set_params (Some neo_fetch_measurements) dp"
  then show "quiet_callbacks tr dp" by (auto simp: uses_cc_def intro: modules_quiet(1))
qed (simp_all add: neo_release_calls neo_handled_def)

section \<open>tcp_vanilla\<close>

definition vanilla_handled :: "(nat \<Rightarrow> nat option option) \<Rightarrow> vanilla_event \<Rightarrow> bool" where
  "vanilla_handled C e \<longleftrightarrow> vanilla_allowed C e \<and> (\<forall>p. e \<noteq> Van_Packet p)"

lemma vanilla_release_calls:
  "vanilla_release dp sk w = Inr r \<Longrightarrow> library_calls (kw_alloc A) cs tr (dp, w) r"
  by (cases r) (auto simp: vanilla_release_def rbind_eq_Inr intro: calls_release)

lemma on_sock_env: "on_sock w sk f = Inr w' \<Longrightarrow> kw_env w' = kw_env w"
  by (auto simp: on_sock_def rbind_eq_Inr)

lemma vanilla_ack_calls:
  assumes "vanilla_cong_control K dp sk rs w = Inr (dp', w')"
  shows "library_calls (kw_alloc A) cs tr (dp, w) (dp', w')"
proof -
  obtain s where s: "sock_ref w sk = Inr s" using assms unfolding vanilla_cong_control_def rbind_eq_Inr by blast
  have end_calls: "library_calls (kw_alloc A) cs tr (dp1, w1) (dp2, w2)"
    if "vanilla_control_end K dp1 sk n w1 = Inr (dp2, w2)" for dp1 w1 dp2 w2 n
    using that by (auto simp: vanilla_control_end_def rbind_eq_Inr intro!: calls_idle)
  consider (slow) tp1 ca1 where "dp' = dp" "w' = sock_put w sk \<lparr>sk_tp = tp1, sk_ca = ca1\<rparr>"
    | (stay) "dp' = dp" "w' = w"
    | (report) dp1 w1 where "(case van_conn (sk_ca s) of None \<Rightarrow> Inr (dp, w)
        | Some i \<Rightarrow> rbind (spine_invoke dp (Some i) w) (\<lambda>(ok, dp', w'). Inr (dp', w'))) = Inr (dp1, w1)"
        "vanilla_control_end K dp1 sk (rs_acked_sacked rs) w1 = Inr (dp', w')"
    using assms s by (auto simp: vanilla_cong_control_def rbind_eq_Inr Let_def split: if_splits)
  then show ?thesis
  proof cases
    case report
    from library_calls_trans [OF calls_report [OF report(1)] end_calls [OF report(2)]] show ?thesis .
  qed (auto intro!: calls_idle)
qed

lemma vanilla_step_calls:
  assumes "vanilla_handled C e" and "vanilla_step K cs e (dp, w) = Inr (dp', w')"
  shows "library_calls (kw_alloc A) cs' tr (dp, w) (dp', w')"
proof (cases e)
  case (Van_Ack sk rs)
  with assms vanilla_ack_calls show ?thesis by simp
qed (use assms in \<open>auto simp: vanilla_handled_def rbind_eq_Inr dest!: on_sock_env intro!: calls_idle\<close>)

lemma vanilla_init_calls:
  assumes "vanilla_init K A dp sk w = Inr (dp', w')"
  shows "library_calls (kw_alloc A) cs tr (dp, w) (dp', w')"
proof -
  obtain s where s: "sock_ref w sk = Inr s" using assms unfolding vanilla_init_def rbind_eq_Inr by blast
  let ?w0 = "sock_put w sk (s\<lparr>sk_ca := vanilla_reset (sk_ca s)\<rparr>)"
  obtain conn w1 where
    start: "spine_connection_start (kw_alloc A) dp sk (dp_info_of (sk_tp s) ''vanilla'' SPINE_VANILLA) ?w0 = Inr (conn, dp', w1)"
    and w': "kw_env w' = kw_env w1"
    using assms s by (auto simp: vanilla_init_def rbind_eq_Inr Let_def)
  show ?thesis
    using idle_then_calls [OF _ calls_then_idle [OF calls_start [OF start]], of tr w w'] w'
    by (simp add: MAX_CONG_ALG_SIZE_def)
qed

interpretation vanilla_system: module_system van_conn vanilla_sock_ok vanilla_set_params None
  T tzero N "\<lambda>_ :: unit. vanilla_init K A" vanilla_release "vanilla_step K cs"
  "\<lambda>s. memory_granted A \<and> vanilla_fits s" vanilla_allowed A cs tr vanilla_handled True
  for T :: "('e, 'ts) time_api" and tzero :: 'ts and N :: "'e nl_api" and K and A :: "'e \<Rightarrow> bool \<times> 'e" and cs
    and tr :: "'e \<Rightarrow> u8 list set"
proof
  fix s :: "vanilla ksock" and dp and w :: "'e vanilla_world" and sk r and p :: unit
  assume "vanilla_init K A dp sk (sock_put w sk s) = Inr r"
  then show "library_calls (kw_alloc A) cs tr (dp, w) r"
    using idle_then_calls [OF _ vanilla_init_calls [of K A dp sk "sock_put w sk s"], of tr w]
    by (cases r) simp
next
  fix C e dp and w :: "'e vanilla_world" and r
  assume "vanilla_handled C e" "vanilla_step K cs e (dp, w) = Inr r"
  then show "library_calls (kw_alloc A) cs tr (dp, w) r" using vanilla_step_calls by (cases r) simp
next
  fix dp :: "'e vanilla_world spine_datapath"
  assume "uses_cc vanilla_set_params None dp"
  then show "quiet_callbacks tr dp" by (auto simp: uses_cc_def intro: modules_quiet(2))
qed (simp_all add: vanilla_release_calls vanilla_handled_def)

section \<open>tcp_scubic\<close>

text \<open>The clocks the module reads itself add no message either.\<close>

definition silent_clocks :: "('e \<Rightarrow> 'o) \<Rightarrow> 'e clock_api \<Rightarrow> bool" where
  "silent_clocks tr J \<longleftrightarrow> (\<forall>e. tr (snd (tcp_jiffies32 J e)) = tr e \<and> tr (snd (ktime_real_ms J e)) = tr e \<and>
     tr (snd (jiffies_ms J e)) = tr e)"

lemma clock_reads:
  assumes "silent_clocks tr J"
  shows "tcp_jiffies32 J e = (t, e') \<Longrightarrow> tr e' = tr e" and "bictcp_clock J e = (t, e') \<Longrightarrow> tr e' = tr e"
proof -
  have reads: "tr (snd (tcp_jiffies32 J e)) = tr e" "tr (snd (ktime_real_ms J e)) = tr e" "tr (snd (jiffies_ms J e)) = tr e"
    using assms by (simp_all add: silent_clocks_def)
  show "tcp_jiffies32 J e = (t, e') \<Longrightarrow> tr e' = tr e" using reads(1) by (simp only: snd_conv)
  show "bictcp_clock J e = (t, e') \<Longrightarrow> tr e' = tr e" using reads(2,3)
    unfolding bictcp_clock_def by (cases "kernel_HZ J < 1000") (simp_all only: if_True if_False snd_conv)
qed

lemma hystart_reset_env:
  assumes "silent_clocks tr J" and "bictcp_hystart_reset J tp ca e = (ca', e')"
  shows "tr e' = tr e"
proof -
  obtain now e1 where clock: "bictcp_clock J e = (now, e1)" by fastforce
  with assms(2) have "e' = e1" unfolding bictcp_hystart_reset_def Let_def by simp
  with clock_reads(2) [OF assms(1) clock] show ?thesis by simp
qed

lemma recompute_env:
  assumes J: "silent_clocks tr J" and rec: "bictcp_recompute J ca cwnd acked e = Inr (ca', e')"
  shows "tr e' = tr e"
proof -
  obtain now e1 where e1: "tcp_jiffies32 J e = (now, e1)" by fastforce
  obtain ca2 e2 where epoch: "bictcp_start_epoch J (ca\<lparr>last_cwnd := cwnd, last_time := now\<rparr>) cwnd acked e1 = Inr (ca2, e2)"
    and curve: "bictcp_curve J ca2 cwnd e2 = Inr (ca', e')"
    using rec e1 by (auto simp: bictcp_recompute_def rbind_eq_Inr)
  have "tr e2 = tr e1"
    using epoch by (auto simp: bictcp_start_epoch_def rbind_eq_Inr Let_def split: if_splits prod.splits dest: clock_reads(1) [OF J])
  moreover have "tr e' = tr e2"
    using curve by (auto simp: bictcp_curve_def rbind_eq_Inr Let_def split: prod.splits dest: clock_reads(1) [OF J])
  ultimately show ?thesis using clock_reads(1) [OF J e1] by simp
qed

lemma update_env:
  assumes J: "silent_clocks tr J" and upd: "bictcp_update J P ca cwnd acked e = Inr (ca', e')"
  shows "tr e' = tr e"
proof -
  let ?ca0 = "ca\<lparr>ack_cnt := ack_cnt ca + acked\<rparr>"
  obtain soon e0 where soon: "update_too_soon J ?ca0 cwnd e = (soon, e0)" by fastforce
  obtain same e1 where same: "same_jiffy J ?ca0 e0 = (same, e1)" by fastforce
  have e0: "tr e0 = tr e" using soon by (auto simp: update_too_soon_def split: if_splits prod.splits dest: clock_reads(1) [OF J])
  have e1: "tr e1 = tr e0" using same by (auto simp: same_jiffy_def split: if_splits prod.splits dest: clock_reads(1) [OF J])
  show ?thesis
  proof (cases soon)
    case True
    with upd soon e0 show ?thesis by (simp add: bictcp_update_def)
  next
    case False
    with upd soon same obtain ca1 where
      "(if same then Inr (?ca0, e1) else bictcp_recompute J ?ca0 cwnd acked e1) = Inr (ca1, e')"
      unfolding bictcp_update_def Let_def by (auto simp: rbind_eq_Inr)
    then have "tr e' = tr e1" by (auto split: if_splits dest: recompute_env [OF J])
    with e0 e1 show ?thesis by simp
  qed
qed

lemma grow_env:
  assumes J: "silent_clocks tr J" and grow: "bictcp_grow K J P s ack acked e = Inr (s', e')"
  shows "tr e' = tr e"
proof (cases "tcp_is_cwnd_limited K (sk_tp s)")
  case False
  with grow show ?thesis by (simp add: bictcp_grow_def)
next
  case True
  let ?slow = "tcp_in_slow_start K (sk_tp s)"
  obtain ca1 e1 where ca1: "(if ?slow \<and> cfg_hystart P \<noteq> 0 \<and> seq_after ack (end_seq (sk_ca s))
      then bictcp_hystart_reset J (sk_tp s) (sk_ca s) e else (sk_ca s, e)) = (ca1, e1)" by fastforce
  then have e1: "tr e1 = tr e" by (auto split: if_splits dest: hystart_reset_env [OF J])
  obtain acked1 tp1 where tp1: "(if ?slow then tcp_slow_start K (sk_tp s) acked else (acked, sk_tp s)) = (acked1, tp1)"
    by fastforce
  have "e' = e1 \<or> (\<exists>ca2. bictcp_update J P ca1 (snd_cwnd tp1) acked1 e1 = Inr (ca2, e'))"
    using grow True unfolding bictcp_grow_def Let_def ca1 tp1 prod.case by (auto simp: rbind_eq_Inr split: if_splits)
  with e1 show ?thesis by (auto dest: update_env [OF J])
qed

lemma acked_env:
  assumes J: "silent_clocks tr J" and acked: "bictcp_acked K J P tp ca smp e = (tp', ca', e')"
  shows "tr e' = tr e"
proof -
  have train: "tr e2 = tr e1" if "hystart_train J P tp ca e1 = (tp2, ca2, e2)" for tp ca e1 tp2 ca2 e2
    using that by (auto simp: hystart_train_def Let_def split: if_splits prod.splits dest: clock_reads(2) [OF J])
  have upd: "tr e2 = tr e1" if "hystart_update J P tp ca d e1 = (tp2, ca2, e2)" for tp ca d e1 tp2 ca2 e2
    using that by (auto simp: hystart_update_def Let_def split: if_splits prod.splits dest: train)
  obtain now e1 where e1: "(if epoch_start ca \<noteq> 0 then tcp_jiffies32 J e else (0, e)) = (now, e1)" by fastforce
  then have "tr e1 = tr e" by (auto split: if_splits dest: clock_reads(1) [OF J])
  moreover have "e' = e \<or> e' = e1 \<or> (\<exists>ca1 d tp2 ca2. hystart_update J P tp ca1 d e1 = (tp2, ca2, e'))"
    using acked unfolding bictcp_acked_def Let_def e1 prod.case by (auto split: if_splits)
  ultimately show ?thesis by (auto dest: upd)
qed

lemma cwnd_event_env:
  assumes "silent_clocks tr J" and "bictcp_cwnd_event J tp ca ev e = (ca', e')"
  shows "tr e' = tr e"
  using assms(2) by (auto simp: bictcp_cwnd_event_def Let_def split: if_splits prod.splits dest: clock_reads(1) [OF assms(1)])

lemma state_env:
  assumes "silent_clocks tr J" and "bictcp_state J tp ca st e = (ca', e')"
  shows "tr e' = tr e"
  using assms(2) by (auto simp: bictcp_state_def split: if_splits dest: hystart_reset_env [OF assms(1)])

definition scubic_handled :: "(nat \<Rightarrow> nat option option) \<Rightarrow> scubic_config \<times> scubic_event \<Rightarrow> bool" where
  "scubic_handled C e \<longleftrightarrow> scubic_allowed C e \<and> (\<forall>p. snd e \<noteq> Sc_Packet p)"

lemma scubic_release_calls:
  "bictcp_release dp sk w = Inr r \<Longrightarrow> library_calls (kw_alloc A) cs tr (dp, w) r"
  by (cases r) (auto simp: bictcp_release_def rbind_eq_Inr intro: calls_release)

lemma scubic_ack_calls:
  assumes J: "silent_clocks tr J" and ack: "bictcp_cong_avoid K J P dp sk ack acked w = Inr (dp', w')"
  shows "library_calls (kw_alloc A) cs tr (dp, w) (dp', w')"
proof -
  obtain s where s: "sock_ref w sk = Inr s" using ack unfolding bictcp_cong_avoid_def rbind_eq_Inr by blast
  obtain w1 s1 s2 e2 where inv: "(case bt_conn (sk_ca s) of None \<Rightarrow> Inr (dp, w)
      | Some i \<Rightarrow> rbind (spine_invoke dp (Some i) w) (\<lambda>(ok, dp', w'). Inr (dp', w'))) = Inr (dp', w1)"
    and grow: "bictcp_grow K J P s1 ack acked (kw_env w1) = Inr (s2, e2)"
    and w': "w' = sock_put (w1\<lparr>kw_env := e2\<rparr>) sk s2"
    using ack s by (auto simp: bictcp_cong_avoid_def rbind_eq_Inr)
  show ?thesis
    by (rule calls_then_idle [OF calls_report [OF inv]]) (simp add: w' grow_env [OF J grow])
qed

lemma on_flow_env:
  assumes "on_flow w sk f = Inr w'" and "\<And>s e. tr (snd (f s e)) = tr e"
  shows "tr (kw_env w') = tr (kw_env w)"
proof -
  obtain s where s: "sock_ref w sk = Inr s" using assms(1) unfolding on_flow_def rbind_eq_Inr by blast
  obtain s' e' where f: "f s (kw_env w) = (s', e')" by fastforce
  with assms(1) s have "w' = sock_put (w\<lparr>kw_env := e'\<rparr>) sk s'" by (simp add: on_flow_def)
  with assms(2) [of s "kw_env w"] f show ?thesis by simp
qed

lemma scubic_step_calls:
  assumes J: "silent_clocks tr J" and e: "scubic_handled C e" and step: "scubic_step K J cs e (dp, w) = Inr (dp', w')"
  shows "library_calls (kw_alloc A) cs' tr (dp, w) (dp', w')"
proof -
  obtain P ev where pair: "e = (P, ev)" by (cases e)
  have flow: "library_calls (kw_alloc A) cs' tr (dp, w) (dp', w')"
    if on: "rbind (on_flow w sk f) (\<lambda>w'. Inr (dp, w')) = Inr (dp', w')"
      and env: "\<And>s e. tr (snd (f s e)) = tr e" for sk f
  proof -
    from on have "dp' = dp" "on_flow w sk f = Inr w'" by (auto simp: rbind_eq_Inr)
    with on_flow_env [where tr = tr, OF this(2) env] show ?thesis by (simp add: calls_idle)
  qed
  have acked: "tr (snd (snd (bictcp_acked K J P tp ca smp e))) = tr e" for tp ca smp e
    using acked_env [OF J] by (metis prod.collapse)
  have state: "tr (snd (bictcp_state J tp ca st e)) = tr e" for tp ca st e
    using state_env [OF J] by (metis prod.collapse)
  have event: "tr (snd (bictcp_cwnd_event J tp ca ev e)) = tr e" for tp ca ev e
    using cwnd_event_env [OF J] by (metis prod.collapse)
  show ?thesis
  proof (cases ev)
    case (Sc_Ack sk ack acked)
    with step pair show ?thesis by (auto intro: scubic_ack_calls [OF J])
  next
    case (Sc_Sample sk smp)
    with step pair show ?thesis
      by (intro flow [of sk]) (simp, simp only: Let_def case_prod_unfold snd_conv acked)
  next
    case (Sc_State sk st)
    with step pair show ?thesis
      by (intro flow [of sk]) (simp, simp only: Let_def case_prod_unfold snd_conv state)
  next
    case (Sc_Event sk ca_ev)
    with step pair show ?thesis
      by (intro flow [of sk]) (simp, simp only: Let_def case_prod_unfold snd_conv event)
  next
    case (Sc_Packet p)
    with e pair show ?thesis by (simp add: scubic_handled_def)
  qed (use step pair in \<open>auto intro!: flow simp: Let_def\<close>)
qed

lemma scubic_init_calls:
  assumes J: "silent_clocks tr J" and init: "bictcp_init K J P A dp sk w = Inr (dp', w')"
  shows "library_calls (kw_alloc A) cs tr (dp, w) (dp', w')"
proof -
  obtain s where s: "sock_ref w sk = Inr s" using init unfolding bictcp_init_def rbind_eq_Inr by blast
  obtain tp1 ca1 e1 conn w1 where st: "bictcp_init_state J P (sk_tp s) (sk_ca s) (kw_env w) = Inr (tp1, ca1, e1)"
    and start: "spine_connection_start (kw_alloc A) dp sk (dp_info_of tp1 ''scubic'' SPINE_CUBIC)
      (sock_put (w\<lparr>kw_env := e1\<rparr>) sk \<lparr>sk_tp = tp1, sk_ca = ca1\<rparr>) = Inr (conn, dp', w1)"
    and w': "kw_env w' = kw_env w1"
    using init s by (auto simp: bictcp_init_def rbind_eq_Inr Let_def)
  obtain ca2 e2 where reset: "(if cfg_hystart P \<noteq> 0 then bictcp_hystart_reset J (sk_tp s) (bictcp_reset (sk_ca s)) (kw_env w)
      else (bictcp_reset (sk_ca s), kw_env w)) = (ca2, e2)" by fastforce
  have "e1 = e2" using st unfolding bictcp_init_state_def Let_def reset prod.case by (auto simp: rbind_eq_Inr)
  moreover have "tr e2 = tr (kw_env w)" using reset by (auto split: if_splits dest: hystart_reset_env [OF J])
  ultimately show ?thesis
    using idle_then_calls [OF _ calls_then_idle [OF calls_start [OF start]], of tr w w'] w'
    by (simp add: MAX_CONG_ALG_SIZE_def)
qed

interpretation scubic_system: module_system bt_conn scubic_sock_ok scubic_set_params None
  T tzero N "\<lambda>P. bictcp_init K J P A" bictcp_release "scubic_step K J cs"
  "\<lambda>s. memory_granted A \<and> ecn_keeps_sock K \<and> scubic_fits s"
  "\<lambda>C e. tcp_laws K \<and> clock_ok J \<and> scubic_allowed C e" A cs tr
  "\<lambda>C e. tcp_laws K \<and> clock_ok J \<and> scubic_handled C e" "silent_clocks tr J"
  for T :: "('e, 'ts) time_api" and tzero :: 'ts and N :: "'e nl_api" and K and J :: "'e clock_api"
    and A :: "'e \<Rightarrow> bool \<times> 'e" and cs and tr :: "'e \<Rightarrow> u8 list set"
proof
  fix s :: "bictcp ksock" and dp and w :: "'e scubic_world" and sk r P
  assume "silent_clocks tr J" "bictcp_init K J P A dp sk (sock_put w sk s) = Inr r"
  then show "library_calls (kw_alloc A) cs tr (dp, w) r"
    using idle_then_calls [OF _ scubic_init_calls [of tr J K P A dp sk "sock_put w sk s"], of w]
    by (cases r) simp
next
  fix C e dp and w :: "'e scubic_world" and r
  assume "silent_clocks tr J" "tcp_laws K \<and> clock_ok J \<and> scubic_handled C e" "scubic_step K J cs e (dp, w) = Inr r"
  then show "library_calls (kw_alloc A) cs tr (dp, w) r" using scubic_step_calls by (cases r) blast
next
  fix dp :: "'e scubic_world spine_datapath"
  assume "uses_cc scubic_set_params None dp"
  then show "quiet_callbacks tr dp" by (auto simp: uses_cc_def intro: modules_quiet(3))
qed (simp_all add: scubic_release_calls scubic_handled_def)

section \<open>Loading puts one message on the wire\<close>

lemma init_wire:
  assumes tr: "traced T N tr" and w: "wire R tr w" and init: "spine_init (Some dp) 0 w = Inr (r, dp', w')"
    and cb: "dp_send_msg dp = Some (kw_send N)" "dp_now dp = Some (kw_now T tz)"
  shows "wire R tr w'"
proof (cases "spine_missing_arg dp")
  case True
  with init w show ?thesis by (simp add: spine_init_def)
next
  case False
  let ?msg = "header_bytes \<lparr>hdr_Type = READY, hdr_Len = 12, hdr_SocketId = 0\<rparr> @ to_le 4 (0 :: u32)"
  have msg: "write_ready_msg (replicate READY_MSG_SIZE 0) (int READY_MSG_SIZE) 0 = Inr (12, ?msg)"
    using write_ready_msg_ok [of "replicate 12 0" 0] by (simp add: READY_MSG_SIZE_def)
  from init False obtain r1 w1 where send: "kw_send N ?msg (int READY_MSG_SIZE) w = Inr (r1, w1)"
    and w': "w' = snd (kw_now T tz w1)"
    unfolding spine_init_def option.case msg cb by (auto simp: rbind_eq_Inr Let_def case_prod_unfold)
  obtain t w2 where now: "kw_now T tz w1 = (t, w2)" by fastforce
  have "kernel_msg R ?msg" by (rule kernel_msg_header) (simp_all add: c_consts)
  moreover have "take (nat (int READY_MSG_SIZE)) ?msg = ?msg"
    by (simp add: READY_MSG_SIZE_def header_bytes_def)
  ultimately have "wire R tr w1" using wire_send [OF tr w send] by (simp only:)
  from wire_clock(1) [OF tr this now] show ?thesis by (simp add: w' now)
qed

lemma load_wire:
  assumes tr: "traced T N tr" and w: "wire R tr w" and load: "register_module T cs install L m w = Inr (r, tz, m', w')"
    and install: "\<And>dp. dp_send_msg (install dp) = Some (kw_send N)" "\<And>dp. dp_now (install dp) = dp_now dp"
    and L: "kmalloc_block L = Some block" "kzalloc_table L" "nl_create_ok L"
  shows "wire R tr w'"
proof -
  obtain t e1 where t: "ktime_get_real_ts64 T (kw_env w) = (t, e1)" by fastforce
  then have e1: "wire R tr (w\<lparr>kw_env := e1\<rparr>)" using tr w by (metis kworld.simps(3) kworld.ext_inject kworld.surjective kworld.update_convs(3) snd_conv traced_def wire_def)
  let ?dp = "install (datapath_basics T t block True)"
  from load t L obtain r2 dp3 where "spine_init (Some ?dp) 0 (w\<lparr>kw_env := e1\<rparr>) = Inr (r2, dp3, w')"
    by (auto simp: register_module_def rbind_eq_Inr Let_def spine_nl_sk_def split: if_splits)
  moreover have "dp_now ?dp = Some (kw_now T t)" by (simp add: install(2)) (simp add: datapath_basics_def)
  ultimately show ?thesis using init_wire [OF tr e1 _ install(1)] by blast
qed

section \<open>The three systems\<close>

lemma fits_laws:
  "memory_granted A \<Longrightarrow> ecn_keeps_sock K \<Longrightarrow> (\<lambda>s. memory_granted A \<and> ecn_keeps_sock K \<and> fits s) = fits"
  "memory_granted A \<Longrightarrow> (\<lambda>s. memory_granted A \<and> fits s) = fits"
  by simp_all

text \<open>
  For the witnesses: a kernel that keeps the messages it multicasts and says yes to a load, and a
  run in which the stack opens a socket and an environment registers.
\<close>

definition demo_log_yes :: "('ca, demo_log) kworld load_answers" where
  "demo_log_yes = \<lparr>kmalloc_block = Some \<lparr>dp_set_params = None, dp_fetch_measurements = None, dp_send_msg = None,
     dp_time_zero = 7, dp_now = None, dp_since_usecs = None, dp_after_usecs = None, dp_max_connections = 5,
     dp_connections = None, dp_fto_us = 3, dp_last_msg_sent = 9, dp_in_fallback = True\<rparr>,
     kzalloc_table = True, nl_create_ok = True, tcp_register_ret = 0\<rparr>"

definition demo_log_unloaded :: "('ca, demo_log) kworld module_state" where
  "demo_log_unloaded = \<lparr>kernel_datapath = KNull, module_nl = \<lparr>nl_reader = None, nl_sk = False\<rparr>, table_freed = False,
     ops_registered = False\<rparr>"

definition demo_log_idle :: "('ca, demo_log) kworld" where
  "demo_log_idle = \<lparr>kw_socks = (\<lambda>_. None), kw_id = 0, kw_env = (5000, [])\<rparr>"

lemma demo_log_fields [simp]:
  "\<exists>block. kmalloc_block demo_log_yes = Some block \<and> dp_fetch_measurements block = None"
  "kzalloc_table demo_log_yes" "nl_create_ok demo_log_yes" "tcp_register_ret demo_log_yes = 0"
  "kw_socks demo_log_idle = (\<lambda>_. None)" "demo_trace (kw_env demo_log_idle) = {}"
  by (simp_all add: demo_log_yes_def demo_log_idle_def demo_trace_def)

definition demo_grant :: "demo_log \<Rightarrow> bool \<times> demo_log" where
  "demo_grant e = (True, e)"

lemma demo_grant_laws [simp]: "memory_granted demo_grant" "silent demo_trace demo_grant"
  by (simp_all add: memory_granted_def silent_def demo_grant_def)

lemma demo_system_run:
  assumes "nothing_fails handle may True demo_hash tr ([], dp1, w1, process_start, {})" and "may [] (Flow_Open x sk s)"
  shows "\<exists>dp w p. system_reach handle may True demo_hash CC_Neo tr ([], dp1, w1, process_start, {}) ([sk], dp, w, p, {}) \<and>
    Env_Fd 4 \<in> set (watched p)"
proof -
  let ?reach = "system_reach handle may True demo_hash CC_Neo tr ([], dp1, w1, process_start, {})"
  obtain p where serve: "process_step demo_hash CC_Neo (Accept 4 (Some (init_msg ''env''))) process_start = ([], p)"
    and p: "Env_Fd 4 \<in> set (watched p)"
    by (simp add: process_start_def accept_unix_conn_def init_msg_def)
  obtain dp w where "handle (Flow_Open x sk s) (dp1, w1) = Inr (dp, w)"
    using assms by (auto simp: nothing_fails_def)
  from system_step.handler [where may = may and handle = handle, OF assms(2) this]
  have "?reach ([sk], dp, w, process_start, {})" by (intro system_reach.further [OF system_reach.start]) simp
  then have "?reach ([sk], dp, w, p, {} \<union> packets [])"
    by (rule system_reach.further) (rule system_step.serve [OF _ serve], simp add: concerns_def)
  with p show ?thesis by (auto simp: packets_def)
qed

text \<open>C1: The neo system never fails: load the module when the kernel grants every allocation and
  start the controller; then, whatever the order of the stack's openings, handler calls and
  closings, of deliveries of messages and packets (delayed, reordered, repeated or lost), of new
  environments, their requests and hang-ups, in every state reached any handler the stack may call
  returns without a fault, any packet the controller has sent is received without a fault, and the
  controller still listens to the kernel and handles any message it has multicast without an
  exception. Nothing is assumed about what one side sends the other.\<close>

theorem neo_system_never_fails:
  fixes w0 :: "'e neo_world" and T :: "('e, 'ts) time_api"
  assumes "kmalloc_block L = Some block" and "kzalloc_table L" and "nl_create_ok L"
    and "kw_socks w0 = (\<lambda>_. None)" and "tr (kw_env w0) = {}" and "memory_granted A" and "ecn_keeps_sock K"
    and "traced T N tr" and "silent tr A" and "sender_keys cc"
    and "neo_register T N char_signed L m w0 = Inr (ret, tz, m1, w1)" and "kernel_datapath m1 = KLive dp1"
    and "system_reach (neo_life_step K A char_signed) (due 1024 neo_fits neo_handled) char_signed hash cc tr
      ([], dp1, w1, process_start, {}) (opn, dp, w, p, q)"
  shows "nothing_fails (neo_life_step K A char_signed) (due 1024 neo_fits neo_handled) char_signed hash tr (opn, dp, w, p, q)"
proof -
  have ok: "neo_ok T tz N (\<lambda>_. None) (dp1, w1)" and sl: "slots dp1 = replicate 1024 zero_connection"
    using neo_register_ready [OF assms(1-4), where T = T and N = N and char_signed = char_signed and m = m] assms(11,12)
    by auto
  have socks: "kw_socks w1 = (\<lambda>_. None)"
    using ok by (auto simp: neo_ok_def socks_ok_def)
  have "wire (\<lambda>_. False) tr w0" using assms(5) by (simp add: wire_def)
  then have wire: "wire (\<lambda>_. False) tr w1"
    by (rule load_wire [OF assms(8) _ assms(11) [unfolded neo_register_def] _ _ assms(1-3)]) simp_all
  note safe = neo_system.system_safe [where K = K and A = A and cs = char_signed,
      folded neo_life_step_def, unfolded fits_laws(1) [OF assms(6,7)]]
  have "system_ok neo_conn neo_sock_ok neo_set_params (Some neo_fetch_measurements) T tz N tr 1024 [] (dp1, w1, process_start, {})"
    using ok by (intro neo_system.loaded_ok [OF _ sl socks wire]) (simp add: neo_ok_def)
  then show ?thesis by (intro safe [OF assms(13,8,9) TrueI assms(10)]) simp
qed

theorem neo_system_never_fails_witness:
  "\<exists>tz m1 w1 dp1 dp w p.
    neo_register demo_log_time demo_log_nl True demo_log_yes demo_log_unloaded demo_log_idle = Inr (0, tz, m1, w1) \<and>
    kernel_datapath m1 = KLive dp1 \<and> Env_Fd 4 \<in> set (watched p) \<and>
    system_reach (neo_life_step demo_tcp demo_grant True) (due 1024 neo_fits neo_handled) True demo_hash CC_Neo demo_trace
      ([], dp1, w1, process_start, {}) ([7], dp, w, p, {}) \<and>
    nothing_fails (neo_life_step demo_tcp demo_grant True) (due 1024 neo_fits neo_handled) True demo_hash demo_trace
      ([7], dp, w, p, {})"
proof -
  obtain block :: "demo_log neo_world spine_datapath" where block: "kmalloc_block demo_log_yes = Some block"
    using demo_log_fields(1) by blast
  obtain tz m1 w1 dp1 where load: "neo_register demo_log_time demo_log_nl True demo_log_yes demo_log_unloaded demo_log_idle =
      Inr (0, tz, m1, w1 :: demo_log neo_world)" and dp1: "kernel_datapath m1 = KLive dp1"
    using neo_register_ready [OF block, where w = demo_log_idle and T = demo_log_time and N = demo_log_nl
        and char_signed = True and m = demo_log_unloaded] by auto
  have keeps: "ecn_keeps_sock demo_tcp" by (simp add: ecn_keeps_sock_def demo_tcp_def)
  note safe = neo_system_never_fails [OF block _ _ _ _ _ keeps demo_traced _ _ load dp1, where A = demo_grant]
  have "nothing_fails (neo_life_step demo_tcp demo_grant True) (due 1024 neo_fits neo_handled) True demo_hash demo_trace
      ([], dp1, w1, process_start, {})"
    by (rule safe [where cc = CC_Neo]) (simp_all add: system_reach.start)
  moreover have "due 1024 neo_fits neo_handled [] (Flow_Open () 7 \<lparr>sk_tp = demo_sock, sk_ca = demo_neo\<rparr>)"
    by (simp add: due_def neo_fits_def demo_sock_def)
  ultimately have "\<exists>dp w p. system_reach (neo_life_step demo_tcp demo_grant True) (due 1024 neo_fits neo_handled)
      True demo_hash CC_Neo demo_trace ([], dp1, w1, process_start, {}) ([7], dp, w, p, {}) \<and> Env_Fd 4 \<in> set (watched p)"
    by (rule demo_system_run)
  then obtain dp w p where run: "system_reach (neo_life_step demo_tcp demo_grant True) (due 1024 neo_fits neo_handled)
      True demo_hash CC_Neo demo_trace ([], dp1, w1, process_start, {}) ([7], dp, w, p, {})"
    and p: "Env_Fd 4 \<in> set (watched p)" by blast
  have "nothing_fails (neo_life_step demo_tcp demo_grant True) (due 1024 neo_fits neo_handled) True demo_hash demo_trace
      ([7], dp, w, p, {})"
    by (rule safe [OF _ _ _ _ _ _ _ run]) simp_all
  with load dp1 run p show ?thesis by blast
qed

text \<open>The load of the two window-based modules.\<close>

lemma window_module_starts:
  fixes w0 :: "('ca, 'e) kworld" and T :: "('e, 'ts) time_api"
  assumes L: "kmalloc_block L = Some block" "kzalloc_table L" "nl_create_ok L"
    and block: "dp_fetch_measurements block = None" and w0: "kw_socks w0 = (\<lambda>_. None)" "tr (kw_env w0) = {}"
    and tr: "traced T N tr"
    and load: "register_module T cs (\<lambda>dp. dp\<lparr>dp_set_params := Some setp, dp_send_msg := Some (kw_send N)\<rparr>) L m w0 =
      Inr (ret, tz, m1, w1)"
    and dp1: "kernel_datapath m1 = KLive dp1"
  shows "flows_ok setp None T tz N (\<lambda>_. None) dp1" and "slots dp1 = replicate 1024 zero_connection"
    and "kw_socks w1 = (\<lambda>_. None)" and "wire (\<lambda>_. False) tr w1"
proof -
  obtain t where "dp1 = loaded_dp T tz N setp None t" and socks: "kw_socks w1 = kw_socks w0"
    using register_window_module [OF L, where T = T and cs = cs and setp = setp and N = N and m = m and w = w0]
      load dp1 block by auto
  then show "flows_ok setp None T tz N (\<lambda>_. None) dp1" "slots dp1 = replicate 1024 zero_connection"
    "kw_socks w1 = (\<lambda>_. None)"
    using flows_ok_loaded w0(1) by (simp_all add: MAX_ACTIVE_FLOWS_def)
  have "wire (\<lambda>_. False) tr w0" using w0(2) by (simp add: wire_def)
  then show "wire (\<lambda>_. False) tr w1" by (rule load_wire [OF tr _ load _ _ L]) simp_all
qed

text \<open>C3: The vanilla system never fails: the same of tcp_vanilla, loaded into a block that holds no
  stale fetch callback, with the controller.\<close>

theorem vanilla_system_never_fails:
  fixes w0 :: "'e vanilla_world" and T :: "('e, 'ts) time_api"
  assumes "kmalloc_block L = Some block" and "kzalloc_table L" and "nl_create_ok L"
    and "dp_fetch_measurements block = None" and "kw_socks w0 = (\<lambda>_. None)" and "tr (kw_env w0) = {}"
    and "memory_granted A" and "traced T N tr" and "silent tr A" and "sender_keys cc"
    and "vanilla_register T N char_signed L m w0 = Inr (ret, tz, m1, w1)" and "kernel_datapath m1 = KLive dp1"
    and "system_reach (vanilla_life_step K A char_signed) (due 1024 vanilla_fits vanilla_handled) char_signed hash cc tr
      ([], dp1, w1, process_start, {}) (opn, dp, w, p, q)"
  shows "nothing_fails (vanilla_life_step K A char_signed) (due 1024 vanilla_fits vanilla_handled) char_signed hash tr
    (opn, dp, w, p, q)"
proof -
  note start = window_module_starts [OF assms(1-6,8) assms(11) [unfolded vanilla_register_def] assms(12)]
  note safe = vanilla_system.system_safe [where K = K and A = A and cs = char_signed,
      folded vanilla_life_step_def, unfolded fits_laws(2) [OF assms(7)]]
  show ?thesis
    using vanilla_system.loaded_ok [OF start] by (intro safe [OF assms(13,8,9) TrueI assms(10)]) simp
qed

theorem vanilla_system_never_fails_witness:
  "\<exists>tz m1 w1 dp1 dp w p.
    vanilla_register demo_log_time demo_log_nl True demo_log_yes demo_log_unloaded demo_log_idle = Inr (0, tz, m1, w1) \<and>
    kernel_datapath m1 = KLive dp1 \<and> Env_Fd 4 \<in> set (watched p) \<and>
    system_reach (vanilla_life_step demo_tcp demo_grant True) (due 1024 vanilla_fits vanilla_handled) True demo_hash CC_Neo demo_trace
      ([], dp1, w1, process_start, {}) ([7], dp, w, p, {}) \<and>
    nothing_fails (vanilla_life_step demo_tcp demo_grant True) (due 1024 vanilla_fits vanilla_handled) True demo_hash demo_trace
      ([7], dp, w, p, {})"
proof -
  obtain block :: "demo_log vanilla_world spine_datapath" where block: "kmalloc_block demo_log_yes = Some block"
    and fetch: "dp_fetch_measurements block = None"
    using demo_log_fields(1) by blast
  obtain tz m1 w1 dp1 where load: "vanilla_register demo_log_time demo_log_nl True demo_log_yes demo_log_unloaded demo_log_idle =
      Inr (0, tz, m1, w1 :: demo_log vanilla_world)" and dp1: "kernel_datapath m1 = KLive dp1"
    unfolding vanilla_register_def
    using register_window_module [OF block, where w = demo_log_idle and T = demo_log_time and N = demo_log_nl
        and cs = True and m = demo_log_unloaded and setp = vanilla_set_params] by auto
  note safe = vanilla_system_never_fails [OF block _ _ fetch _ _ _ demo_traced _ _ load dp1, where A = demo_grant]
  have "nothing_fails (vanilla_life_step demo_tcp demo_grant True) (due 1024 vanilla_fits vanilla_handled) True demo_hash demo_trace
      ([], dp1, w1, process_start, {})"
    by (rule safe [where cc = CC_Neo]) (simp_all add: system_reach.start)
  moreover have "due 1024 vanilla_fits vanilla_handled [] (Flow_Open () 7 \<lparr>sk_tp = demo_sock, sk_ca = demo_van\<rparr>)"
    by (simp add: due_def vanilla_fits_def)
  ultimately have "\<exists>dp w p. system_reach (vanilla_life_step demo_tcp demo_grant True) (due 1024 vanilla_fits vanilla_handled)
      True demo_hash CC_Neo demo_trace ([], dp1, w1, process_start, {}) ([7], dp, w, p, {}) \<and> Env_Fd 4 \<in> set (watched p)"
    by (rule demo_system_run)
  then obtain dp w p where run: "system_reach (vanilla_life_step demo_tcp demo_grant True) (due 1024 vanilla_fits vanilla_handled)
      True demo_hash CC_Neo demo_trace ([], dp1, w1, process_start, {}) ([7], dp, w, p, {})"
    and p: "Env_Fd 4 \<in> set (watched p)" by blast
  have "nothing_fails (vanilla_life_step demo_tcp demo_grant True) (due 1024 vanilla_fits vanilla_handled) True demo_hash demo_trace
      ([7], dp, w, p, {})"
    by (rule safe [OF _ _ _ _ _ _ _ run]) simp_all
  with load dp1 run p show ?thesis by blast
qed


definition demo_log_clock :: "demo_log clock_api" where
  "demo_log_clock = \<lparr>tcp_jiffies32 = (\<lambda>e. (ucast (fst e), e)), ktime_real_ms = (\<lambda>e. (ucast (fst e), e)),
     jiffies_ms = (\<lambda>e. (ucast (fst e), e)), msecs_to_jiffies = msecs_to_jiffies demo_clock, fls64 = fls64 demo_clock,
     kernel_HZ = kernel_HZ demo_clock\<rparr>"

lemma demo_log_clock_laws: "clock_ok demo_log_clock" "silent_clocks demo_trace demo_log_clock"
  using demo_clock_ok by (simp_all add: clock_ok_def silent_clocks_def demo_log_clock_def)


end
