(* ===== verification/Table_Map.thy ===== *)
theory Table_Map
  imports Spine_Properties
begin

text \<open>
  The connection table as the map it stands for: from the numbers in use to the socket and the flow
  description registered under each. The table's operations implement lookup, update and delete of
  that map.
\<close>

section \<open>The map a table stands for\<close>

definition flow_of :: "spine_connection \<Rightarrow> nat \<times> spine_datapath_info" where
  "flow_of c = (conn_impl c, flow_info c)"

definition conn_map :: "'w spine_datapath \<Rightarrow> u16 \<rightharpoonup> nat \<times> spine_datapath_info" where
  "conn_map dp = map_of (map (\<lambda>c. (conn_index c, flow_of c)) (filter (\<lambda>c. conn_index c \<noteq> 0) (slots dp)))"

text \<open>In a well-formed table every number occurs once.\<close>

lemma conn_index_unique:
  assumes "dp_wf dp" and "i < length (slots dp)" and "j < length (slots dp)"
    and "conn_index (slots dp ! i) = conn_index (slots dp ! j)" and "conn_index (slots dp ! i) \<noteq> 0"
  shows "i = j"
  using dp_wf_slot [OF assms(1,2)] dp_wf_slot [OF assms(1,3)] assms(4,5) by (auto simp: conn_wf_def)

lemma conn_map_Some:
  assumes "dp_wf dp"
  shows "conn_map dp k = Some v \<longleftrightarrow>
    k \<noteq> 0 \<and> (\<exists>i < length (slots dp). conn_index (slots dp ! i) = k \<and> v = flow_of (slots dp ! i))"
    (is "_ = ?R v")
proof -
  let ?es = "map (\<lambda>c. (conn_index c, flow_of c)) (filter (\<lambda>c. conn_index c \<noteq> 0) (slots dp))"
  have mem: "(k, v) \<in> set ?es \<longleftrightarrow> ?R v" for v by (force simp: in_set_conv_nth)
  have unique: "?R v \<Longrightarrow> ?R x \<Longrightarrow> x = v" for v x using conn_index_unique [OF assms] by metis
  show ?thesis
  proof
    assume "conn_map dp k = Some v"
    then have "(k, v) \<in> set ?es" unfolding conn_map_def by (rule map_of_SomeD)
    then show "?R v" by (rule iffD1 [OF mem])
  next
    assume R: "?R v"
    then have "(k, v) \<in> set ?es" by (rule iffD2 [OF mem])
    from weak_map_of_SomeI [OF this] obtain x where x: "conn_map dp k = Some x"
      unfolding conn_map_def ..
    then have "(k, x) \<in> set ?es" unfolding conn_map_def by (rule map_of_SomeD)
    then have "?R x" by (rule iffD1 [OF mem])
    from unique [OF R this] x show "conn_map dp k = Some v" by (simp only:)
  qed
qed

lemma map_eq_by_Some: "(\<And>k v. m k = Some v \<longleftrightarrow> m' k = Some v) \<Longrightarrow> m = m'"
  by (rule ext) (metis not_Some_eq)

lemma conn_map_lookup:
  assumes "dp_wf dp" and "unat (dp_max_connections dp) \<le> 65535"
  shows "\<exists>r. spine_connection_lookup dp sid = Inr r \<and> map_option (\<lambda>i. flow_of (slots dp ! i)) r = conn_map dp sid"
proof (cases rule: lookup_cases [OF assms, of sid])
  case 1
  have "sid = 0" if "i < length (slots dp)" "conn_index (slots dp ! i) = sid" for i
    using lookup_used_slot [OF assms that(1), of sid] that 1 by auto
  then have "conn_map dp sid = None" using conn_map_Some [OF assms(1), of sid] by (metis not_Some_eq)
  with 1 show ?thesis by simp
next
  case (2 i)
  then have "conn_map dp sid = Some (flow_of (slots dp ! i))"
    using conn_map_Some [OF assms(1)] by blast
  with 2 show ?thesis by simp
qed

text \<open>Replacing one slot: a free slot numbered inserts, a numbered slot cleared deletes.\<close>

lemma conn_map_insert:
  assumes wf: "dp_wf dp" and wf': "dp_wf dp'" and len: "length (slots dp') = length (slots dp)"
    and j: "j < length (slots dp)" and free: "conn_index (slots dp ! j) = 0"
    and other: "\<And>i. i < length (slots dp) \<Longrightarrow> i \<noteq> j \<Longrightarrow> slots dp' ! i = slots dp ! i"
    and new: "conn_index (slots dp' ! j) \<noteq> 0"
  shows "conn_map dp (conn_index (slots dp' ! j)) = None"
    and "conn_map dp' = (conn_map dp)(conn_index (slots dp' ! j) \<mapsto> flow_of (slots dp' ! j))"
proof -
  have fresh: "conn_index (slots dp ! i) \<noteq> conn_index (slots dp' ! j)" if "i < length (slots dp)" for i
    using that conn_index_unique [OF wf', of i j] other [OF that] len j new free by (cases "i = j") auto
  then show "conn_map dp (conn_index (slots dp' ! j)) = None"
    using conn_map_Some [OF wf] by (metis not_Some_eq)
  show "conn_map dp' = (conn_map dp)(conn_index (slots dp' ! j) \<mapsto> flow_of (slots dp' ! j))"
  proof (rule map_eq_by_Some)
    fix k v
    show "conn_map dp' k = Some v \<longleftrightarrow>
        ((conn_map dp)(conn_index (slots dp' ! j) \<mapsto> flow_of (slots dp' ! j))) k = Some v"
    proof (cases "k = conn_index (slots dp' ! j)")
      case True
      have "conn_map dp' k = Some v \<longleftrightarrow> v = flow_of (slots dp' ! j)"
        unfolding conn_map_Some [OF wf'] True
        using conn_index_unique [OF wf', of _ j] len j new by (metis (no_types, lifting))
      with True show ?thesis by auto
    next
      case False
      then show ?thesis
        using conn_map_Some [OF wf', of k v] conn_map_Some [OF wf, of k v] len other free by auto metis+
    qed
  qed
qed

lemma conn_map_delete:
  assumes wf: "dp_wf dp" and wf': "dp_wf dp'" and len: "length (slots dp') = length (slots dp)"
    and j: "j < length (slots dp)" and used: "conn_index (slots dp ! j) \<noteq> 0"
    and other: "\<And>i. i < length (slots dp) \<Longrightarrow> i \<noteq> j \<Longrightarrow> slots dp' ! i = slots dp ! i"
    and gone: "conn_index (slots dp' ! j) = 0"
  shows "conn_map dp' = (conn_map dp)(conn_index (slots dp ! j) := None)"
proof -
  have "conn_map dp = (conn_map dp')(conn_index (slots dp ! j) \<mapsto> flow_of (slots dp ! j))"
    and "conn_map dp' (conn_index (slots dp ! j)) = None"
    using conn_map_insert [OF wf' wf _ _ gone _ used] len j other by simp_all
  then show ?thesis by (metis fun_upd_triv fun_upd_upd)
qed

lemma free_deletes:
  fixes T :: "('e, 'ts) time_api" and dp :: "('ca, 'e) kworld spine_datapath"
  assumes env: "uses_env (kw_now T tzero) (kw_since T tzero) (kw_send N) dp"
    and wf: "dp_wf dp" and few: "unat (dp_max_connections dp) \<le> 65535"
    and live: "\<forall>i < length (slots dp). conn_index (slots dp ! i) \<noteq> 0 \<longrightarrow> live_slot dp i"
  shows "\<exists>dp' w'. spine_connection_free dp sid w = Inr (dp', w') \<and> conn_map dp' = (conn_map dp)(sid := None)"
proof (cases rule: lookup_cases [OF wf few, of sid])
  case 1
  with conn_map_lookup [OF wf few, of sid] have "conn_map dp sid = None" by simp
  with free_unknown [OF wf few 1] show ?thesis by (metis fun_upd_triv)
next
  case (2 i)
  let ?c = "(slots dp ! i)\<lparr>conn_state := PFreed, conn_index := 0\<rparr>"
  let ?dp' = "dp\<lparr>dp_connections := Some ((slots dp)[i := ?c])\<rparr>"
  have "live_slot dp i" using live 2 by blast
  then obtain w' where "spine_connection_free dp sid w = Inr (?dp', w')"
    using kernel_env.spine_connection_free_ok [where P = "\<lambda>_. True", OF env TrueI wf _ 2(3,4) few] by blast
  moreover have "conn_wf i ?c" using dp_wf_slot [OF wf 2(2)] by (simp add: conn_wf_def)
  with wf 2(2) have "dp_wf ?dp'" by (rule dp_wf_put)
  then have "conn_map ?dp' = (conn_map dp)(conn_index (slots dp ! i) := None)"
    using 2 by (intro conn_map_delete [OF wf]) simp_all
  ultimately show ?thesis using 2(3) by blast
qed

lemma start_inserts:
  fixes T :: "('e, 'ts) time_api" and dp :: "('ca, 'e) kworld spine_datapath"
  assumes env: "uses_env (kw_now T tzero) (kw_since T tzero) (kw_send N) dp"
    and wf: "dp_wf dp" and few: "unat (dp_max_connections dp) \<le> 65535"
    and free: "first_free (slots dp) 0 = Some j" and room: "Suc j < length (slots dp)"
    and alloc: "kcalloc w = (True, w1)" and info: "length (fi_congAlg info) = MAX_CONG_ALG_SIZE"
  shows "\<exists>dp' w'. spine_connection_start kcalloc dp impl info w = Inr (Some j, dp', w') \<and>
    conn_map dp (word_of_nat (Suc j)) = None \<and>
    conn_map dp' = (conn_map dp)(word_of_nat (Suc j) \<mapsto> (impl, info))"
proof -
  let ?c = "fresh_conn (slots dp ! j) j impl info"
  obtain dp' w' where start: "spine_connection_start kcalloc dp impl info w = Inr (Some j, dp', w')"
    and wf': "dp_wf dp'" and tr: "touches j (dp\<lparr>dp_connections := Some ((slots dp)[j := ?c])\<rparr>) dp'"
    using kernel_env.spine_connection_start_ok
      [where P = "\<lambda>_. True" and impl = impl and kcalloc = kcalloc and w = w, OF env wf few free room alloc TrueI info] by blast
  have j: "j < length (slots dp)" using room by simp
  have small: "Suc j \<le> 65535" using room few wf by (simp add: dp_wf_def)
  have zero: "conn_index (slots dp ! j) = 0" using first_free_Some [OF free] by (simp add: slot_free_def)
  have len: "length (slots dp') = length (slots dp)"
    and other: "\<And>i. i < length (slots dp) \<Longrightarrow> i \<noteq> j \<Longrightarrow> slots dp' ! i = slots dp ! i"
    using tr by (simp_all add: touches_def)
  have "same_flow ?c (slots dp' ! j)" using tr j by (simp add: touches_def)
  then have new: "conn_index (slots dp' ! j) = word_of_nat (Suc j)" "flow_of (slots dp' ! j) = (impl, info)"
    by (simp_all add: same_flow_def fresh_conn_def flow_of_def del: of_nat_Suc)
  have "unat (word_of_nat (Suc j) :: u16) = Suc j" using small by (rule unat_sid)
  then have "conn_index (slots dp' ! j) \<noteq> 0" unfolding new(1) by auto
  note M = conn_map_insert [OF wf wf' len j zero other this, unfolded new]
  with start show ?thesis by blast
qed

text \<open>C7: The connection table implements a finite map from numbers to socket and flow description: while
  every numbered slot is live, a lookup returns what the map holds, freeing a number deletes it
  (unknown numbers included), a start with a free slot before the last one and memory for the
  private state inserts the caller's flow under a number the map did not hold, and a start on a
  full table returns NULL and changes nothing.\<close>

theorem table_refines_map:
  fixes T :: "('e, 'ts) time_api" and dp :: "('ca, 'e) kworld spine_datapath"
  assumes "uses_env (kw_now T tzero) (kw_since T tzero) (kw_send N) dp"
    and "dp_wf dp" and "unat (dp_max_connections dp) \<le> 65535"
    and "\<forall>i < length (slots dp). conn_index (slots dp ! i) \<noteq> 0 \<longrightarrow> live_slot dp i"
  shows "(\<forall>sid. \<exists>r. spine_connection_lookup dp sid = Inr r \<and>
      map_option (\<lambda>i. flow_of (slots dp ! i)) r = conn_map dp sid) \<and>
    (\<forall>sid w. \<exists>dp' w'. spine_connection_free dp sid w = Inr (dp', w') \<and>
      conn_map dp' = (conn_map dp)(sid := None)) \<and>
    (\<forall>j w w1. first_free (slots dp) 0 = Some j \<and> Suc j < length (slots dp) \<and> kcalloc w = (True, w1) \<and>
      length (fi_congAlg info) = MAX_CONG_ALG_SIZE \<longrightarrow>
      (\<exists>dp' w'. spine_connection_start kcalloc dp impl info w = Inr (Some j, dp', w') \<and>
        conn_map dp (word_of_nat (Suc j)) = None \<and>
        conn_map dp' = (conn_map dp)(word_of_nat (Suc j) \<mapsto> (impl, info)))) \<and>
    (first_free (slots dp) 0 = None \<longrightarrow> (\<forall>w. spine_connection_start kcalloc dp impl info w = Inr (None, dp, w)))"
  using conn_map_lookup [OF assms(2,3)] free_deletes [OF assms]
    start_inserts [OF assms(1-3), where kcalloc = kcalloc and impl = impl and info = info]
    start_full [OF assms(2,3), where kcalloc = kcalloc and impl = impl and info = info]
  by blast

theorem table_refines_map_witness:
  "(\<exists>r. spine_connection_lookup (demo_dp demo_table) 1 = Inr r \<and>
      map_option (\<lambda>i. flow_of (slots (demo_dp demo_table) ! i)) r = conn_map (demo_dp demo_table) 1) \<and>
   (\<exists>dp' w'. spine_connection_free (demo_dp demo_table) 1 demo_world = Inr (dp', w') \<and>
      conn_map dp' = (conn_map (demo_dp demo_table))(1 := None)) \<and>
   (\<exists>dp' w'. spine_connection_start demo_alloc (demo_dp demo_table) 4 demo_info demo_world =
        Inr (Some 1, dp', w') \<and> conn_map (demo_dp demo_table) 2 = None \<and>
      conn_map dp' = (conn_map (demo_dp demo_table))(2 \<mapsto> (4, demo_info)))"
proof -
  have live: "\<forall>i < length (slots (demo_dp demo_table)). conn_index (slots (demo_dp demo_table) ! i) \<noteq> 0 \<longrightarrow>
      live_slot (demo_dp demo_table) i"
    by (auto simp: demo_table_def live_slot_def less_Suc_eq numeral_3_eq_3)
  have "first_free demo_table 0 = Some 1"
    by (intro first_free_eq) (simp_all add: demo_table_def slot_free_def)
  moreover have "demo_alloc demo_world = (True, demo_world)" "Suc 1 < length demo_table"
    "length (fi_congAlg demo_info) = MAX_CONG_ALG_SIZE"
    by (simp_all add: demo_alloc_def demo_table_def demo_info_def zero_info_def)
  ultimately show ?thesis
    using table_refines_map [OF env_demo demo_table_wf demo_table_max live, of demo_alloc demo_info 4]
    by auto
qed

end
