(* ===== verification/Handshake.thy ===== *)
theory Handshake
  imports Agent_Properties Neo_Module Vanilla_Module Scubic_Properties
begin

text \<open>
  Kernel and controller together: the handshake that leads from a new flow and a new connection to
  the flow's first command, applied in the kernel.
\<close>

section \<open>To the first command\<close>

lemma flows_lib_inv: "flows_ok setp fetchm T tzero N C dp \<Longrightarrow> lib_inv T tzero N dp"
  by (simp add: flows_ok_def lib_inv_def)

text \<open>The number a packet carries is the connection's index.\<close>

lemma sid_roundtrip: "ucast (ucast (x :: u16) :: u32) = x"
  by (rule bit_word_eqI) (simp add: bit_simps)

text \<open>
  For every module: when the environment's action is sent as a command whose registers carry the values
  \<open>ps\<close>, and the setter given \<open>ps\<close> for this connection acts as \<open>upd\<close> on the world.
\<close>

context flow_module
begin

lemma first_command:
  fixes T :: "('e, 'ts) time_api"
  assumes "flows_ok setp fetchm T tzero N C dp" and "socks_ok conn_of good C (kw_socks w)"
    and "listening N" and "C sk = Some (Some i)" and "conn_state (slots dp ! i) = PLive zero_priv_state"
    and "fi_dst_port (flow_info (slots dp ! i)) = net16 dport" and "create_due T tzero (slots dp ! i) w"
    and "Env_Fd client \<in> set (watched p)" and "Netlink_Fd \<in> set (watched p)"
    and "get_env_flows hash env (ag_flows (pr_agent p)) = Some m"
    and "dst_port_to_env_id (ag_flows (pr_agent p)) (uint dport) = None"
    and "dst_port_to_flow_id m (uint dport) = None" and "flow_id_to_sock_id m f = None"
    and "kernel_flows m (ucast (conn_index (slots dp ! i))) = None"
    and "nl_send cc action (ucast (conn_index (slots dp ! i))) = Some (update_packet (ucast (conn_index (slots dp ! i))) fs)"
    and "mset fs = mset (command_fields ps)" and "ps \<noteq> []" and "length ps \<le> MAX_CONTROL_REG"
    and upd: "\<And>c w1. conn_impl c = sk \<Longrightarrow> flow_info c = flow_info (slots dp ! i) \<Longrightarrow> kw_socks w1 = kw_socks w \<Longrightarrow>
      setp c ps (word_of_nat (length ps)) w1 = Inr (upd w1)"
  shows "\<exists>dp1 w1 e packet dp2 dp3.
    spine_invoke dp (Some i) w = Inr (SPINE_OK, dp1, w1) \<and>
    kw_env w1 = snd (nlmsg_multicast N (create_packet (slots dp ! i)) e) \<and>
    fst (process_run hash cc [From_Env client (Some (start_msg env f (uint dport))),
      From_Kernel (Some (create_packet (slots dp ! i))), From_Env client (Some (alive_msg env f action))] p) =
      [To_Kernel packet] \<and>
    spine_nl_recv (Some (spine_read_msg char_signed)) (Some dp1) (nl_packet packet) = Inr (Some dp2) \<and>
    spine_invoke dp2 (Some i) w1 = Inr (0, dp3, upd w1)"
proof -
  let ?c = "slots dp ! i" and ?sid = "ucast (conn_index (slots dp ! i)) :: u32"
  note mine = flows_ok_conn [OF assms(1,4)]
  have i: "i < length (slots dp)" using mine(1) by (rule live_slot_bound)
  have "\<not> sent_create zero_priv_state" by (simp add: zero_priv_state_def)
  from invoke_announces [OF flows_lib_inv [OF assms(1)] assms(3) i mine(3) assms(5) this, of w] assms(7)
  obtain t e w1 where inv: "spine_invoke dp (Some i) w = Inr (SPINE_OK, dp\<lparr>dp_connections := Some ((slots dp)[i :=
        ?c\<lparr>last_create_msg_sent := t, conn_state := PLive (zero_priv_state\<lparr>sent_create := True\<rparr>)\<rparr>])\<rparr>, w1)"
    and socks: "kw_socks w1 = kw_socks w" and env: "kw_env w1 = snd (nlmsg_multicast N (create_packet ?c) e)"
    by auto
  let ?dp1 = "dp\<lparr>dp_connections := Some ((slots dp)[i :=
        ?c\<lparr>last_create_msg_sent := t, conn_state := PLive (zero_priv_state\<lparr>sent_create := True\<rparr>)\<rparr>])\<rparr>"
  have dp1: "flows_ok setp fetchm T tzero N C ?dp1"
    using invoke_conn_ok [OF assms(1,2,4)] inv by auto
  have "\<exists>dp2 dp3. spine_nl_recv (Some (spine_read_msg char_signed)) (Some ?dp1)
      (nl_packet (update_packet ?sid fs)) = Inr (Some dp2) \<and>
    spine_invoke dp2 (Some i) w1 = Inr (0, dp3, upd w1) \<and> pending_of dp3 i = zero_update"
  proof (rule command_delivered [OF dp1 assms(4) _ _ _ assms(16-18)])
    show "conn_state (slots ?dp1 ! i) = PLive \<lparr>sent_create = True, pending_update = zero_update\<rparr>"
      using i by (simp add: zero_priv_state_def)
    show "conn_index (slots ?dp1 ! i) = ucast ?sid" using i by (simp add: sid_roundtrip)
    show "(ucast ?sid :: u16) \<noteq> 0" using mine(3) by (simp add: sid_roundtrip)
    show "setp c ps (word_of_nat (length ps)) w1 = Inr (upd w1)"
      if "conn_impl c = sk" "flow_info c = flow_info (slots ?dp1 ! i)" for c
      using that i socks by (intro upd) simp_all
  qed
  moreover have "fst (process_run hash cc [From_Env client (Some (start_msg env f (uint dport))),
      From_Kernel (Some (create_packet ?c)), From_Env client (Some (alive_msg env f action))] p) =
      [To_Kernel (update_packet ?sid fs)]"
    using assms(8-14,6,15) by (rule handshake_run)
  ultimately show ?thesis using inv env by blast
qed

end

text \<open>C10: From a new flow to its first command: an environment registers a flow with the destination
  port of a socket of the neo module whose connection has not been announced and may be now; then
  the module's next call of the library announces it, the controller associates flow and
  connection, sends exactly one packet for the first action of the environment, and when the kernel
  has received that packet, the module's following call of the library applies the action to the
  rate of that very socket and changes no other.\<close>

theorem neo_first_command:
  fixes T :: "('e, 'ts) time_api"
  assumes "neo_ok T tzero N C (dp, w)" and "listening N" and "C sk = Some (Some i)"
    and "conn_state (slots dp ! i) = PLive zero_priv_state" and "fi_alg (flow_info (slots dp ! i)) = SPINE_NEO"
    and "fi_dst_port (flow_info (slots dp ! i)) = net16 dport"
    and "create_due T tzero (slots dp ! i) w" and "kw_socks w sk = Some s"
    and "Env_Fd client \<in> set (watched p)" and "Netlink_Fd \<in> set (watched p)"
    and "get_env_flows hash env (ag_flows (pr_agent p)) = Some m"
    and "dst_port_to_env_id (ag_flows (pr_agent p)) (uint dport) = None"
    and "dst_port_to_flow_id m (uint dport) = None" and "flow_id_to_sock_id m f = None"
    and "kernel_flows m (ucast (conn_index (slots dp ! i))) = None" and "action ''neo_action'' = Some a"
  shows "\<exists>dp1 w1 e packet dp2 dp3.
    spine_invoke dp (Some i) w = Inr (SPINE_OK, dp1, w1) \<and>
    kw_env w1 = snd (nlmsg_multicast N (create_packet (slots dp ! i)) e) \<and>
    fst (process_run hash CC_Neo [From_Env client (Some (start_msg env f (uint dport))),
      From_Kernel (Some (create_packet (slots dp ! i))), From_Env client (Some (alive_msg env f action))] p) =
      [To_Kernel packet] \<and>
    spine_nl_recv (Some (spine_read_msg char_signed)) (Some dp1) (nl_packet packet) = Inr (Some dp2) \<and>
    spine_invoke dp2 (Some i) w1 = Inr (0, dp3, sock_put w1 sk (s\<lparr>sk_ca := (sk_ca s)
      \<lparr>ready_rate := neo_action a (neo_rate (sk_ca s))\<rparr>\<rparr>))"
proof (rule neo_flows.first_command [where fs = "[control_field 0 a]" and ps = "[a]"])
  show "neo_dp_ok T tzero N C dp" "neo_good C (kw_socks w)" using assms(1) by (simp_all add: neo_ok_def)
  show "nl_send CC_Neo action (ucast (conn_index (slots dp ! i))) =
      Some (update_packet (ucast (conn_index (slots dp ! i))) [control_field 0 a])"
    using assms(16) by (simp add: send_neo_message_def NEO_ACTION_REG_def)
  show "neo_set_params c [a] (word_of_nat (length [a])) w1 = Inr (sock_put w1 sk (s\<lparr>sk_ca := (sk_ca s)
      \<lparr>ready_rate := neo_action a (neo_rate (sk_ca s))\<rparr>\<rparr>))"
    if "conn_impl c = sk" "flow_info c = flow_info (slots dp ! i)" "kw_socks w1 = kw_socks w" for c w1
    using that assms(5,8) by (simp add: neo_set_params_eq)
qed (use assms in \<open>simp_all add: command_fields_def MAX_CONTROL_REG_def\<close>)

definition demo_new_dp :: "u64 neo_world spine_datapath" where
  "demo_new_dp = demo_neo_dp\<lparr>dp_connections := Some [demo_new_conn, zero_connection]\<rparr>"

definition demo_process :: process where
  "demo_process = \<lparr>pr_agent = agent_start\<lparr>ag_flows := register_env demo_hash ''env'' EnvFlows\<rparr>,
     watched = [Env_Fd 4, Netlink_Fd]\<rparr>"

lemma demo_new_slots [simp]: "slots demo_new_dp = [demo_new_conn, zero_connection]"
  by (simp add: demo_new_dp_def slots_def)

lemma demo_new_ok: "neo_ok demo_time 0 demo_nl demo_conns (demo_new_dp, demo_neo_world)"
proof -
  have "conn_wf 0 demo_new_conn"
    unfolding demo_new_conn_def using conn_wf_demo_used [of 0]
    by (simp add: conn_wf_def demo_info_def zero_info_def)
  then have "dp_wf demo_new_dp"
    unfolding dp_wf_def demo_new_slots by (simp add: demo_new_dp_def demo_neo_dp_def less_Suc_eq)
  moreover have "neo_good demo_conns (kw_socks demo_neo_world)"
    using demo_neo_wf by (simp add: neo_ok_def)
  ultimately show ?thesis
    by (auto simp: neo_ok_def flows_ok_def uses_env_def uses_cc_def demo_conns_def live_slot_def
        less_Suc_eq demo_new_conn_def) (simp_all add: demo_new_dp_def demo_neo_dp_def)
qed

theorem neo_first_command_witness:
  "\<exists>dp1 w1 e packet dp2 dp3.
    spine_invoke demo_new_dp (Some 0) demo_neo_world = Inr (SPINE_OK, dp1, w1) \<and>
    kw_env w1 = snd (nlmsg_multicast demo_nl (create_packet (slots demo_new_dp ! 0)) e) \<and>
    fst (process_run demo_hash CC_Neo [From_Env 4 (Some (start_msg ''env'' 9 (uint (5001 :: u16)))),
      From_Kernel (Some (create_packet (slots demo_new_dp ! 0))),
      From_Env 4 (Some (alive_msg ''env'' 9 [''neo_action'' \<mapsto> 1]))] demo_process) = [To_Kernel packet] \<and>
    spine_nl_recv (Some (spine_read_msg True)) (Some dp1) (nl_packet packet) = Inr (Some dp2) \<and>
    spine_invoke dp2 (Some 0) w1 = Inr (0, dp3, sock_put w1 0 (\<lparr>sk_tp = demo_sock, sk_ca = demo_neo\<rparr>\<lparr>sk_ca :=
      (sk_ca \<lparr>sk_tp = demo_sock, sk_ca = demo_neo\<rparr>)\<lparr>ready_rate := neo_action 1 (neo_rate (sk_ca \<lparr>sk_tp = demo_sock, sk_ca = demo_neo\<rparr>))\<rparr>\<rparr>))"
  by (rule neo_first_command [OF demo_new_ok demo_listening, where m = ActiveFlowMap])
    (simp_all add: demo_conns_def demo_new_conn_def demo_info_def create_due_def demo_neo_world_def demo_process_def
      agent_start_def register_env_def EnvFlows_def get_env_flows_def ActiveFlowMap_def)


definition demo_new_conn_of :: "spine_internal_alg \<Rightarrow> spine_connection" where
  "demo_new_conn_of alg = demo_new_conn\<lparr>flow_info := (flow_info demo_new_conn)\<lparr>fi_alg := alg\<rparr>\<rparr>"

lemma demo_new_conn_of_wf: "conn_wf 0 (demo_new_conn_of alg)"
  unfolding demo_new_conn_of_def demo_new_conn_def using conn_wf_demo_used [of 0]
  by (simp add: conn_wf_def demo_info_def zero_info_def)

definition demo_new_van_dp :: "u64 vanilla_world spine_datapath" where
  "demo_new_van_dp = demo_van_dp\<lparr>dp_connections := Some [demo_new_conn_of SPINE_VANILLA, zero_connection]\<rparr>"

lemma demo_new_van_slots [simp]: "slots demo_new_van_dp = [demo_new_conn_of SPINE_VANILLA, zero_connection]"
  by (simp add: demo_new_van_dp_def slots_def)

lemma demo_new_van_ok: "vanilla_ok demo_time 0 demo_nl [0 \<mapsto> Some 0] (demo_new_van_dp, demo_van_world)"
proof -
  have "dp_wf demo_new_van_dp"
    unfolding dp_wf_def demo_new_van_slots using demo_new_conn_of_wf
    by (simp add: demo_new_van_dp_def demo_van_dp_def less_Suc_eq)
  moreover have "vanilla_good [0 \<mapsto> Some 0] (kw_socks demo_van_world)"
    using demo_van_ok by (simp add: vanilla_ok_def)
  ultimately show ?thesis
    by (auto simp: vanilla_ok_def flows_ok_def uses_env_def uses_cc_def live_slot_def less_Suc_eq
        demo_new_conn_of_def demo_new_conn_def) (simp_all add: demo_new_van_dp_def demo_van_dp_def)
qed


text \<open>C16: From a new flow to its first command, for scubic: as for the other modules, the first action an
  environment sends for a newly announced connection with its two values reaches that very socket,
  which gets the scale and the decrease factor and valid factors computed from them, provided both
  values are between 1 and 1023.\<close>

theorem scubic_first_command:
  fixes T :: "('e, 'ts) time_api"
  assumes "scubic_ok T tzero N C (dp, w)" and "listening N" and "C sk = Some (Some i)"
    and "conn_state (slots dp ! i) = PLive zero_priv_state" and "fi_alg (flow_info (slots dp ! i)) = SPINE_CUBIC"
    and "fi_dst_port (flow_info (slots dp ! i)) = net16 dport"
    and "create_due T tzero (slots dp ! i) w" and "kw_socks w sk = Some s"
    and "Env_Fd client \<in> set (watched p)" and "Netlink_Fd \<in> set (watched p)"
    and "get_env_flows hash env (ag_flows (pr_agent p)) = Some m"
    and "dst_port_to_env_id (ag_flows (pr_agent p)) (uint dport) = None"
    and "dst_port_to_flow_id m (uint dport) = None" and "flow_id_to_sock_id m f = None"
    and "kernel_flows m (ucast (conn_index (slots dp ! i))) = None"
    and "action ''cubic_beta'' = Some beta" and "action ''cubic_bic_scale'' = Some scale"
    and "0 < scale" and "scale < 1024" and "0 < beta" and "beta < 1024"
  shows "\<exists>dp1 w1 e packet dp2 dp3 ca.
    spine_invoke dp (Some i) w = Inr (SPINE_OK, dp1, w1) \<and>
    kw_env w1 = snd (nlmsg_multicast N (create_packet (slots dp ! i)) e) \<and>
    fst (process_run hash (CC_Scubic) [From_Env client (Some (start_msg env f (uint dport))),
      From_Kernel (Some (create_packet (slots dp ! i))), From_Env client (Some (alive_msg env f action))] p) =
      [To_Kernel packet] \<and>
    spine_nl_recv (Some (spine_read_msg char_signed)) (Some dp1) (nl_packet packet) = Inr (Some dp2) \<and>
    spine_invoke dp2 (Some i) w1 = Inr (0, dp3, sock_put w1 sk (s\<lparr>sk_ca := ca\<rparr>)) \<and>
    bictcp_update_params ((sk_ca s)\<lparr>bic_scale := ucast scale, bt_beta := ucast beta\<rparr>) = Inr ca \<and> scubic_params_ok ca"
proof -
  let ?ca = "scubic_with [scale, beta] (sk_ca s)"
  have valid: "valid_pair [scale, beta]" using assms(18-21) by (simp add: valid_pair_def)
  have "\<exists>dp1 w1 e packet dp2 dp3.
    spine_invoke dp (Some i) w = Inr (SPINE_OK, dp1, w1) \<and>
    kw_env w1 = snd (nlmsg_multicast N (create_packet (slots dp ! i)) e) \<and>
    fst (process_run hash CC_Scubic [From_Env client (Some (start_msg env f (uint dport))),
      From_Kernel (Some (create_packet (slots dp ! i))), From_Env client (Some (alive_msg env f action))] p) =
      [To_Kernel packet] \<and>
    spine_nl_recv (Some (spine_read_msg char_signed)) (Some dp1) (nl_packet packet) = Inr (Some dp2) \<and>
    spine_invoke dp2 (Some i) w1 = Inr (0, dp3, sock_put w1 sk (s\<lparr>sk_ca := ?ca\<rparr>))"
  proof (rule scubic_flows.first_command
    [where fs = "[control_field CUBIC_BETA_REG beta, control_field CUBIC_BIC_SCALE_REG scale]" and ps = "[scale, beta]"])
    show "scubic_dp_ok T tzero N C dp" "scubic_good C (kw_socks w)" using assms(1) by (simp_all add: scubic_ok_def)
    show "nl_send CC_Scubic action (ucast (conn_index (slots dp ! i))) = Some (update_packet
        (ucast (conn_index (slots dp ! i))) [control_field CUBIC_BETA_REG beta, control_field CUBIC_BIC_SCALE_REG scale])"
      using assms(16,17) by (simp add: send_scubic_message_def)
    show "mset [control_field CUBIC_BETA_REG beta, control_field CUBIC_BIC_SCALE_REG scale] = mset (command_fields [scale, beta])"
      by (rule send_scubic_fields)
    show "scubic_set_params c [scale, beta] (word_of_nat (length [scale, beta])) w1 = Inr (sock_put w1 sk (s\<lparr>sk_ca := ?ca\<rparr>))"
      if "conn_impl c = sk" "flow_info c = flow_info (slots dp ! i)" "kw_socks w1 = kw_socks w" for c w1
      using that assms(5,8) valid by (subst scubic_set_params_eq [where s = s]) simp_all
  qed (use assms in \<open>simp_all add: MAX_CONTROL_REG_def\<close>)
  with update_params_valid [OF valid, of "sk_ca s"] show ?thesis by (simp only: nth_Cons_0 nth_Cons_Suc One_nat_def) blast
qed

definition demo_new_sc_dp :: "u64 scubic_world spine_datapath" where
  "demo_new_sc_dp = demo_sc_dp\<lparr>dp_connections := Some [demo_new_conn_of SPINE_CUBIC, zero_connection]\<rparr>"

lemma demo_new_sc_slots [simp]: "slots demo_new_sc_dp = [demo_new_conn_of SPINE_CUBIC, zero_connection]"
  by (simp add: demo_new_sc_dp_def slots_def)

lemma demo_new_sc_ok: "scubic_ok demo_time 0 demo_nl [0 \<mapsto> Some 0] (demo_new_sc_dp, demo_sc_world)"
proof -
  have "dp_wf demo_new_sc_dp"
    unfolding dp_wf_def demo_new_sc_slots using demo_new_conn_of_wf
    by (simp add: demo_new_sc_dp_def demo_sc_dp_def less_Suc_eq)
  moreover have "scubic_good [0 \<mapsto> Some 0] (kw_socks demo_sc_world)"
    using demo_sc_ok by (simp add: scubic_ok_def)
  ultimately show ?thesis
    by (auto simp: scubic_ok_def flows_ok_def uses_env_def uses_cc_def live_slot_def less_Suc_eq
        demo_new_conn_of_def demo_new_conn_def) (simp_all add: demo_new_sc_dp_def demo_sc_dp_def)
qed

theorem scubic_first_command_witness:
  "\<exists>dp1 w1 e packet dp2 dp3 ca.
    spine_invoke demo_new_sc_dp (Some 0) demo_sc_world = Inr (SPINE_OK, dp1, w1) \<and>
    kw_env w1 = snd (nlmsg_multicast demo_nl (create_packet (slots demo_new_sc_dp ! 0)) e) \<and>
    fst (process_run demo_hash CC_Scubic [From_Env 4 (Some (start_msg ''env'' 9 (uint (5001 :: u16)))),
      From_Kernel (Some (create_packet (slots demo_new_sc_dp ! 0))),
      From_Env 4 (Some (alive_msg ''env'' 9 (\<lambda>_. Some 800)))] demo_process) = [To_Kernel packet] \<and>
    spine_nl_recv (Some (spine_read_msg True)) (Some dp1) (nl_packet packet) = Inr (Some dp2) \<and>
    spine_invoke dp2 (Some 0) w1 = Inr (0, dp3, sock_put w1 0 (\<lparr>sk_tp = demo_clamped, sk_ca = demo_bictcp\<rparr>\<lparr>sk_ca := ca\<rparr>)) \<and>
    bictcp_update_params ((sk_ca \<lparr>sk_tp = demo_clamped, sk_ca = demo_bictcp\<rparr>)
      \<lparr>bic_scale := ucast (800 :: u64), bt_beta := ucast (800 :: u64)\<rparr>) = Inr ca \<and> scubic_params_ok ca"
  by (rule scubic_first_command [OF demo_new_sc_ok demo_listening, where m = ActiveFlowMap])
    (simp_all add: demo_new_conn_of_def demo_new_conn_def demo_info_def create_due_def demo_sc_world_def demo_process_def
      agent_start_def register_env_def EnvFlows_def get_env_flows_def ActiveFlowMap_def)

end
