(* ===== verification/Scubic_Curve.thy ===== *)
theory Scubic_Curve
  imports Scubic_Properties
begin

text \<open>
  The cubic function of \<open>bictcp_update\<close> against its definition over the integers: the 64-bit
  product, its shift and the 32-bit sum compute origin + c (t - K)^3, rounded towards the origin.
\<close>

section \<open>The curve over the integers\<close>

definition cubic_curve :: "nat \<Rightarrow> nat \<Rightarrow> nat \<Rightarrow> nat \<Rightarrow> int" where
  "cubic_curve c origin K t =
     int origin + (if t < K then - int (c * (K - t) ^ 3 div 2 ^ 40) else int (c * (t - K) ^ 3 div 2 ^ 40))"

text \<open>It never falls, and passes through the origin at \<open>K\<close>.\<close>

lemma cubic_curve_mono: "t \<le> t' \<Longrightarrow> cubic_curve c origin K t \<le> cubic_curve c origin K t'"
proof -
  assume "t \<le> t'"
  have step: "c * x ^ 3 div 2 ^ 40 \<le> c * y ^ 3 div 2 ^ 40" if "x \<le> y" for x y :: nat
    using that by (intro div_le_mono mult_le_mono2 cube_mono)
  have "t' < K \<Longrightarrow> c * (K - t') ^ 3 div 2 ^ 40 \<le> c * (K - t) ^ 3 div 2 ^ 40"
    "\<not> t < K \<Longrightarrow> c * (t - K) ^ 3 div 2 ^ 40 \<le> c * (t' - K) ^ 3 div 2 ^ 40"
    using \<open>t \<le> t'\<close> by (intro step; simp)+
  with \<open>t \<le> t'\<close> show ?thesis
    unfolding cubic_curve_def by (cases "t < K"; cases "t' < K") (simp_all flip: of_nat_diff)
qed

lemma cubic_curve_origin: "cubic_curve c origin K K = int origin"
  by (simp add: cubic_curve_def)

section \<open>The machine arithmetic\<close>

lemma distance: "nat \<bar>int a - int b\<bar> = (if a < b then b - a else a - b)"
  by auto

lemma cube_product:
  fixes s x :: u64
  assumes "unat s * unat x ^ 3 < 2 ^ 64"
  shows "unat (s * x * x * x) = unat s * unat x ^ 3"
proof (cases "unat x = 0")
  case True
  then show ?thesis by (simp add: unat_eq_zero)
next
  case False
  let ?s = "unat s" and ?x = "unat x"
  have cube: "?s * ?x ^ 3 = ?s * ?x * ?x * ?x" by (simp add: power3_eq_cube)
  have le: "y \<le> y * ?x" for y using False by simp
  have "?s * ?x * ?x < 2 ^ 64" using assms le [of "?s * ?x * ?x"] unfolding cube by linarith
  moreover from this have "?s * ?x < 2 ^ 64" using le [of "?s * ?x"] by linarith
  ultimately show ?thesis
    using assms unfolding cube by (simp add: unat_mult_exact)
qed

text \<open>C23: The curve is exact: as long as c times the cube of the distance from K is below 2^64 - for every
  legal scale within 64 seconds of K - the window the 64-bit product, shift and 32-bit sum of the
  update compute is the cubic origin + c (t - K)^3 / 2^40 over the integers, rounded towards the
  origin and reduced modulo 2^32; so it is the cubic itself whenever that is a 32-bit number.\<close>

theorem cubic_curve_exact:
  assumes "unat (cube_rtt_scale ca) * nat \<bar>int (unat t) - int (unat (bic_K ca))\<bar> ^ 3 < 2 ^ 64"
  shows "uint (bic_target ca t) = cubic_curve (unat (cube_rtt_scale ca)) (unat (bic_origin_point ca))
    (unat (bic_K ca)) (unat t) mod 2 ^ 32"
proof -
  let ?c = "unat (cube_rtt_scale ca)" and ?K = "ucast (bic_K ca) :: u64"
  define offs where "offs = (if t < ?K then ?K - t else t - ?K)"
  have K: "unat ?K = unat (bic_K ca)" and s: "unat (ucast (cube_rtt_scale ca) :: u64) = ?c"
    by (simp_all add: unat_ucast_up)
  have less: "t < ?K \<longleftrightarrow> unat t < unat (bic_K ca)" using K by (simp add: word_less_nat_alt)
  have offs: "unat offs = (if t < ?K then unat (bic_K ca) - unat t else unat t - unat (bic_K ca))"
    using K less by (simp add: offs_def unat_sub word_le_nat_alt)
  then have dist: "unat offs = nat \<bar>int (unat t) - int (unat (bic_K ca))\<bar>"
    unfolding distance by (simp add: less)
  let ?p = "ucast (cube_rtt_scale ca) * offs * offs * offs"
  have p: "unat ?p = ?c * unat offs ^ 3"
    using assms s dist cube_product [of "ucast (cube_rtt_scale ca)" offs] by simp
  let ?d = "?c * unat offs ^ 3 div 2 ^ 40"
  have "unat (drop_bit 40 ?p) = ?d" unfolding p [symmetric] unat_drop_bit_eq by (rule drop_bit_eq_div)
  moreover have "?d < 2 ^ 32" using assms dist by (simp add: less_mult_imp_div_less)
  ultimately have "unat (ucast (drop_bit 40 ?p) :: u32) = ?d"
    by (simp only: unsigned_ucast_eq take_bit_nat_eq_self len_of_numeral_defs)
      (simp add: take_bit_nat_eq_self_iff)
  then have d: "uint (ucast (drop_bit 40 ?p) :: u32) = int ?d" by (simp only: uint_nat)
  have target: "bic_target ca t = (if t < ?K then bic_origin_point ca - ucast (drop_bit 40 ?p)
      else bic_origin_point ca + ucast (drop_bit 40 ?p))"
    by (simp add: bic_target_def offs_def BICTCP_HZ_def Let_def)
  have o: "uint (bic_origin_point ca) = int (unat (bic_origin_point ca))" by simp
  show ?thesis
  proof (cases "t < ?K")
    case True
    then show ?thesis
      using d offs less unfolding target cubic_curve_def by (simp add: uint_word_ariths(2))
  next
    case False
    then show ?thesis
      using d offs less unfolding target cubic_curve_def by (simp add: uint_word_ariths(1))
  qed
qed

theorem cubic_curve_exact_witness:
  "uint (bic_target (demo_bictcp\<lparr>bic_K := 5000, bic_origin_point := 100\<rparr>) 800) = cubic_curve 410 100 5000 800 mod 2 ^ 32 \<and>
    cubic_curve 410 100 5000 800 = 73"
  using cubic_curve_exact [of "demo_bictcp\<lparr>bic_K := 5000, bic_origin_point := 100\<rparr>" 800]
  by (simp add: demo_bictcp_def cubic_curve_def)

lemma legal_scale_in_range:
  assumes "c \<le> 10230" and "d < 2 ^ 16"
  shows "c * d ^ 3 < (2::nat) ^ 64"
proof -
  have "c * d ^ 3 \<le> 10230 * (2 ^ 16) ^ 3" using assms by (intro mult_le_mono cube_mono) simp_all
  then show ?thesis by simp
qed

end
