(* ===== verification/Poller.thy ===== *)
theory Poller
  imports Agent "HOL-Library.Product_Lexorder"
begin

text \<open>
  The event loop of poller.py: actions wait for a descriptor, newly added ones are registered at the
  next poll, the events of a poll are served in the order of their descriptors, and the actions of
  a descriptor that failed are removed when all of them are served. Theory \<open>Poll_Process\<close> runs the
  controller's callbacks in it.
\<close>

section \<open>Events and actions\<close>

definition POLLIN :: int where [c_consts]: "POLLIN = 1"
definition POLLPRI :: int where [c_consts]: "POLLPRI = 2"
definition POLLOUT :: int where [c_consts]: "POLLOUT = 4"
definition POLLERR :: int where [c_consts]: "POLLERR = 8"
definition POLLHUP :: int where [c_consts]: "POLLHUP = 16"
definition POLLNVAL :: int where [c_consts]: "POLLNVAL = 32"

definition READ_FLAGS :: int where [c_consts]: "READ_FLAGS = POLLIN OR POLLPRI"
definition WRITE_FLAGS :: int where [c_consts]: "WRITE_FLAGS = POLLOUT"
definition ERR_FLAGS :: int where [c_consts]: "ERR_FLAGS = POLLERR OR POLLHUP OR POLLNVAL"
definition READ_ERR_FLAGS :: int where [c_consts]: "READ_ERR_FLAGS = READ_FLAGS OR ERR_FLAGS"
definition ALL_FLAGS :: int where [c_consts]: "ALL_FLAGS = READ_FLAGS OR WRITE_FLAGS OR ERR_FLAGS"

text \<open>
  A callback acts on the world \<open>'w\<close>; it returns a status or raises an exception, and may add actions
  to the poller. The exceptions of an error callback are caught and logged.
\<close>

datatype ('fd, 'w) action =
  Action (act_fd: 'fd) (act_event: int)
    (act_callback: "'w \<Rightarrow> (py_error + status) \<times> ('fd, 'w) action list \<times> 'w")
    (act_err_callback: "('w \<Rightarrow> 'w) option")

text \<open>\<open>fd_to_remove\<close> is a set of Python: it holds no descriptor twice.\<close>

record ('fd, 'w) poller =
  action_to_add :: "('fd, 'w) action list"
  fd_to_remove :: "'fd list"
  actions :: "('fd, 'w) action list"
  registered_fd :: "'fd \<rightharpoonup> int"

definition poller_start :: "('fd, 'w) poller" where
  "poller_start = \<lparr>action_to_add = [], fd_to_remove = [], actions = [], registered_fd = Map.empty\<rparr>"

section \<open>Operations\<close>

definition add_action :: "('fd, 'w) action \<Rightarrow> ('fd, 'w) poller \<Rightarrow> ('fd, 'w) poller" where
  "add_action a po = po\<lparr>action_to_add := action_to_add po @ [a]\<rparr>"

definition remove_fd :: "'fd \<Rightarrow> ('fd, 'w) poller \<Rightarrow> ('fd, 'w) poller" where
  "remove_fd fd po = po\<lparr>fd_to_remove := List.insert fd (fd_to_remove po)\<rparr>"

definition get_action_by_fd :: "'fd \<Rightarrow> ('fd, 'w) poller \<Rightarrow> ('fd, 'w) action list" where
  "get_action_by_fd fd po = filter (\<lambda>a. act_fd a = fd) (actions po)"

text \<open>
  \<open>__remove_action\<close>: a descriptor that is not registered ends the loop. The loop over the actions
  runs backwards, so removing one does not skip the next.
\<close>

fun remove_actions :: "'fd list \<Rightarrow> ('fd, 'w) poller \<Rightarrow> ('fd, 'w) poller" where
  "remove_actions [] po = po"
| "remove_actions (fd # fds) po =
     (if registered_fd po fd = None then po
      else if get_action_by_fd fd po = [] then remove_actions fds po
      else remove_actions fds (po\<lparr>registered_fd := (registered_fd po)(fd := None),
        actions := filter (\<lambda>a. act_fd a \<noteq> fd) (actions po)\<rparr>))"

text \<open>The registration of a poll: new descriptors, and masks disjoint from the registered one.\<close>

definition register_action :: "('fd, 'w) action \<Rightarrow> ('fd \<rightharpoonup> int) \<Rightarrow> 'fd \<rightharpoonup> int" where
  "register_action a reg = (case reg (act_fd a) of
     None \<Rightarrow> reg(act_fd a \<mapsto> act_event a)
   | Some current \<Rightarrow> if act_event a AND current = 0 then reg(act_fd a \<mapsto> current OR act_event a) else reg)"

text \<open>The callbacks of one descriptor, up to the first that cancels or fails.\<close>

fun serve_actions ::
  "int \<Rightarrow> ('fd, 'w) action list \<Rightarrow> ('fd, 'w) poller \<times> 'w \<Rightarrow> ('fd, 'w) poller \<times> 'w" where
  "serve_actions flag [] s = s"
| "serve_actions flag (a # as) (po, w) =
     (if flag AND act_event a = 0 then serve_actions flag as (po, w)
      else let (res, new, w') = act_callback a w; po' = fold add_action new po in
        if res = Inr Continue then serve_actions flag as (po', w')
        else (remove_fd (act_fd a) po', w'))"

text \<open>The events of a poll. An error event of a descriptor without an action would raise an exception.\<close>

fun serve_events ::
  "('fd \<times> int) list \<Rightarrow> ('fd, 'w) poller \<times> 'w \<Rightarrow> py_error + ('fd, 'w) poller \<times> 'w" where
  "serve_events [] s = Inr s"
| "serve_events ((fd, flag) # es) (po, w) =
     (if flag AND ERR_FLAGS \<noteq> 0 then (case get_action_by_fd fd po of
        [] \<Rightarrow> Inl IndexError
      | a # _ \<Rightarrow> serve_events es (remove_fd fd po, case act_err_callback a of None \<Rightarrow> w | Some f \<Rightarrow> f w))
      else serve_events es (serve_actions flag (get_action_by_fd fd po) (po, w)))"

text \<open>
  One poll with the events the kernel reports; \<open>order\<close> is the order Python iterates over the set of
  descriptors to remove. The result says whether there was an event.
\<close>

definition poll_register :: "('fd, 'w) poller \<Rightarrow> ('fd, 'w) poller" where
  "poll_register po = (let acts = actions po @ action_to_add po in
     po\<lparr>actions := acts, action_to_add := [], registered_fd := fold register_action acts (registered_fd po)\<rparr>)"

definition poll_once ::
  "('fd list \<Rightarrow> 'fd list) \<Rightarrow> ('fd :: linorder \<times> int) list \<Rightarrow> ('fd, 'w) poller \<Rightarrow> 'w \<Rightarrow>
   py_error + bool \<times> ('fd, 'w) poller \<times> 'w" where
  "poll_once order events po w =
     (if actions po @ action_to_add po = [] then Inr (False, po, w)
      else let po1 = poll_register po in
        if events = [] then Inr (False, po1, w)
        else (case serve_events (sort events) (po1, w) of
            Inl e \<Rightarrow> Inl e
          | Inr (po2, w2) \<Rightarrow> Inr (True, (remove_actions (order (fd_to_remove po2)) po2)\<lparr>fd_to_remove := []\<rparr>, w2)))"

text \<open>\<open>clear_all\<close> pops by an index that counts on while the list shrinks: every other action stays.\<close>

fun clear_from :: "nat \<Rightarrow> nat \<Rightarrow> 'a list \<Rightarrow> py_error + 'a list" where
  "clear_from i 0 xs = Inr xs"
| "clear_from i (Suc n) xs =
     (if i < length xs then clear_from (Suc i) n (take i xs @ drop (Suc i) xs) else Inl IndexError)"

definition clear_all :: "('fd, 'w) poller \<Rightarrow> py_error + ('fd, 'w) poller" where
  "clear_all po = (case clear_from 0 (length (actions po)) (actions po) of
     Inl e \<Rightarrow> Inl e
   | Inr acts \<Rightarrow> Inr (po\<lparr>actions := acts\<rparr>))"

section \<open>The invariant of the poller\<close>

text \<open>One action per descriptor, and the registered descriptors are those of the actions polled so far.\<close>

abbreviation fds :: "('fd, 'w) poller \<Rightarrow> 'fd set" where
  "fds po \<equiv> act_fd ` set (actions po @ action_to_add po)"

definition poller_ok :: "('fd, 'w) poller \<Rightarrow> bool" where
  "poller_ok po \<longleftrightarrow> distinct (map act_fd (actions po @ action_to_add po)) \<and>
     dom (registered_fd po) = act_fd ` set (actions po)"

lemma poller_start_ok: "poller_ok poller_start"
  by (simp add: poller_ok_def poller_start_def)

lemma add_action_ok:
  "poller_ok po \<Longrightarrow> act_fd a \<notin> fds po \<Longrightarrow> poller_ok (add_action a po)"
  by (auto simp: poller_ok_def add_action_def)

lemma remove_fd_ok [simp]: "poller_ok (remove_fd fd po) = poller_ok po"
  by (simp add: poller_ok_def remove_fd_def)

lemma poller_fields [simp]:
  "actions (add_action a po) = actions po" "registered_fd (add_action a po) = registered_fd po"
  "action_to_add (add_action a po) = action_to_add po @ [a]" "fd_to_remove (add_action a po) = fd_to_remove po"
  "actions (remove_fd fd po) = actions po" "registered_fd (remove_fd fd po) = registered_fd po"
  "action_to_add (remove_fd fd po) = action_to_add po" "set (fd_to_remove (remove_fd fd po)) = insert fd (set (fd_to_remove po))"
  "get_action_by_fd fd (add_action a po) = get_action_by_fd fd po"
  "get_action_by_fd fd (remove_fd fd' po) = get_action_by_fd fd po"
  by (simp_all add: add_action_def remove_fd_def get_action_by_fd_def)

lemma dom_register: "dom (fold register_action acts reg) = dom reg \<union> act_fd ` set acts"
proof (induction acts arbitrary: reg)
  case (Cons a acts)
  have "dom (register_action a reg) = insert (act_fd a) (dom reg)"
    by (auto simp: register_action_def split: option.splits)
  with Cons show ?case by simp
qed simp

lemma poll_register_ok: "poller_ok po \<Longrightarrow> poller_ok (poll_register po)"
  by (auto simp: poller_ok_def poll_register_def Let_def dom_register)

lemma poll_register_fields [simp]:
  "actions (poll_register po) = actions po @ action_to_add po" "action_to_add (poll_register po) = []"
  "fd_to_remove (poll_register po) = fd_to_remove po"
  by (simp_all add: poll_register_def Let_def)

lemma get_action_single:
  assumes "poller_ok po" and "a \<in> set (actions po)"
  shows "get_action_by_fd (act_fd a) po = [a]"
proof -
  have "distinct (map act_fd acts) \<Longrightarrow> a \<in> set acts \<Longrightarrow> filter (\<lambda>b. act_fd b = act_fd a) acts = [a]" for acts
    by (induction acts) (auto simp: filter_empty_conv image_iff)
  then show ?thesis using assms by (simp add: get_action_by_fd_def poller_ok_def)
qed

text \<open>Every descriptor to remove is registered, so the loop that removes runs to its end, in any order.\<close>

lemma remove_actions_ok:
  assumes "poller_ok po" and "distinct xs" and "set xs \<subseteq> act_fd ` set (actions po)"
  shows "remove_actions xs po = po\<lparr>registered_fd := (registered_fd po) |` (- set xs),
    actions := filter (\<lambda>a. act_fd a \<notin> set xs) (actions po)\<rparr>"
  using assms
proof (induction xs arbitrary: po)
  case Nil
  then show ?case by simp
next
  case (Cons fd xs)
  let ?po = "po\<lparr>registered_fd := (registered_fd po)(fd := None), actions := filter (\<lambda>a. act_fd a \<noteq> fd) (actions po)\<rparr>"
  have "registered_fd po fd \<noteq> None" "get_action_by_fd fd po \<noteq> []"
    using Cons.prems by (auto simp: poller_ok_def get_action_by_fd_def filter_empty_conv dom_def)
  then have step: "remove_actions (fd # xs) po = remove_actions xs ?po" by (simp only: remove_actions.simps if_False)
  have "poller_ok ?po" using Cons.prems(1) by (auto simp: poller_ok_def distinct_map_filter)
  moreover have "set xs \<subseteq> act_fd ` set (actions ?po)"
    using Cons.prems(2,3) by (force simp: image_iff subset_iff)
  ultimately have "remove_actions xs ?po = ?po\<lparr>registered_fd := (registered_fd ?po) |` (- set xs),
      actions := filter (\<lambda>a. act_fd a \<notin> set xs) (actions ?po)\<rparr>" using Cons.prems(2) by (intro Cons.IH) simp_all
  moreover have "?po\<lparr>registered_fd := (registered_fd ?po) |` (- set xs),
      actions := filter (\<lambda>a. act_fd a \<notin> set xs) (actions ?po)\<rparr> = po\<lparr>registered_fd := (registered_fd po) |` (- set (fd # xs)),
      actions := filter (\<lambda>a. act_fd a \<notin> set (fd # xs)) (actions po)\<rparr>"
    by (auto simp: restrict_map_def fun_eq_iff conj_commute intro!: poller.equality)
  ultimately show ?case unfolding step by (simp only:)
qed

section \<open>Descriptors used again\<close>

text \<open>When the socket of an action is closed without removing the action (as the write of a report to
  an environment that has gone does), the next environment accepted may get the same descriptor. Its
  action joins the stale one, whose callback cancels: both are removed, and the callback of the
  newcomer never runs.\<close>

theorem stale_action_takes_newcomer:
  assumes "filter (\<lambda>a. act_fd a = fd) (actions po) = [old, new]" and "action_to_add po = []" and "fd_to_remove po = []"
    and "registered_fd po fd = Some m" and "flag AND ERR_FLAGS = 0" and "flag AND act_event old \<noteq> 0"
    and "act_callback old w = (Inr Cancel, [], w')" and "order [fd] = [fd]"
  shows "\<exists>po'. poll_once order [(fd, flag)] po w = Inr (True, po', w') \<and>
    actions po' = filter (\<lambda>a. act_fd a \<noteq> fd) (actions po)"
proof -
  have get: "get_action_by_fd fd (poll_register po) = [old, new]" and ne: "actions po \<noteq> []" and fd: "act_fd old = fd"
    using assms(1,2) by (auto simp: get_action_by_fd_def filter_eq_Cons_iff)
  let ?po2 = "remove_fd fd (poll_register po)"
  have serve: "serve_events (sort [(fd, flag)]) (poll_register po, w) = Inr (?po2, w')"
    using get assms(5-7) fd by simp
  have "fd \<in> dom (registered_fd (poll_register po))"
    using assms(4) by (auto simp: poll_register_def Let_def dom_register)
  then have reg: "registered_fd ?po2 fd \<noteq> None" by auto
  have drop: "fd_to_remove ?po2 = [fd]" using assms(3) by (simp add: remove_fd_def)
  have "actions (remove_actions [fd] ?po2) = filter (\<lambda>a. act_fd a \<noteq> fd) (actions po)"
    using reg get assms(2) by auto
  with serve ne drop assms(8) show ?thesis by (simp add: poll_once_def Let_def del: remove_actions.simps)
qed

text \<open>A second action of a descriptor whose mask overlaps the registered one does not widen it: the events
  only the second waits for are never reported.\<close>

lemma overlapping_mask_is_lost:
  assumes "reg (act_fd a) = Some current" and "act_event a AND current \<noteq> 0"
  shows "register_action a reg = reg"
  using assms by (simp add: register_action_def)

text \<open>\<open>clear_all\<close> raises an exception as soon as there are two actions.\<close>

lemma clear_from_fails: "length xs < i + n \<Longrightarrow> 0 < n \<Longrightarrow> clear_from i n xs = Inl IndexError"
proof (induction n arbitrary: i xs)
  case (Suc n)
  show ?case
  proof (cases "i < length xs")
    case True
    with Suc.prems have "clear_from (Suc i) n (take i xs @ drop (Suc i) xs) = Inl IndexError"
      by (intro Suc.IH) auto
    with True show ?thesis by simp
  qed simp
qed simp

lemma clear_all_fails: "2 \<le> length (actions po) \<Longrightarrow> clear_all po = Inl IndexError"
  using clear_from_fails [of "tl (actions po)" 1 "length (actions po) - 1"]
  by (cases "actions po"; cases "tl (actions po)") (auto simp: clear_all_def)

end
