(* ===== verification/Poll_Process.thy ===== *)
theory Poll_Process
  imports Poller
begin

text \<open>
  The controller's three callbacks in the event loop of poller.py: one poll is the run of the process
  of theory \<open>Agent\<close> over the events of the poll in the order of their descriptors. So the set of
  watched descriptors that theory works with is what the queues of the poller amount to.
\<close>

section \<open>The descriptors in their order\<close>

text \<open>The netlink socket is opened first, then the listening one, then those of the environments.\<close>

fun fd_number :: "descriptor \<Rightarrow> nat" where
  "fd_number Netlink_Fd = 0"
| "fd_number Listen_Fd = 1"
| "fd_number (Env_Fd n) = Suc (Suc n)"

lemma fd_number_inj: "fd_number a = fd_number b \<Longrightarrow> a = b"
  by (cases a; cases b) simp_all

instantiation descriptor :: linorder
begin

definition less_eq_descriptor :: "descriptor \<Rightarrow> descriptor \<Rightarrow> bool" where
  "less_eq_descriptor a b \<longleftrightarrow> fd_number a \<le> fd_number b"

definition less_descriptor :: "descriptor \<Rightarrow> descriptor \<Rightarrow> bool" where
  "less_descriptor a b \<longleftrightarrow> fd_number a < fd_number b"

instance
  by standard (auto simp: less_eq_descriptor_def less_descriptor_def intro: fd_number_inj)

end

section \<open>The callbacks\<close>

text \<open>The controller, what it has sent, and what a read of each descriptor yields during a poll.\<close>

record daemon =
  dm_agent :: agent
  dm_out :: "sent list"
  from_kernel :: "u8 list option"
  from_listen :: "nat \<times> hello option"
  from_env :: "nat \<Rightarrow> unix_msg option"

type_synonym daemon_action = "(descriptor, daemon) action"

definition daemon_callback ::
  "(agent \<Rightarrow> (py_error + status) \<times> sent list \<times> agent) \<Rightarrow> daemon \<Rightarrow>
   (py_error + status) \<times> daemon_action list \<times> daemon" where
  "daemon_callback callback d = (let (res, out, st) = callback (dm_agent d) in
     (res, [], d\<lparr>dm_agent := st, dm_out := dm_out d @ out\<rparr>))"

definition env_action :: "(string \<Rightarrow> int) \<Rightarrow> kernel_cc \<Rightarrow> nat \<Rightarrow> daemon_action" where
  "env_action hash cc client = Action (Env_Fd client) READ_ERR_FLAGS
     (\<lambda>d. daemon_callback (read_unix_message hash cc client (from_env d client)) d) None"

definition netlink_action :: "(string \<Rightarrow> int) \<Rightarrow> daemon_action" where
  "netlink_action hash = Action Netlink_Fd READ_ERR_FLAGS
     (\<lambda>d. daemon_callback (read_netlink_message hash (from_kernel d)) d) None"

text \<open>An accepted environment gets an action of its own, which the next poll registers.\<close>

definition accept_callback ::
  "(string \<Rightarrow> int) \<Rightarrow> kernel_cc \<Rightarrow> daemon \<Rightarrow> (py_error + status) \<times> daemon_action list \<times> daemon" where
  "accept_callback hash cc d =
     (let (client, message) = from_listen d;
          (res, p) = accept_unix_conn hash client message \<lparr>pr_agent = dm_agent d, watched = []\<rparr> in
      (res, if watched p = [] then [] else [env_action hash cc client], d\<lparr>dm_agent := pr_agent p\<rparr>))"

definition listen_action :: "(string \<Rightarrow> int) \<Rightarrow> kernel_cc \<Rightarrow> daemon_action" where
  "listen_action hash cc = Action Listen_Fd READ_ERR_FLAGS (accept_callback hash cc) None"

fun daemon_action :: "(string \<Rightarrow> int) \<Rightarrow> kernel_cc \<Rightarrow> descriptor \<Rightarrow> daemon_action" where
  "daemon_action hash cc Netlink_Fd = netlink_action hash"
| "daemon_action hash cc Listen_Fd = listen_action hash cc"
| "daemon_action hash cc (Env_Fd client) = env_action hash cc client"

definition daemon_start :: "(string \<Rightarrow> int) \<Rightarrow> kernel_cc \<Rightarrow> (descriptor, daemon) poller" where
  "daemon_start hash cc = add_action (netlink_action hash) (add_action (listen_action hash cc) poller_start)"

text \<open>What an event of the poll is for the process.\<close>

fun event_of :: "daemon \<Rightarrow> descriptor \<times> int \<Rightarrow> agent_event" where
  "event_of d (fd, flag) =
     (if flag AND ERR_FLAGS \<noteq> 0 then Hang_Up fd
      else case fd of
        Netlink_Fd \<Rightarrow> From_Kernel (from_kernel d)
      | Listen_Fd \<Rightarrow> Accept (fst (from_listen d)) (snd (from_listen d))
      | Env_Fd client \<Rightarrow> From_Env client (from_env d client))"

section \<open>The correspondence\<close>

definition daemon_ok :: "(string \<Rightarrow> int) \<Rightarrow> kernel_cc \<Rightarrow> (descriptor, daemon) poller \<Rightarrow> bool" where
  "daemon_ok hash cc po \<longleftrightarrow> poller_ok po \<and>
     (\<forall>a \<in> set (actions po @ action_to_add po). a = daemon_action hash cc (act_fd a))"

text \<open>A descriptor that failed is gone for the process; the poller drops it at the end of the poll.\<close>

definition stands_for :: "(descriptor, daemon) poller \<Rightarrow> daemon \<Rightarrow> process \<Rightarrow> bool" where
  "stands_for po d p \<longleftrightarrow> set (watched p) = fds po - set (fd_to_remove po) \<and> pr_agent p = dm_agent d"

definition same_input :: "daemon \<Rightarrow> daemon \<Rightarrow> bool" where
  "same_input d d' \<longleftrightarrow> from_kernel d' = from_kernel d \<and> from_listen d' = from_listen d \<and> from_env d' = from_env d"

lemma daemon_action_fields [simp]:
  "act_fd (daemon_action hash cc fd) = fd" "act_event (daemon_action hash cc fd) = READ_ERR_FLAGS"
  "act_err_callback (daemon_action hash cc fd) = None"
  by (cases fd; simp add: netlink_action_def listen_action_def env_action_def)+

lemma daemon_get:
  assumes "daemon_ok hash cc po" and "fd \<in> act_fd ` set (actions po)"
  shows "get_action_by_fd fd po = [daemon_action hash cc fd]"
proof -
  obtain a where "a \<in> set (actions po)" "act_fd a = fd" using assms(2) by blast
  with assms(1) get_action_single [of po a] show ?thesis by (auto simp: daemon_ok_def)
qed

lemma stands_for_drop:
  assumes "stands_for po d p" and "dm_agent d' = st"
  shows "stands_for (remove_fd fd po) d' (poll_error fd (p\<lparr>pr_agent := st\<rparr>))"
  using assms by (auto simp: stands_for_def poll_error_def)

lemma stands_for_keep:
  "stands_for po d p \<Longrightarrow> dm_agent d' = st \<Longrightarrow> stands_for po d' (p\<lparr>pr_agent := st\<rparr>)"
  by (simp add: stands_for_def)

text \<open>What serving an event keeps of the poller.\<close>

definition serves ::
  "(string \<Rightarrow> int) \<Rightarrow> kernel_cc \<Rightarrow> daemon \<Rightarrow> descriptor \<Rightarrow> (descriptor, daemon) poller \<Rightarrow>
   (descriptor, daemon) poller \<Rightarrow> daemon \<Rightarrow> bool" where
  "serves hash cc d0 fd po po' d' \<longleftrightarrow> daemon_ok hash cc po' \<and> same_input d0 d' \<and> actions po' = actions po \<and>
     set (fd_to_remove po') \<subseteq> insert fd (set (fd_to_remove po)) \<and> (distinct (fd_to_remove po) \<longrightarrow> distinct (fd_to_remove po')) \<and>
     (fd \<noteq> Listen_Fd \<longrightarrow> action_to_add po' = action_to_add po)"

lemma serves_drop:
  "daemon_ok hash cc po \<Longrightarrow> same_input d0 d' \<Longrightarrow> serves hash cc d0 fd po (remove_fd fd po) d'"
  by (auto simp: serves_def daemon_ok_def) (simp add: remove_fd_def distinct_insert)

lemma serves_keep: "daemon_ok hash cc po \<Longrightarrow> same_input d0 d' \<Longrightarrow> serves hash cc d0 fd po po d'"
  by (auto simp: serves_def)

lemma serve_read:
  assumes ok: "daemon_ok hash cc po" and inp: "same_input d0 d" and st: "stands_for po d p"
    and flag: "flag AND READ_ERR_FLAGS \<noteq> 0" and fd: "fd \<in> set (watched p)"
    and act: "daemon_action hash cc fd = Action fd READ_ERR_FLAGS (\<lambda>d. daemon_callback (callback d) d) None"
    and cb: "callback d = callback d0"
  shows "\<exists>po' d' p' out. serve_actions flag [daemon_action hash cc fd] (po, d) = (po', d') \<and>
    poll_callback fd (callback d0) p = (out, p') \<and> dm_out d' = dm_out d @ out \<and> stands_for po' d' p' \<and>
    serves hash cc d0 fd po po' d'"
proof -
  obtain res out ag where run: "callback d0 (dm_agent d) = (res, out, ag)" by (metis prod_cases3)
  let ?d = "d\<lparr>dm_agent := ag, dm_out := dm_out d @ out\<rparr>"
  have same: "same_input d0 ?d" using inp by (simp add: same_input_def)
  have serve: "serve_actions flag [daemon_action hash cc fd] (po, d) = (if res = Inr Continue then po else remove_fd fd po, ?d)"
    using run flag cb by (simp add: act daemon_callback_def)
  have "pr_agent p = dm_agent d" using st by (simp add: stands_for_def)
  with run fd have "poll_callback fd (callback d0) p =
      (out, if res = Inr Continue then p\<lparr>pr_agent := ag\<rparr> else poll_error fd (p\<lparr>pr_agent := ag\<rparr>))"
    by (simp add: poll_callback_def)
  with serve show ?thesis
    using stands_for_keep [OF st, of ?d ag] stands_for_drop [OF st, of ?d ag fd]
      serves_keep [OF ok same, of fd] serves_drop [OF ok same, of fd]
    by (cases "res = Inr Continue") auto
qed

lemma serve_accept:
  assumes ok: "daemon_ok hash cc po" and inp: "same_input d0 d" and st: "stands_for po d p"
    and flag: "flag AND READ_ERR_FLAGS \<noteq> 0" and fd: "Listen_Fd \<in> set (watched p)"
    and input: "from_listen d0 = (client, message)" and fresh: "Env_Fd client \<notin> fds po"
    and drop: "set (fd_to_remove po) \<subseteq> act_fd ` set (actions po)"
  shows "\<exists>po' d' p'. serve_actions flag [listen_action hash cc] (po, d) = (po', d') \<and>
    process_step hash cc (Accept client message) p = ([], p') \<and> dm_out d' = dm_out d \<and> stands_for po' d' p' \<and>
    serves hash cc d0 Listen_Fd po po' d'"
proof -
  have in_d: "from_listen d = (client, message)" and ag: "pr_agent p = dm_agent d"
    using inp input st by (simp_all add: same_input_def stands_for_def)
  consider (bad) res where "res \<noteq> Inr Continue"
      "\<And>q. accept_unix_conn hash client message q = (res, q)"
    | (ignored) "\<And>q. accept_unix_conn hash client message q = (Inr Continue, q)"
    | (new) env where "\<And>q. accept_unix_conn hash client message q = (Inr Continue,
        q\<lparr>pr_agent := (pr_agent q)\<lparr>ag_flows := register_env hash env (ag_flows (pr_agent q))\<rparr>,
          watched := Env_Fd client # watched q\<rparr>)"
    by (cases message; cases "he_type (the message) = Some INIT"; cases "he_env_id (the message)")
      (auto simp: accept_unix_conn_def)
  then show ?thesis
  proof cases
    case bad
    have "serve_actions flag [listen_action hash cc] (po, d) = (remove_fd Listen_Fd po, d)"
      using flag in_d bad by (simp add: listen_action_def accept_callback_def)
    moreover have "process_step hash cc (Accept client message) p = ([], poll_error Listen_Fd p)"
      using bad fd by simp
    moreover have "stands_for (remove_fd Listen_Fd po) d (poll_error Listen_Fd p)"
      using stands_for_drop [OF st ag [symmetric], of Listen_Fd] by simp
    ultimately show ?thesis using serves_drop [OF ok inp, of Listen_Fd] by blast
  next
    case ignored
    have "serve_actions flag [listen_action hash cc] (po, d) = (po, d)"
      using flag in_d by (simp add: listen_action_def accept_callback_def ignored)
    moreover have "process_step hash cc (Accept client message) p = ([], p)"
      using fd by (simp add: ignored)
    ultimately show ?thesis using serves_keep [OF ok inp, of Listen_Fd] st by blast
  next
    case new
    let ?ag = "(dm_agent d)\<lparr>ag_flows := register_env hash env (ag_flows (dm_agent d))\<rparr>"
    let ?po = "add_action (env_action hash cc client) po" and ?d = "d\<lparr>dm_agent := ?ag\<rparr>"
    let ?p = "p\<lparr>pr_agent := ?ag, watched := Env_Fd client # watched p\<rparr>"
    have fd_env: "act_fd (env_action hash cc client) = Env_Fd client" by (simp add: env_action_def)
    have "serve_actions flag [listen_action hash cc] (po, d) = (?po, ?d)"
      using flag in_d by (simp add: listen_action_def accept_callback_def new)
    moreover have "process_step hash cc (Accept client message) p = ([], ?p)"
      using fd ag by (simp add: new)
    moreover have "stands_for ?po ?d ?p"
      using st fresh drop by (auto simp: stands_for_def fd_env)
    moreover have "daemon_ok hash cc ?po"
      using ok fresh add_action_ok [of po "env_action hash cc client"] by (auto simp: daemon_ok_def fd_env)
    then have "serves hash cc d0 Listen_Fd po ?po ?d"
      using inp by (auto simp: serves_def same_input_def)
    ultimately show ?thesis by fastforce
  qed
qed

section \<open>One poll is a run of the process\<close>

lemma serve_one:
  assumes ok: "daemon_ok hash cc po" and inp: "same_input d0 d" and st: "stands_for po d p"
    and flag: "flag AND READ_ERR_FLAGS \<noteq> 0" and fd: "fd \<in> act_fd ` set (actions po)" "fd \<notin> set (fd_to_remove po)"
    and fresh: "fd = Listen_Fd \<longrightarrow> Env_Fd (fst (from_listen d0)) \<notin> fds po"
    and drop: "set (fd_to_remove po) \<subseteq> act_fd ` set (actions po)"
  shows "\<exists>po' d' p' out. serve_events ((fd, flag) # es) (po, d) = serve_events es (po', d') \<and>
    process_step hash cc (event_of d0 (fd, flag)) p = (out, p') \<and> dm_out d' = dm_out d @ out \<and> stands_for po' d' p' \<and>
    serves hash cc d0 fd po po' d'"
proof -
  have get: "get_action_by_fd fd po = [daemon_action hash cc fd]" by (rule daemon_get [OF ok fd(1)])
  have watched: "fd \<in> set (watched p)" using st fd by (auto simp: stands_for_def)
  show ?thesis
  proof (cases "flag AND ERR_FLAGS = 0")
    case False
    have "stands_for (remove_fd fd po) d (poll_error fd p)"
      using stands_for_drop [OF st, of d "pr_agent p" fd] st by (simp add: stands_for_def)
    with False get show ?thesis using serves_drop [OF ok inp, of fd] by auto
  next
    case True
    have served: "serve_events ((fd, flag) # es) (po, d) = serve_events es (po', d')"
      if "serve_actions flag [daemon_action hash cc fd] (po, d) = (po', d')" for po' d'
      using True get that by (simp del: serve_actions.simps daemon_action.simps)
    show ?thesis
    proof (cases fd)
      case Listen_Fd
      have "\<exists>po' d' p'. serve_actions flag [listen_action hash cc] (po, d) = (po', d') \<and>
          process_step hash cc (Accept (fst (from_listen d0)) (snd (from_listen d0))) p = ([], p') \<and>
          dm_out d' = dm_out d \<and> stands_for po' d' p' \<and> serves hash cc d0 Listen_Fd po po' d'"
        using fresh watched Listen_Fd by (intro serve_accept [OF ok inp st flag _ _ _ drop]) simp_all
      then obtain po' d' p' where "serve_actions flag [daemon_action hash cc fd] (po, d) = (po', d')"
        "process_step hash cc (event_of d0 (fd, flag)) p = ([], p')" "dm_out d' = dm_out d @ []" "stands_for po' d' p'"
        "serves hash cc d0 fd po po' d'" using True Listen_Fd by auto
      with served show ?thesis by blast
    next
      case Netlink_Fd
      have "\<exists>po' d' p' out. serve_actions flag [daemon_action hash cc fd] (po, d) = (po', d') \<and>
          poll_callback fd (read_netlink_message hash (from_kernel d0)) p = (out, p') \<and> dm_out d' = dm_out d @ out \<and>
          stands_for po' d' p' \<and> serves hash cc d0 fd po po' d'"
        using inp by (intro serve_read [OF ok inp st flag watched, of "\<lambda>d. read_netlink_message hash (from_kernel d)"])
          (simp_all add: Netlink_Fd netlink_action_def same_input_def)
      moreover have "process_step hash cc (event_of d0 (fd, flag)) p = poll_callback fd (read_netlink_message hash (from_kernel d0)) p"
        using True Netlink_Fd by simp
      ultimately show ?thesis using served by metis
    next
      case (Env_Fd client)
      have "\<exists>po' d' p' out. serve_actions flag [daemon_action hash cc fd] (po, d) = (po', d') \<and>
          poll_callback fd (read_unix_message hash cc client (from_env d0 client)) p = (out, p') \<and>
          dm_out d' = dm_out d @ out \<and> stands_for po' d' p' \<and> serves hash cc d0 fd po po' d'"
        using inp by (intro serve_read [OF ok inp st flag watched, of "\<lambda>d. read_unix_message hash cc client (from_env d client)"])
          (simp_all add: Env_Fd env_action_def same_input_def)
      moreover have "process_step hash cc (event_of d0 (fd, flag)) p =
          poll_callback fd (read_unix_message hash cc client (from_env d0 client)) p"
        using True Env_Fd by simp
      ultimately show ?thesis using served by metis
    qed
  qed
qed

text \<open>The events of a poll: each registered descriptor at most once, with a flag that was asked for.\<close>

definition polled :: "descriptor set \<Rightarrow> (descriptor \<times> int) list \<Rightarrow> bool" where
  "polled F es \<longleftrightarrow> distinct (map fst es) \<and> (\<forall>(fd, flag) \<in> set es. fd \<in> F \<and> flag AND READ_ERR_FLAGS \<noteq> 0)"

lemma serve_all:
  assumes "daemon_ok hash cc po" and "same_input d0 d" and "stands_for po d p"
    and "polled (act_fd ` set (actions po)) es" and "set (fd_to_remove po) \<inter> fst ` set es = {}"
    and "Listen_Fd \<in> fst ` set es \<longrightarrow> Env_Fd (fst (from_listen d0)) \<notin> fds po"
    and "set (fd_to_remove po) \<subseteq> act_fd ` set (actions po)" and "distinct (fd_to_remove po)"
  shows "\<exists>po' d' p' out. serve_events es (po, d) = Inr (po', d') \<and>
    process_run hash cc (map (event_of d0) es) p = (out, p') \<and> dm_out d' = dm_out d @ out \<and> stands_for po' d' p' \<and>
    daemon_ok hash cc po' \<and> set (fd_to_remove po') \<subseteq> act_fd ` set (actions po') \<and> distinct (fd_to_remove po')"
  using assms
proof (induction es arbitrary: po d p)
  case (Cons e es)
  obtain fd flag where e: "e = (fd, flag)" by (cases e)
  have "\<exists>po' d' p' out. serve_events ((fd, flag) # es) (po, d) = serve_events es (po', d') \<and>
      process_step hash cc (event_of d0 (fd, flag)) p = (out, p') \<and> dm_out d' = dm_out d @ out \<and> stands_for po' d' p' \<and>
      serves hash cc d0 fd po po' d'"
    using Cons.prems unfolding e by (intro serve_one) (auto simp: polled_def)
  then obtain po1 d1 p1 out1 where step: "serve_events ((fd, flag) # es) (po, d) = serve_events es (po1, d1)"
    "process_step hash cc (event_of d0 (fd, flag)) p = (out1, p1)" "dm_out d1 = dm_out d @ out1" "stands_for po1 d1 p1"
    and keeps: "serves hash cc d0 fd po po1 d1" by blast
  have acts: "actions po1 = actions po" and drop: "set (fd_to_remove po1) \<subseteq> insert fd (set (fd_to_remove po))"
    using keeps by (simp_all add: serves_def)
  have "\<exists>po' d' p' out. serve_events es (po1, d1) = Inr (po', d') \<and>
      process_run hash cc (map (event_of d0) es) p1 = (out, p') \<and> dm_out d' = dm_out d1 @ out \<and> stands_for po' d' p' \<and>
      daemon_ok hash cc po' \<and> set (fd_to_remove po') \<subseteq> act_fd ` set (actions po') \<and> distinct (fd_to_remove po')"
  proof (rule Cons.IH)
    show "daemon_ok hash cc po1" "same_input d0 d1" "distinct (fd_to_remove po1)"
      using keeps Cons.prems(8) by (simp_all add: serves_def)
    show "stands_for po1 d1 p1" by (rule step(4))
    show "polled (act_fd ` set (actions po1)) es" using Cons.prems(4) by (simp add: polled_def acts)
    have new: "fd \<notin> fst ` set es" using Cons.prems(4) by (simp add: polled_def e)
    with drop Cons.prems(5) show "set (fd_to_remove po1) \<inter> fst ` set es = {}" by (auto simp: e)
    show "set (fd_to_remove po1) \<subseteq> act_fd ` set (actions po1)"
      using drop Cons.prems(4,7) by (auto simp: acts polled_def e)
    show "Listen_Fd \<in> fst ` set es \<longrightarrow> Env_Fd (fst (from_listen d0)) \<notin> fds po1"
      using new keeps Cons.prems(6) by (cases "fd = Listen_Fd") (auto simp: serves_def acts)
  qed
  then obtain po' d' p' out where "serve_events es (po1, d1) = Inr (po', d')"
    "process_run hash cc (map (event_of d0) es) p1 = (out, p')" "dm_out d' = dm_out d1 @ out" "stands_for po' d' p'"
    "daemon_ok hash cc po'" "set (fd_to_remove po') \<subseteq> act_fd ` set (actions po')" "distinct (fd_to_remove po')" by blast
  with step show ?case by (auto simp: e simp del: event_of.simps process_step.simps serve_events.simps)
qed simp

lemma fd_event_in: "polled F es \<Longrightarrow> F = {} \<Longrightarrow> es = []"
  by (cases es) (auto simp: polled_def)

lemma polled_sort: "polled F es \<Longrightarrow> polled F (sort es)"
proof -
  assume "polled F es"
  moreover have "distinct (map fst (sort es)) = distinct (map fst es)"
    by (metis mset_map mset_eq_imp_distinct_iff mset_sort)
  ultimately show ?thesis by (simp add: polled_def)
qed

text \<open>One poll of the event loop is a run of the controller: when the kernel reports each
  registered descriptor at most once with a flag it was registered for, and an accepted environment
  gets a descriptor that is not in use, \<open>poll_once\<close> raises no exception, says whether there was an
  event, and serves exactly the process events of the poll in the order of their descriptors -
  although new actions wait for the next poll and failed descriptors are dropped only at its end, in
  whatever order Python iterates its set.\<close>

theorem poll_refines_process:
  assumes "daemon_ok hash cc po" and "stands_for po d p" and "fd_to_remove po = []" and "polled (fds po) es"
    and "Listen_Fd \<in> fst ` set es \<longrightarrow> Env_Fd (fst (from_listen d)) \<notin> fds po" and "\<forall>xs. mset (order xs) = mset xs"
  shows "\<exists>po' d' p' out. poll_once order es po d = Inr (es \<noteq> [], po', d') \<and>
    process_run hash cc (map (event_of d) (sort es)) p = (out, p') \<and> dm_out d' = dm_out d @ out \<and>
    stands_for po' d' p' \<and> daemon_ok hash cc po' \<and> fd_to_remove po' = []"
proof (cases "es = []")
  case True
  have "daemon_ok hash cc (poll_register po)"
    using assms(1) poll_register_ok by (auto simp: daemon_ok_def)
  moreover have "stands_for (poll_register po) d p" using assms(2) by (simp add: stands_for_def)
  ultimately show ?thesis using True assms(1-3) by (auto simp: poll_once_def Let_def)
next
  case False
  then have some: "actions po @ action_to_add po \<noteq> []" using fd_event_in [OF assms(4)] by auto
  let ?po = "poll_register po"
  have "daemon_ok hash cc ?po" using assms(1) poll_register_ok by (auto simp: daemon_ok_def)
  then have "\<exists>po' d' p' out. serve_events (sort es) (?po, d) = Inr (po', d') \<and>
    process_run hash cc (map (event_of d) (sort es)) p = (out, p') \<and> dm_out d' = dm_out d @ out \<and> stands_for po' d' p' \<and>
    daemon_ok hash cc po' \<and> set (fd_to_remove po') \<subseteq> act_fd ` set (actions po') \<and> distinct (fd_to_remove po')"
    using assms polled_sort [OF assms(4)] by (intro serve_all) (simp_all add: same_input_def stands_for_def)
  then obtain po2 d2 p2 out where serve: "serve_events (sort es) (?po, d) = Inr (po2, d2)"
    and run: "process_run hash cc (map (event_of d) (sort es)) p = (out, p2)" "dm_out d2 = dm_out d @ out"
    and st: "stands_for po2 d2 p2" and ok: "daemon_ok hash cc po2"
    and drop: "set (fd_to_remove po2) \<subseteq> act_fd ` set (actions po2)" "distinct (fd_to_remove po2)" by blast
  let ?xs = "order (fd_to_remove po2)"
  have xs: "set ?xs = set (fd_to_remove po2)" "distinct ?xs"
    using assms(6) drop(2) by (metis mset_eq_setD, metis mset_eq_imp_distinct_iff)
  let ?po3 = "po2\<lparr>registered_fd := (registered_fd po2) |` (- set ?xs),
    actions := filter (\<lambda>a. act_fd a \<notin> set ?xs) (actions po2), fd_to_remove := []\<rparr>"
  have pok: "poller_ok po2" using ok by (simp add: daemon_ok_def)
  have "remove_actions ?xs po2 = po2\<lparr>registered_fd := (registered_fd po2) |` (- set ?xs),
      actions := filter (\<lambda>a. act_fd a \<notin> set ?xs) (actions po2)\<rparr>"
    using drop(1) xs by (intro remove_actions_ok [OF pok]) simp_all
  then have "poll_once order es po d = Inr (True, ?po3, d2)"
    using False some serve by (simp add: poll_once_def Let_def)
  moreover have "poller_ok ?po3"
    using pok by (auto simp: poller_ok_def distinct_map_filter)
  then have "daemon_ok hash cc ?po3" using ok by (auto simp: daemon_ok_def)
  moreover have "act_fd a \<notin> set ?xs" if "a \<in> set (action_to_add po2)" for a
    using pok drop(1) that xs(1) by (fastforce simp: poller_ok_def)
  then have "stands_for ?po3 d2 p2" using st xs(1) by (auto simp: stands_for_def)
  ultimately show ?thesis using run False by fastforce
qed

definition demo_daemon :: daemon where
  "demo_daemon = \<lparr>dm_agent = agent_start, dm_out = [], from_kernel = Some (replicate 12 0),
     from_listen = (7, Some \<lparr>he_type = Some INIT, he_env_id = Some ''env''\<rparr>), from_env = (\<lambda>_. None)\<rparr>"

lemma daemon_start_ok: "daemon_ok hash cc (daemon_start hash cc)"
  by (simp add: daemon_ok_def poller_ok_def daemon_start_def poller_start_def netlink_action_def listen_action_def)

theorem poll_refines_process_witness:
  "\<exists>po' d' p' out. poll_once rev [(Listen_Fd, POLLIN), (Netlink_Fd, POLLIN)] (daemon_start (\<lambda>_. 0) CC_Neo) demo_daemon =
      Inr ([(Listen_Fd, POLLIN), (Netlink_Fd, POLLIN)] \<noteq> [], po', d') \<and>
    process_run (\<lambda>_. 0) CC_Neo (map (event_of demo_daemon) (sort [(Listen_Fd, POLLIN), (Netlink_Fd, POLLIN)])) process_start =
      (out, p') \<and> dm_out d' = dm_out demo_daemon @ out \<and>
    stands_for po' d' p' \<and> daemon_ok (\<lambda>_. 0) CC_Neo po' \<and> fd_to_remove po' = []"
  by (rule poll_refines_process [OF daemon_start_ok])
    (auto simp: stands_for_def process_start_def demo_daemon_def daemon_start_def poller_start_def netlink_action_def
      listen_action_def polled_def c_consts)

section \<open>The loop\<close>

text \<open>
  \<open>polling\<close>: poll after poll from the start of \<open>main\<close>. Between two polls what the descriptors hold
  may change; in a poll the kernel reports what was registered, and a new client is a new
  descriptor. The list collects the events that were served.
\<close>

inductive daemon_reach ::
  "(string \<Rightarrow> int) \<Rightarrow> kernel_cc \<Rightarrow> agent_event list \<Rightarrow> (descriptor, daemon) poller \<Rightarrow> daemon \<Rightarrow> bool"
  for hash cc where
  start: "dm_agent d = agent_start \<Longrightarrow> dm_out d = [] \<Longrightarrow> daemon_reach hash cc [] (daemon_start hash cc) d"
| input: "daemon_reach hash cc evs po d \<Longrightarrow> dm_agent d' = dm_agent d \<Longrightarrow> dm_out d' = dm_out d \<Longrightarrow>
    daemon_reach hash cc evs po d'"
| poll: "daemon_reach hash cc evs po d \<Longrightarrow> polled (fds po) es \<Longrightarrow>
    (Listen_Fd \<in> fst ` set es \<Longrightarrow> Env_Fd (fst (from_listen d)) \<notin> fds po) \<Longrightarrow> (\<And>xs. mset (order xs) = mset xs) \<Longrightarrow>
    poll_once order es po d = Inr (b, po', d') \<Longrightarrow> daemon_reach hash cc (evs @ map (event_of d) (sort es)) po' d'"

lemma stands_for_same: "stands_for po d p \<Longrightarrow> dm_agent d' = dm_agent d \<Longrightarrow> stands_for po d' p"
  by (simp add: stands_for_def)

lemma loop_run:
  assumes "daemon_reach hash cc evs po d"
  shows "\<exists>p. process_run hash cc evs process_start = (dm_out d, p) \<and> stands_for po d p \<and> daemon_ok hash cc po \<and>
    fd_to_remove po = []"
  using assms
proof induction
  case (start d)
  then have "stands_for (daemon_start hash cc) d process_start"
    by (auto simp: stands_for_def process_start_def daemon_start_def poller_start_def netlink_action_def listen_action_def)
  then show ?case using start daemon_start_ok by (simp add: daemon_start_def poller_start_def)
next
  case (input evs po d d')
  then show ?case using stands_for_same by metis
next
  case (poll evs po d es order b po' d')
  then obtain p where p: "process_run hash cc evs process_start = (dm_out d, p)" "stands_for po d p"
    "daemon_ok hash cc po" "fd_to_remove po = []" by blast
  from poll_refines_process [OF p(3,2,4) poll.hyps(2), of order] poll.hyps(3-5)
  obtain p' out where "process_run hash cc (map (event_of d) (sort es)) p = (out, p')" "dm_out d' = dm_out d @ out"
    "stands_for po' d' p'" "daemon_ok hash cc po'" "fd_to_remove po' = []" by auto
  with p(1) show ?case by (auto simp: process_run_append)
qed



end
