(* ===== verification/Ipc.thy ===== *)
theory Ipc
  imports Poll_Process Agent_Packets
begin

text \<open>
  The controller's sockets: ipc_socket.py frames messages on a stream by their length, netlink.py
  packets by the header of netlink. The socket of an environment is non-blocking. Below it, what
  the stream holds for a read and how much of a write it takes is the kernel's answer.
\<close>

section \<open>Frames\<close>

text \<open>\<open>struct.pack("!H", n)\<close> and its inverse: two bytes in network order, an exception beyond 65535.\<close>

definition pack_H :: "nat \<Rightarrow> py_error + u8 list" where
  "pack_H n = (if n < 65536 then Inr [word_of_nat (n div 256), word_of_nat (n mod 256)] else Inl StructError)"

definition unpack_H :: "u8 list \<Rightarrow> nat" where
  "unpack_H bs = unat (bs ! 0) * 256 + unat (bs ! 1)"

lemma unpack_pack_H: "pack_H n = Inr bs \<Longrightarrow> length bs = 2 \<and> unpack_H bs = n"
  by (auto simp: pack_H_def unpack_H_def unat_of_nat split: if_splits)

definition frame :: "u8 list \<Rightarrow> py_error + u8 list" where
  "frame message = (case pack_H (length message) of Inl e \<Rightarrow> Inl e | Inr h \<Rightarrow> Inr (h @ message))"

section \<open>Reading\<close>

text \<open>
  What the stream holds: pieces that arrived together, the end of the stream (an empty piece), an
  error, and when all is read the error of a read that would block. A read takes at most the bytes
  it asks for.
\<close>

datatype arrival = Piece "u8 list" | Failure

fun recv :: "nat \<Rightarrow> arrival list \<Rightarrow> arrival \<times> arrival list" where
  "recv n [] = (Failure, [])"
| "recv n (Failure # as) = (Failure, as)"
| "recv n (Piece bs # as) = (Piece (take n bs), if length bs \<le> n then as else Piece (drop n bs) # as)"

record ipc =
  connected :: bool
  incoming :: "arrival list"

text \<open>A read of a closed socket fails.\<close>

definition sock_recv :: "nat \<Rightarrow> ipc \<Rightarrow> arrival \<times> ipc" where
  "sock_recv n s = (if connected s then let (a, rest) = recv n (incoming s) in (a, s\<lparr>incoming := rest\<rparr>)
     else (Failure, s))"

definition ipc_close :: "ipc \<Rightarrow> ipc" where
  "ipc_close s = s\<lparr>connected := False\<rparr>"

text \<open>
  The loop for the payload. After an error it logs the length of the last piece - an exception when
  there was none -, closes the socket and goes on: nothing leaves the loop but enough bytes or the
  end of the stream. (A time-out is an error for Python, so the clause after it is never reached.
  \<open>print_exception\<close> with one argument needs Python 3.10; an older one raises an exception here.)
\<close>

partial_function (option) read_payload ::
  "nat \<Rightarrow> u8 list \<Rightarrow> bool \<Rightarrow> ipc \<Rightarrow> ((py_error + u8 list option) \<times> ipc) option" where
  "read_payload n got some s =
     (if n \<le> length got then Some (Inr (Some got), s)
      else case sock_recv (n - length got) s of
        (Failure, s') \<Rightarrow> if some then read_payload n got some (ipc_close s') else Some (Inl NameError, s')
      | (Piece bs, s') \<Rightarrow> if bs = [] then Some (Inr None, ipc_close s')
          else read_payload n (got @ bs) True s')"

definition ipc_read :: "ipc \<Rightarrow> ((py_error + u8 list option) \<times> ipc) option" where
  "ipc_read s =
     (if \<not> connected s then Some (Inr None, s)
      else case sock_recv 2 s of
        (Failure, s') \<Rightarrow> Some (Inl OSError, s')
      | (Piece raw, s') \<Rightarrow> if length raw = 2 then read_payload (unpack_H raw) [] False s'
          else Some (Inr None, ipc_close s'))"

section \<open>Writing\<close>

text \<open>
  How a send ends: so many bytes taken, or one of the errors the code tells apart (\<open>Broken_Pipe\<close> is
  EPIPE or EBADF).
\<close>

datatype send_answer = Taken nat | Broken_Pipe | Try_Again | Timed_Out | Other_Error

text \<open>
  The loop of \<open>write\<close> offers the whole message again after a partial send. The result is the value
  returned with the bytes the stream took and whether the socket stays open; \<open>None\<close> is a write that
  still waits when the answers are used up.
\<close>

fun write_loop :: "u8 list \<Rightarrow> nat \<Rightarrow> u8 list \<Rightarrow> send_answer list \<Rightarrow> (int \<times> u8 list \<times> bool) option" where
  "write_loop message sent wire as =
     (if length message \<le> sent then Some (int sent, wire, True)
      else case as of
        [] \<Rightarrow> None
      | Taken k # as' \<Rightarrow> write_loop message (sent + k) (wire @ take k message) as'
      | Try_Again # as' \<Rightarrow> write_loop message sent wire as'
      | Timed_Out # as' \<Rightarrow> write_loop message sent wire as'
      | _ \<Rightarrow> Some (-1, wire, False))"

definition ipc_write :: "bool \<Rightarrow> u8 list \<Rightarrow> send_answer list \<Rightarrow> py_error + (int \<times> u8 list \<times> bool) option" where
  "ipc_write conn message as =
     (if \<not> conn then Inr (Some (-1, [], False))
      else case frame message of Inl e \<Rightarrow> Inl e | Inr m \<Rightarrow> Inr (write_loop m 0 [] as))"

text \<open>The buffered variant keeps an offset instead.\<close>

record ipc_buffer =
  message_buffer :: "u8 list list"
  buffer_length :: int
  write_offset :: nat

definition add_to_buffer :: "u8 list \<Rightarrow> ipc_buffer \<Rightarrow> py_error + int \<times> ipc_buffer" where
  "add_to_buffer message b = (case frame message of
     Inl e \<Rightarrow> Inl e
   | Inr m \<Rightarrow> let b' = b\<lparr>message_buffer := message_buffer b @ [m], buffer_length := buffer_length b + int (length m)\<rparr> in
       Inr (buffer_length b', b'))"

text \<open>One send of \<open>write_once\<close>: the value returned, the bytes taken, the buffer, and whether the socket stays open.\<close>

definition write_once :: "bool \<Rightarrow> send_answer \<Rightarrow> ipc_buffer \<Rightarrow> int \<times> u8 list \<times> ipc_buffer \<times> bool" where
  "write_once conn answer b =
     (if \<not> conn then (-1, [], b, False)
      else case message_buffer b of
        [] \<Rightarrow> (0, [], b, True)
      | message # rest \<Rightarrow> (case answer of
            Taken k \<Rightarrow>
              let off = write_offset b + k;
                  b' = (if off = length message then b\<lparr>message_buffer := rest, write_offset := 0\<rparr>
                    else b\<lparr>write_offset := off\<rparr>) in
              (int k, take k (drop (write_offset b) message), b'\<lparr>buffer_length := buffer_length b' - int k\<rparr>, True)
          | Broken_Pipe \<Rightarrow> (-1, [], b, False)
          | _ \<Rightarrow> (0, [], b, True)))"

section \<open>Netlink\<close>

definition MAX_PAYLOAD_LEN :: nat where [c_consts]: "MAX_PAYLOAD_LEN = 1024"
definition NL_HEADER_LEN :: nat where [c_consts]: "NL_HEADER_LEN = 16"

definition write_nl_header :: "u32 \<Rightarrow> u32 \<Rightarrow> u8 list" where
  "write_nl_header port n = to_le 4 n @ to_le 2 (0 :: u16) @ to_le 2 (0 :: u16) @ to_le 4 (0 :: u32) @ to_le 4 port"

text \<open>\<open>None\<close> is the return value -1, with nothing sent.\<close>

definition nl_send_msg :: "u32 \<Rightarrow> u8 list \<Rightarrow> u8 list option" where
  "nl_send_msg port message = (let total = length message + NL_HEADER_LEN in
     if total > MAX_PAYLOAD_LEN then None else Some (write_nl_header port (word_of_nat total) @ message))"

text \<open>A read of 1024 bytes of a datagram: the rest of a longer one is lost.\<close>

definition next_msg :: "u8 list \<Rightarrow> u8 list option" where
  "next_msg datagram = (let buf = take MAX_PAYLOAD_LEN datagram in
     if length buf \<le> NL_HEADER_LEN then None else Some (drop NL_HEADER_LEN buf))"

section \<open>A message written whole is read whole\<close>

lemma recv_payload [simp]: "n \<le> length bs \<Longrightarrow> recv n (Piece bs # as) =
  (Piece (take n bs), if length bs \<le> n then as else Piece (drop n bs) # as)"
  by simp

lemma read_frame:
  assumes "connected s" and "frame message = Inr m" and "incoming s = Piece (m @ after) # rest"
  shows "ipc_read s = Some (Inr (Some message), s\<lparr>incoming := if after = [] then rest else Piece after # rest\<rparr>)"
proof -
  obtain h where h: "pack_H (length message) = Inr h" and m: "m = h @ message"
    using assms(2) by (auto simp: frame_def split: sum.splits)
  have len: "length h = 2" "unpack_H h = length message" using unpack_pack_H [OF h] by simp_all
  let ?s1 = "s\<lparr>incoming := if message @ after = [] then rest else Piece (message @ after) # rest\<rparr>"
  have "sock_recv 2 s = (Piece h, ?s1)"
    using assms(1,3) len by (simp add: sock_recv_def m)
  then have read: "ipc_read s = read_payload (length message) [] False ?s1"
    using assms(1) len by (simp add: ipc_read_def)
  show ?thesis
  proof (cases "message = []")
    case True
    with read show ?thesis by (simp add: read_payload.simps)
  next
    case False
    let ?s2 = "s\<lparr>incoming := if after = [] then rest else Piece after # rest\<rparr>"
    have "sock_recv (length message - length ([] :: u8 list)) ?s1 = (Piece message, ?s2)"
      using assms(1) False by (simp add: sock_recv_def)
    with False have "read_payload (length message) [] False ?s1 = read_payload (length message) message True ?s2"
      by (subst read_payload.simps) simp
    with read show ?thesis by (simp add: read_payload.simps)
  qed
qed

lemma write_waits: "set tries \<subseteq> {Try_Again, Timed_Out} \<Longrightarrow> sent < length m \<Longrightarrow>
  write_loop m sent wire (tries @ as) = write_loop m sent wire as"
  by (induction tries) auto

text \<open>Framing round trip: a message of at most 65535 bytes whose first accepted send takes all of it, after
  any number of attempts that must be repeated, is what the other side reads, whatever follows it
  in the stream.\<close>

theorem ipc_roundtrip:
  assumes "length message < 65536" and "set tries \<subseteq> {Try_Again, Timed_Out}"
  shows "\<exists>wire. ipc_write True message (tries @ [Taken (length message + 2)]) = Inr (Some (int (length message + 2), wire, True)) \<and>
    (\<forall>s after rest. connected s \<longrightarrow> incoming s = Piece (wire @ after) # rest \<longrightarrow>
      ipc_read s = Some (Inr (Some message), s\<lparr>incoming := if after = [] then rest else Piece after # rest\<rparr>))"
proof -
  obtain h where h: "pack_H (length message) = Inr h" using assms(1) by (simp add: pack_H_def)
  then have len: "length h = 2" and m: "frame message = Inr (h @ message)"
    using unpack_pack_H by (auto simp: frame_def)
  have "write_loop (h @ message) 0 [] (tries @ [Taken (length message + 2)]) =
      write_loop (h @ message) 0 [] [Taken (length message + 2)]"
    by (rule write_waits [OF assms(2)]) (simp add: len)
  also have "\<dots> = Some (int (length message + 2), h @ message, True)" using len by simp
  finally have "ipc_write True message (tries @ [Taken (length message + 2)]) =
      Inr (Some (int (length message + 2), h @ message, True))" using m by (simp add: ipc_write_def)
  with read_frame [OF _ m] show ?thesis by blast
qed

section \<open>What goes wrong otherwise\<close>

lemma read_payload_ends:
  assumes "read_payload n got some s = Some r"
  shows "length got < n \<and> some \<longrightarrow> connected s"
proof (rule read_payload.raw_induct [where P = "\<lambda>n got some s r. length got < n \<and> some \<longrightarrow> connected s", OF _ assms])
  fix f :: "nat \<Rightarrow> u8 list \<Rightarrow> bool \<Rightarrow> ipc \<Rightarrow> ((py_error + u8 list option) \<times> ipc) option" and n got some s r
  assume IH: "\<And>n got some s r. f n got some s = Some r \<Longrightarrow> length got < n \<and> some \<longrightarrow> connected s"
    and body: "(if n \<le> length got then Some (Inr (Some got), s)
      else case sock_recv (n - length got) s of
        (Failure, s') \<Rightarrow> if some then f n got some (ipc_close s') else Some (Inl NameError, s')
      | (Piece bs, s') \<Rightarrow> if bs = [] then Some (Inr None, ipc_close s') else f n (got @ bs) True s') = Some r"
  show "length got < n \<and> some \<longrightarrow> connected s"
  proof (rule ccontr)
    assume "\<not> (length got < n \<and> some \<longrightarrow> connected s)"
    then have stuck: "length got < n" some "\<not> connected s" by simp_all
    then have "f n got some (ipc_close s) = Some r" using body by (simp add: sock_recv_def)
    from IH [OF this] stuck show False by (simp add: ipc_close_def)
  qed
qed

lemma closed_read_diverges: "length got < n \<Longrightarrow> \<not> connected s \<Longrightarrow> read_payload n got True s = None"
  using read_payload_ends [of n got True s] by (cases "read_payload n got True s") auto

text \<open>C26: A message that arrives in two pieces hangs the controller: when an environment's socket holds the
  length and some but not all of the bytes of a message, the read fails where it would have to
  wait, closes the socket and then reads the closed socket for ever - the event loop never serves
  another descriptor.\<close>

theorem ipc_split_message_hangs:
  assumes "connected s" and "pack_H n = Inr h" and "part \<noteq> []" and "length part < n"
    and "incoming s = [Piece (h @ part)]"
  shows "ipc_read s = None"
proof -
  have h: "length h = 2" "unpack_H h = n" using unpack_pack_H [OF assms(2)] by simp_all
  let ?s1 = "s\<lparr>incoming := [Piece part]\<rparr>" and ?s2 = "s\<lparr>incoming := []\<rparr>"
  have "sock_recv 2 s = (Piece h, ?s1)" using assms h by (simp add: sock_recv_def)
  then have "ipc_read s = read_payload n [] False ?s1" using assms(1) h by (simp add: ipc_read_def)
  also have "sock_recv (n - length ([] :: u8 list)) ?s1 = (Piece part, ?s2)"
    using assms(1,4) by (simp add: sock_recv_def)
  with assms(3,4) have "read_payload n [] False ?s1 = read_payload n part True ?s2"
    by (subst read_payload.simps) simp
  also have "sock_recv (n - length part) ?s2 = (Failure, ?s2)" using assms(1) by (simp add: sock_recv_def)
  with assms(4) have "read_payload n part True ?s2 = read_payload n part True (ipc_close ?s2)"
    by (subst read_payload.simps) simp
  also have "\<dots> = None" by (rule closed_read_diverges) (simp_all add: assms(4) ipc_close_def)
  finally show ?thesis .
qed

theorem ipc_split_message_hangs_witness:
  "ipc_read \<lparr>connected = True, incoming = [Piece ([0, 5] @ [123, 34])]\<rparr> = None"
  by (rule ipc_split_message_hangs [where n = 5 and h = "[0, 5]" and part = "[123, 34]"]) (simp_all add: pack_H_def)

text \<open>When only the length has arrived the read raises an exception: the environment is dropped.\<close>

lemma ipc_header_alone_fails:
  assumes "connected s" and "pack_H n = Inr h" and "0 < n" and "incoming s = [Piece h]"
  shows "ipc_read s = Some (Inl NameError, s\<lparr>incoming := []\<rparr>)"
proof -
  have h: "length h = 2" "unpack_H h = n" using unpack_pack_H [OF assms(2)] by simp_all
  then have "sock_recv 2 s = (Piece h, s\<lparr>incoming := []\<rparr>)" using assms by (simp add: sock_recv_def)
  moreover have "sock_recv n (s\<lparr>incoming := []\<rparr>) = (Failure, s\<lparr>incoming := []\<rparr>)" using assms(1) by (simp add: sock_recv_def)
  ultimately show ?thesis using assms(1,3) h by (simp add: ipc_read_def) (simp add: read_payload.simps)
qed

text \<open>A send that takes part of a message is followed by one of the message from its beginning; the write
  reports success when the bytes add up.\<close>

lemma ipc_partial_write_repeats:
  assumes "0 < k" and "k < length m"
  shows "write_loop m 0 [] [Taken k, Taken (length m - k)] = Some (int (length m), take k m @ take (length m - k) m, True)"
  using assms by simp

text \<open>The buffered write does not: what was taken and what is pending make up what was to be written.\<close>

definition unsent :: "ipc_buffer \<Rightarrow> u8 list" where
  "unsent b = drop (write_offset b) (concat (message_buffer b))"

definition buffer_ok :: "ipc_buffer \<Rightarrow> bool" where
  "buffer_ok b \<longleftrightarrow> buffer_length b = int (length (unsent b)) \<and>
     (case message_buffer b of [] \<Rightarrow> write_offset b = 0 | m # _ \<Rightarrow> write_offset b < length m) \<and> [] \<notin> set (message_buffer b)"

theorem write_once_resumes:
  assumes "buffer_ok b" and "write_once conn answer b = (ret, wire, b', open)"
    and "\<And>k m rest. answer = Taken k \<Longrightarrow> message_buffer b = m # rest \<Longrightarrow> k \<le> length m - write_offset b"
  shows "wire @ unsent b' = unsent b \<and> buffer_ok b'"
proof (cases "message_buffer b")
  case Nil
  with assms(1,2) show ?thesis by (auto simp: write_once_def split: if_splits)
next
  case (Cons m rest)
  have off: "write_offset b < length m" and ne: "[] \<notin> set rest"
    and len: "buffer_length b = int (length m - write_offset b) + int (length (concat rest))"
    using assms(1) Cons by (auto simp: buffer_ok_def unsent_def)
  show ?thesis
  proof (cases "conn \<and> (\<exists>k. answer = Taken k)")
    case False
    with assms(1,2) Cons show ?thesis by (cases answer) (auto simp: write_once_def split: if_splits)
  next
    case True
    then obtain k where k: "answer = Taken k" and conn by blast
    have le: "k \<le> length m - write_offset b" by (rule assms(3) [OF k Cons])
    show ?thesis
    proof (cases "write_offset b + k = length m")
      case True
      then have "wire = drop (write_offset b) m"
        "b' = b\<lparr>message_buffer := rest, write_offset := 0, buffer_length := buffer_length b - int k\<rparr>"
        using assms(2) k \<open>conn\<close> Cons le by (auto simp: write_once_def Let_def)
      then show ?thesis using off ne len le True Cons
        by (cases rest) (auto simp: unsent_def buffer_ok_def)
    next
      case False
      then have "wire = take k (drop (write_offset b) m)"
        "b' = b\<lparr>write_offset := write_offset b + k, buffer_length := buffer_length b - int k\<rparr>"
        using assms(2) k \<open>conn\<close> Cons by (auto simp: write_once_def Let_def)
      moreover have "take k (drop (write_offset b) m) @ drop (write_offset b + k) m = drop (write_offset b) m"
        by (metis add.commute append_take_drop_id drop_drop)
      ultimately show ?thesis using off ne len le False Cons by (auto simp: unsent_def buffer_ok_def)
    qed
  qed
qed

section \<open>Packets fit\<close>

text \<open>The controller's packets are below the limit of \<open>send_msg\<close>, and the header it writes carries the length the
  kernel's receiver works with.\<close>

theorem controller_packets_sent:
  assumes "process_run hash cc es p = (outs, p')" and "To_Kernel packet \<in> set outs" and "sender_keys cc"
  shows "nl_send_msg port packet = Some (write_nl_header port (nlmsg_len (nl_packet packet)) @ nlmsg_payload (nl_packet packet))"
proof -
  have "small_packet packet" using run_small [OF assms(3,1)] assms(2) by (simp add: sends_small_def)
  then have "length packet \<le> 64" by (auto simp: small_packet_def)
  then show ?thesis by (simp add: nl_send_msg_def nl_packet_def c_consts add.commute)
qed

text \<open>So does every packet of the event loop.\<close>

lemma loop_packets_sent:
  assumes "daemon_reach hash cc evs po d" and "To_Kernel packet \<in> set (dm_out d)" and "sender_keys cc"
  shows "nl_send_msg port packet = Some (write_nl_header port (nlmsg_len (nl_packet packet)) @ nlmsg_payload (nl_packet packet))"
  using loop_run [OF assms(1)] controller_packets_sent [OF _ assms(2,3)] by blast

text \<open>A message of the kernel of at most 1008 bytes arrives whole.\<close>

lemma next_msg_strips:
  "length header = 16 \<Longrightarrow> message \<noteq> [] \<Longrightarrow> length message \<le> 1008 \<Longrightarrow> next_msg (header @ message) = Some message"
  by (cases message) (simp_all add: next_msg_def c_consts)

end
