(* ===== verification/Message_Readers.thy ===== *)
theory Message_Readers
  imports Agent
begin

text \<open>
  The readers of message.py the controller does not use: the byte-order helpers for 16 and 64 bits
  and the \<open>deserialize\<close> methods, with \<open>struct.unpack\<close> raising an exception on a wrong length.
\<close>

definition unpack_I :: "u8 list \<Rightarrow> py_error + nat" where
  "unpack_I bs = (if length bs = 4 then Inr (unat (of_le bs :: u32)) else Inl StructError)"

definition u16_from_bytes :: "u8 list \<Rightarrow> py_error + nat" where
  "u16_from_bytes bs = (if length bs \<noteq> 2 then Inl StructError
     else let tmp = unat (of_le bs :: u16); b1 = tmp AND 0xFF000000; b2 = tmp AND 0x00FF0000 in
       Inr (drop_bit 8 b1 + push_bit 8 b2))"

definition u64_from_bytes :: "u8 list \<Rightarrow> py_error + nat" where
  "u64_from_bytes bs = (case unpack_I bs of
     Inl e \<Rightarrow> Inl e
   | Inr tmp \<Rightarrow>
       let b1 = tmp AND 0xFF00000000000000; b2 = tmp AND 0x00FF000000000000;
           b3 = tmp AND 0x0000FF0000000000; b4 = tmp AND 0x000000FF00000000;
           b5 = tmp AND 0x00000000FF000000; b6 = tmp AND 0x0000000000FF0000;
           b7 = tmp AND 0x000000000000FF00; b8 = tmp AND 0x00000000000000FF in
       Inr (drop_bit 8 b1 + push_bit 8 b2 + drop_bit 8 b3 + push_bit 8 b4 + drop_bit 8 b5 + push_bit 8 b6 +
         drop_bit 8 b7 + push_bit 8 b8))"

definition UpdateField_deserialize :: "u8 list \<Rightarrow> py_error + UpdateField" where
  "UpdateField_deserialize buf = (let field = take 13 buf in
     if length field \<noteq> 13 then Inl StructError
     else Inr \<lparr>uf_reg_type = of_le (take 1 field), uf_reg_index = of_le (take 4 (drop 1 field)),
       uf_new_value = of_le (drop 5 field)\<rparr>)"

text \<open>The count is left as the tuple \<open>struct.unpack\<close> returns, which \<open>range\<close> does not take.\<close>

definition UpdateMsg_deserialize :: "u8 list \<Rightarrow> py_error + UpdateField list" where
  "UpdateMsg_deserialize buf = (case unpack_I (take 4 buf) of Inl e \<Rightarrow> Inl e | Inr n \<Rightarrow> Inl TypeError)"

section \<open>What they return\<close>

text \<open>The masks of the 16-bit helper are those of a 32-bit value: the result is always 0.\<close>

lemma u16_from_bytes_zero: "length bs = 2 \<Longrightarrow> u16_from_bytes bs = Inr 0"
proof -
  assume len: "length bs = 2"
  have zero: "unat (of_le bs :: u16) AND 0xFF000000 = 0" "unat (of_le bs :: u16) AND 0x00FF0000 = 0"
  proof -
    let ?x = "unat (of_le bs :: u16)"
    have "?x < 65536" using unsigned_less [of "of_le bs :: u16"] by simp
    then have x: "take_bit 16 ?x = ?x" by (simp add: take_bit_nat_eq_self)
    have "take_bit 16 (0xFF000000 :: nat) = 0" "take_bit 16 (0x00FF0000 :: nat) = 0" by (simp_all add: take_bit_eq_mod)
    then have "take_bit 16 (?x AND 0xFF000000) = 0" "take_bit 16 (?x AND 0x00FF0000) = 0" by (simp_all add: take_bit_and)
    moreover have "?x AND m = take_bit 16 (?x AND m)" for m :: nat
      using x by (metis and.assoc and.commute take_bit_eq_mask)
    ultimately show "?x AND 0xFF000000 = 0" "?x AND 0x00FF0000 = 0" by simp_all
  qed
  show ?thesis unfolding u16_from_bytes_def Let_def zero using len by simp
qed

text \<open>The 64-bit helper reads four bytes; eight bytes raise an exception.\<close>

lemma u64_from_bytes_fails: "length bs = 8 \<Longrightarrow> u64_from_bytes bs = Inl StructError"
  by (simp add: u64_from_bytes_def unpack_I_def)

lemma UpdateMsg_deserialize_fails: "\<exists>e. UpdateMsg_deserialize buf = Inl e"
  by (simp add: UpdateMsg_deserialize_def split: sum.split)

text \<open>A field is read back as it was written.\<close>

lemma UpdateField_roundtrip: "UpdateField_deserialize (UpdateField_serialize f @ rest) = Inr f"
proof -
  have "length (UpdateField_serialize f) = 13" by (simp add: UpdateField_serialize_def)
  then have "take 13 (UpdateField_serialize f @ rest) = UpdateField_serialize f" by simp
  then show ?thesis
    by (simp add: UpdateField_deserialize_def UpdateField_serialize_def of_le_to_le del: to_le.simps)
qed

end
