(* ===== verification/Spec2Isabelle.thy ===== *)
theory Spec2Isabelle
  imports Whole_System Table_Map Handshake Scubic_Curve Poll_Process Ipc Message_Readers
begin

text \<open>
  The spine kernel datapath: congestion-control modules of the TCP stack whose parameters a
  controller in user space sets over netlink.

  \<^bold>\<open>The program and its parts.\<close> src/src/lib is the library the modules share: serialize.c lays
  out and reads the messages, spine.c keeps a table of connections, stages the controller's updates
  in a mailbox per connection (spine_read_msg) and hands them to the module when it calls the
  library (spine_invoke), spine_priv.c holds the private state of a connection. src/src/spine_nl.c
  is the netlink socket, src/src/tcp_spine.c the clock and the log. tcp_neo.c, tcp_vanilla.c and tcp_scubic.c
  are the modules: handlers the TCP stack calls, and a setter (and for neo a fetch function) the
  library calls back. src/python is the controller: spine.py reads the kernel's announcements and the
  messages of environments (clients that steer flows), keeps both in the tables of spine_flow.py to
  match a connection with the flow an environment means, and sends the environments' actions;
  message.py and msg_sender.py build the packets, ipc_socket.py and netlink.py carry them, poller.py
  runs the callbacks.

  \<^bold>\<open>Conventions.\<close> A C function is a function to \<open>'a res\<close> = \<open>fault + 'a\<close>: \<open>Inl\<close> is what the kernel
  would not survive (a NULL or freed pointer, an index out of range, a division by 0, a loop that
  does not return), an error code is an ordinary result. Integers are words of their width. The
  datapath, the sockets and the environment are passed and returned explicitly; a connection
  pointer is the index of its slot, and a socket is a number under which the world holds its
  \<open>tcp_sock\<close> and the module's private area. What the kernel provides (clocks, allocators, netlink,
  the window functions of the TCP stack, fls64) is a record of functions, so every statement holds
  for all their answers; where a theorem needs more, the documented behaviour is a hypothesis
  (\<open>tcp_laws\<close>, \<open>clock_ok\<close>) and the witness instantiates it with concrete functions (theory \<open>Demo\<close>
  and the demo definitions of each module).

  \<^bold>\<open>Theories, code and what is shown.\<close>
  \<^item> \<open>Prelude\<close>: faults, arrays and words; the locale \<open>machine\<close> (a step function with an invariant).
    \<open>Wire\<close>: little-endian images and the locale \<open>codec\<close>, interpreted on integers and structs.
  \<^item> \<open>Serialize\<close> (serialize.c, serialize.h) and \<open>User_Agent\<close> (message.py, msg_sender.py): writers
    and readers of both sides, with the round trips between them.
  \<^item> \<open>Spine_State\<close> (spine.h, spine_priv.h), \<open>Spine\<close> (spine.c, spine_priv.c): state and every
    operation. \<open>Spine_Table\<close>: the search for a free slot, written as a loop that need not return.
    \<open>Spine_Contract\<close>: what an operation may change (\<open>touches\<close>), the invariant \<open>dp_wf\<close>, and under
    the locale \<open>datapath_env\<close> (clock and transport) that operations keep it and do not fault.
    \<open>Spine_Mailbox\<close>: staging and collecting updates; the locale \<open>cc_module\<close> extends
    \<open>datapath_env\<close> by the laws of the callbacks. \<open>Table_Map\<close>: the connection table refines a map.
    \<open>Lifecycle\<close>: the life of a slot as an inductive relation, the calls of the library as steps of
    a transition system, and what every run of them preserves. \<open>Announce\<close>: a connection that has
    not been announced is announced by the next call once the time-out of its last attempt is over.
    \<open>Spine_Properties\<close>: the properties of the library.
  \<^item> \<open>Kernel\<close> (the socket fields used), \<open>Tcp_Spine\<close> (tcp_spine.c, the log macros), \<open>Netlink\<close> (spine_nl.c):
    \<open>datapath_env\<close> is interpreted here on the program's own clock and socket.
  \<^item> \<open>Flow_Module\<close>: the locale \<open>flow_module\<close>, the contract of a module's setter and fetch function,
    a sublocale of \<open>cc_module\<close>; under it opening, receiving, invoking and closing keep \<open>flows_ok\<close>:
    every numbered slot is live and belongs to the socket it names, so no slot is leaked.
    \<open>Flow_Life\<close>: openings, closings, handler calls and packets as events, the discipline the TCP
    stack keeps as a condition on their sequence, and the locale \<open>flow_life\<close> (it extends
    \<open>flow_module\<close>) under which every disciplined sequence runs.
    \<open>Command\<close>: a command of the controller, in any order of its fields, reaches the setter.
  \<^item> \<open>Neo\<close> (tcp_neo.c), \<open>Neo_Ring\<close> (the ring of monitor intervals), \<open>Neo_Module\<close>; \<open>Vanilla\<close>
    (tcp_vanilla.c), \<open>Vanilla_Module\<close>; \<open>Scubic\<close> (tcp_scubic.c), \<open>Scubic_Math\<close> (the friendliness
    loop and the scale factors), \<open>Scubic_Cbrt\<close> (totality and accuracy of the cube root),
    \<open>Scubic_Module\<close>, \<open>Scubic_Properties\<close>, \<open>Scubic_Curve\<close> (the cubic function against its
    definition over the integers). Each module interprets \<open>flow_module\<close> on its callbacks and
    \<open>machine\<close> on its handlers, with packets of the controller as one of the events: no run of
    events faults and the invariant of the flows holds throughout.
  \<^item> \<open>Module_Load\<close> and \<open>Load_Properties\<close>: the register and unregister functions; a successful load
    establishes the invariant the flow theorems start from (for vanilla and scubic only if the
    memory of the datapath happens to hold no fetch function). \<open>Module_Life\<close> interprets
    \<open>flow_life\<close> on the three modules: from load to unload no disciplined sequence faults.
  \<^item> \<open>Controller\<close> (what is made of create and release messages), \<open>Flow_Map\<close> (spine_flow.py), \<open>Agent\<close>
    (spine.py and the rules of poller.py): the controller's tables, callbacks and runs, with
    exceptions as values. \<open>Agent_Properties\<close>: after any run a flow holds only a connection that was
    announced with its port. \<open>Agent_Tables\<close>: what every event keeps of the numbers in the tables.
    \<open>Agent_Faults\<close>: lost announcements, reused slots, lost descriptors.
    \<open>Agent_Packets\<close>: every packet of the process is one the kernel's contracts cover.
    \<open>Handshake\<close>: kernel and controller together, from a new connection to the first command, proved once
    under \<open>flow_module\<close> and instantiated for the three modules.
    \<open>Traffic\<close>: what the calls of the library put on the wire. \<open>Joint\<close>: calls of a module, the
    controller, packets and messages in flight as one transition system, and its invariant.
  \<^item> \<open>Poller\<close> (poller.py): registration, the order in which a poll serves its events, and the removal
    of descriptors, with the invariant of its queues. \<open>Poll_Process\<close>: with the controller's three
    callbacks a poll, and so the event loop from the start of main, is a run of the process of \<open>Agent\<close>. \<open>Ipc\<close> (ipc_socket.py, netlink.py): framing on
    a stream, partial reads and writes, the header of a netlink packet. \<open>Message_Readers\<close>: the readers
    of message.py that no code calls.
  \<^item> \<open>System\<close>: a loaded module, the stack that calls its handlers and the controller as one transition
    system; handlers are sequences of calls of the library, so it refines the one of \<open>Joint\<close>, and under
    the locale \<open>module_system\<close> (it extends \<open>flow_life\<close>) each side meets what the other assumes.
    \<open>Whole_System\<close> interprets it on the three modules: in no reachable state can a handler, a packet
    or a message fail.

  \<^bold>\<open>Bounds.\<close> Connection numbers are 16 bits wide, so the theorems on the table assume at most 65535
  slots; the modules use 1024. Loops that need not return are \<open>partial_function (option)\<close> (the
  search for a slot) or \<open>while_option\<close> (the friendliness loop), so no fuel is chosen: not
  returning is the fault \<open>Diverges\<close>, and the theorems say exactly when it occurs. The flows of
  scubic are shown safe for windows of at least 4 and a clamp of at most 2^19 segments; below 4 the
  loop can hang (\<open>scubic_small_beta_hangs\<close>), above it the 32-bit product of window and scale can
  wrap to 0.

  \<^bold>\<open>Not modelled.\<close> Where the library logs, and statistics counters. Concurrency: handlers and packet
  reception are atomic steps in any order; the races between softirq and unload are shown only as
  the states between the steps of an unload. Of the controller: JSON, creating and
  binding sockets, the command line, dropping privileges and the learning agent behind an environment;
  the theorems on the process take the messages of environments as read and parsed, and
  \<open>Ipc\<close> shows when a read does not end. The manual tests and the build files. Slow start, additive increase and the other functions of the TCP stack are
  parameters. Header declarations no code uses (registers and errors of a virtual machine this
  version does not have, struct spine, the messages of state and parameters).

  \<^bold>\<open>Left for later.\<close> Two modules over one netlink socket.
\<close>

end
